(* ===== verification/Prelude.thy ===== *)
theory Prelude
  imports Main "HOL-Library.Word" "HOL-Library.Log_Nat"
begin

text \<open>
  Shared ground of the development: the machine integer types, the parts of the Rust standard
  library on strings that the monitors and loaders call, and the lemma collections the
  component theories extend.  A Rust string is a list of bytes; white space is ASCII white
  space (the files and messages read by the program are ASCII).
\<close>

type_synonym u8 = "8 word"
type_synonym u32 = "32 word"
type_synonym u64 = "64 word"
type_synonym i32 = "32 word"
type_synonym i64 = "64 word"

text \<open>The errors of \<^verbatim>\<open>anyhow\<close> results: the message is kept, the call site is not.\<close>

type_synonym 'a res = "string + 'a"

named_theorems level_simps "unfolding of the threshold functions"
named_theorems step_simps "unfolding of the steps of the state machines"

section \<open>Integer operations of the standard library\<close>

definition saturating_sub :: "'l::len word \<Rightarrow> 'l word \<Rightarrow> 'l word" where
  "saturating_sub a b = (if a < b then 0 else a - b)"

lemma unat_saturating_sub [simp]: "unat (saturating_sub a b) = unat a - unat b"
  by (auto simp: saturating_sub_def unat_sub_if' word_less_nat_alt)

lemma saturating_sub_self [simp]: "saturating_sub a a = 0"
  by (simp add: saturating_sub_def)

lemma saturating_sub_le: "saturating_sub a b \<le> a"
  by (simp add: word_le_nat_alt)

section \<open>Strings\<close>

definition is_ws :: "char \<Rightarrow> bool" where
  "is_ws c = (of_char c \<in> {9, 10, 11, 12, 13, 32 :: nat})"

definition is_digit :: "char \<Rightarrow> bool" where
  "is_digit c = (48 \<le> (of_char c :: nat) \<and> (of_char c :: nat) \<le> 57)"

definition digit_val :: "char \<Rightarrow> nat" where
  "digit_val c = of_char c - 48"

definition trim_start :: "string \<Rightarrow> string" where
  "trim_start s = dropWhile is_ws s"

definition trim_end :: "string \<Rightarrow> string" where
  "trim_end s = rev (dropWhile is_ws (rev s))"

definition trim :: "string \<Rightarrow> string" where
  "trim s = trim_end (trim_start s)"

fun strip_prefix :: "string \<Rightarrow> string \<Rightarrow> string option" where
  "strip_prefix [] s = Some s"
| "strip_prefix (p # ps) [] = None"
| "strip_prefix (p # ps) (c # s) = (if p = c then strip_prefix ps s else None)"

definition strip_suffix :: "string \<Rightarrow> string \<Rightarrow> string option" where
  "strip_suffix p s = map_option rev (strip_prefix (rev p) (rev s))"

lemma strip_prefix_Some: "strip_prefix p s = Some r \<longleftrightarrow> s = p @ r"
  by (induction p s rule: strip_prefix.induct) auto

lemma strip_prefix_append [simp]: "strip_prefix p (p @ r) = Some r"
  by (simp add: strip_prefix_Some)

lemma strip_prefix_length: "strip_prefix p s = Some r \<Longrightarrow> length r + length p = length s"
  by (auto simp: strip_prefix_Some)

text \<open>\<^verbatim>\<open>trim_end_matches\<close> removes the suffix as often as it occurs.\<close>

function trim_end_matches :: "string \<Rightarrow> string \<Rightarrow> string" where
  "trim_end_matches p s =
     (if p = [] then s
      else case strip_suffix p s of None \<Rightarrow> s | Some r \<Rightarrow> trim_end_matches p r)"
  by pat_completeness auto
termination
proof (relation "measure (\<lambda>(p, s). length s)")
  fix p s r :: string
  assume "p \<noteq> []" and "strip_suffix p s = Some r"
  then have "length r < length s"
    using strip_prefix_length[of "rev p" "rev s"]
    by (cases p) (auto simp: strip_suffix_def)
  then show "((p, r), p, s) \<in> measure (\<lambda>(p, s). length s)" by simp
qed simp

declare trim_end_matches.simps [simp del]

fun split_on :: "(char \<Rightarrow> bool) \<Rightarrow> string \<Rightarrow> string list" where
  "split_on f [] = [[]]"
| "split_on f (c # s) =
     (if f c then [] # split_on f s
      else case split_on f s of [] \<Rightarrow> [[c]] | w # ws \<Rightarrow> (c # w) # ws)"

definition split_whitespace :: "string \<Rightarrow> string list" where
  "split_whitespace s = filter (\<lambda>w. w \<noteq> []) (split_on is_ws s)"

definition strip_cr :: "string \<Rightarrow> string" where
  "strip_cr s = (if s \<noteq> [] \<and> last s = CHR 0x0D then butlast s else s)"

text \<open>\<^verbatim>\<open>str::lines\<close>: the pieces ended by a newline lose it and one carriage return before it; a
  non-empty last piece without a newline is kept as it is.\<close>

definition str_lines :: "string \<Rightarrow> string list" where
  "str_lines s = (let ps = split_on (\<lambda>c. c = CHR 0x0A) s in
     map strip_cr (butlast ps) @ (if last ps = [] then [] else [last ps]))"

fun find_sub :: "string \<Rightarrow> string \<Rightarrow> nat option" where
  "find_sub p [] = (if p = [] then Some 0 else None)"
| "find_sub p (c # s) =
     (if strip_prefix p (c # s) \<noteq> None then Some 0 else map_option Suc (find_sub p s))"

definition to_lower :: "char \<Rightarrow> char" where
  "to_lower c = (if 65 \<le> (of_char c :: nat) \<and> (of_char c :: nat) \<le> 90 then char_of ((of_char c :: nat) + 32) else c)"

definition to_upper :: "char \<Rightarrow> char" where
  "to_upper c = (if 97 \<le> (of_char c :: nat) \<and> (of_char c :: nat) \<le> 122 then char_of ((of_char c :: nat) - 32) else c)"

definition is_alpha :: "char \<Rightarrow> bool" where
  "is_alpha c = (let n = (of_char c :: nat) in (65 \<le> n \<and> n \<le> 90) \<or> (97 \<le> n \<and> n \<le> 122))"

section \<open>Numbers in strings\<close>

definition digits_val :: "string \<Rightarrow> nat" where
  "digits_val s = foldl (\<lambda>a c. 10 * a + digit_val c) 0 s"

definition parse_digits :: "string \<Rightarrow> nat option" where
  "parse_digits s = (if s \<noteq> [] \<and> list_all is_digit s then Some (digits_val s) else None)"

text \<open>\<^verbatim>\<open>str::parse\<close> at an unsigned type: an optional \<^verbatim>\<open>+\<close>, at least one digit, no overflow.\<close>

definition parse_unsigned :: "nat \<Rightarrow> string \<Rightarrow> nat option" where
  "parse_unsigned bound s =
     (case parse_digits (case s of c # r \<Rightarrow> if c = CHR ''+'' then r else s | [] \<Rightarrow> []) of
        None \<Rightarrow> None
      | Some n \<Rightarrow> if n < bound then Some n else None)"

definition parse_u64 :: "string \<Rightarrow> u64 option" where
  "parse_u64 s = map_option of_nat (parse_unsigned (2 ^ 64) s)"

definition parse_u32 :: "string \<Rightarrow> u32 option" where
  "parse_u32 s = map_option of_nat (parse_unsigned (2 ^ 32) s)"

text \<open>At a signed type the sign may also be \<^verbatim>\<open>-\<close>.\<close>

definition parse_i32 :: "string \<Rightarrow> i32 option" where
  "parse_i32 s =
     (case s of
        c # r \<Rightarrow>
          if c = CHR ''-''
          then (case parse_digits r of
                  None \<Rightarrow> None
                | Some n \<Rightarrow> if n \<le> 2 ^ 31 then Some (- of_nat n) else None)
          else map_option of_nat (parse_unsigned (2 ^ 31) s)
      | [] \<Rightarrow> None)"

text \<open>The decimal digits of a number, most significant first: what the kernel prints.\<close>

function show_nat :: "nat \<Rightarrow> string" where
  "show_nat n = (if n < 10 then [char_of (n + 48)] else show_nat (n div 10) @ [char_of (n mod 10 + 48)])"
  by pat_completeness auto
termination
  by (relation "measure id") auto

declare show_nat.simps [simp del]

lemma digits_val_snoc: "digits_val (s @ [c]) = 10 * digits_val s + digit_val c"
  by (simp add: digits_val_def)

lemma of_char_digit: "n < 10 \<Longrightarrow> (of_char (char_of (n + 48) :: char) :: nat) = n + 48"
  by (simp add: of_char_of take_bit_eq_mod)

lemma show_nat_digits: "list_all is_digit (show_nat n) \<and> show_nat n \<noteq> [] \<and> digits_val (show_nat n) = n"
proof (induction n rule: show_nat.induct)
  case (1 n)
  show ?case
  proof (cases "n < 10")
    case True
    then show ?thesis
      by (simp add: show_nat.simps[of n] is_digit_def digits_val_def digit_val_def of_char_digit)
  next
    case False
    have m: "n mod 10 < 10" by simp
    show ?thesis
      using False 1 of_char_digit[OF m]
      by (simp add: show_nat.simps[of n] digits_val_snoc is_digit_def digit_val_def)
  qed
qed

lemma parse_digits_show [simp]: "parse_digits (show_nat n) = Some n"
  using show_nat_digits[of n] by (simp add: parse_digits_def)

lemma parse_unsigned_show: "n < b \<Longrightarrow> parse_unsigned b (show_nat n) = Some n"
proof -
  assume n: "n < b"
  obtain c r where cr: "show_nat n = c # r" using show_nat_digits[of n] by (cases "show_nat n") auto
  then have "is_digit c" using show_nat_digits[of n] by simp
  then have "c \<noteq> CHR ''+''" by (auto simp: is_digit_def)
  then have "(case show_nat n of c # r \<Rightarrow> if c = CHR ''+'' then r else show_nat n | [] \<Rightarrow> []) = show_nat n"
    using cr by simp
  then show ?thesis using n by (simp add: parse_unsigned_def)
qed

lemma parse_unsigned_less: "parse_unsigned b s = Some n \<Longrightarrow> n < b"
  by (auto simp: parse_unsigned_def split: option.splits if_splits)

lemma parse_u64_show [simp]: "parse_u64 (show_nat (unat w)) = Some w"
proof -
  have "unat w < 2 ^ LENGTH(64)" by (rule unsigned_less)
  then show ?thesis using parse_unsigned_show[of "unat w" "2 ^ 64"] by (simp add: parse_u64_def)
qed

lemma digit_not_ws: "is_digit c \<Longrightarrow> \<not> is_ws c"
  by (auto simp: is_digit_def is_ws_def)

lemma split_on_append_sep:
  "list_all (\<lambda>c. \<not> f c) w \<Longrightarrow> f d \<Longrightarrow> split_on f (w @ d # s) = w # split_on f s"
  by (induction w) auto

lemma split_on_no_sep: "list_all (\<lambda>c. \<not> f c) w \<Longrightarrow> split_on f w = [w]"
  by (induction w) auto

lemma split_on_nonempty [simp]: "split_on f s \<noteq> []"
  by (induction s) (auto split: list.splits)

lemma str_lines_Cons:
  assumes "CHR 0x0A \<notin> set l"
  shows "str_lines (l @ CHR 0x0A # s) = strip_cr l # str_lines s"
proof -
  have "list_all (\<lambda>c. \<not> c = CHR 0x0A) l" using assms by (auto simp: list_all_iff)
  then have "split_on (\<lambda>c. c = CHR 0x0A) (l @ CHR 0x0A # s) = l # split_on (\<lambda>c. c = CHR 0x0A) s"
    by (intro split_on_append_sep) simp_all
  then show ?thesis by (simp add: str_lines_def Let_def)
qed

lemma trim_ends_id:
  assumes "s \<noteq> []" "\<not> is_ws (hd s)" "\<not> is_ws (last s)"
  shows "trim s = s"
proof -
  have "trim_start s = s" using assms(1,2) by (cases s) (simp_all add: trim_start_def)
  moreover have "dropWhile is_ws (rev s) = rev s"
    using assms(1,3) by (cases s rule: rev_cases) simp_all
  ultimately show ?thesis by (simp add: trim_def trim_end_def)
qed

lemma trim_start_ws: "list_all is_ws w \<Longrightarrow> trim_start (w @ s) = trim_start s"
  by (induction w) (simp_all add: trim_start_def)

lemma trim_ws_left: "list_all is_ws w \<Longrightarrow> trim (w @ s) = trim s"
  by (simp add: trim_def trim_start_ws)

end
