(* ===== verification/Rust_Float.thy ===== *)
theory Rust_Float
  imports Prelude
begin

text \<open>
  IEEE-754 binary floating point, as the Rust types \<^verbatim>\<open>f64\<close> and \<^verbatim>\<open>f32\<close> of the sources use it.
  A value is a NaN, an infinity or a finite rational.  Every arithmetic operation computes
  the exact rational result and rounds it to nearest, ties to even, with gradual underflow
  and overflow to infinity; comparisons with a NaN are false.  The two signed zeros are one
  value: no operation of the modelled code divides by a value that may be a zero of unknown
  sign or observes the sign of a zero.  The shared facts are that rounding is monotone, odd
  and the identity on representable values.
\<close>

section \<open>Values and formats\<close>

datatype fp = NaN | PInf | NInf | Fin rat

type_synonym f64 = fp
type_synonym f32 = fp

definition ilog2 :: "rat \<Rightarrow> int" where
  "ilog2 q = (case quotient_of q of (a, b) \<Rightarrow>
     let e = bitlen a - bitlen b in if 2 powi e \<le> q then e else e - 1)"

definition rne :: "rat \<Rightarrow> int" where
  "rne x = (let f = \<lfloor>x\<rfloor>; d = x - of_int f in
     if d < 1/2 then f else if 1/2 < d then f + 1 else if even f then f else f + 1)"

definition ulp_exp :: "nat \<Rightarrow> int \<Rightarrow> rat \<Rightarrow> int" where
  "ulp_exp p emin x = max (ilog2 \<bar>x\<bar> - (int p - 1)) emin"

definition rnd :: "nat \<Rightarrow> int \<Rightarrow> rat \<Rightarrow> rat" where
  "rnd p emin x =
     (if x = 0 then 0
      else let u = 2 powi (ulp_exp p emin x) in of_int (rne (x / u)) * u)"

definition to_fmt :: "nat \<Rightarrow> int \<Rightarrow> int \<Rightarrow> rat \<Rightarrow> fp" where
  "to_fmt p emin emax x =
     (let r = rnd p emin x in
      if 2 powi emax \<le> r then PInf else if r \<le> - (2 powi emax) then NInf else Fin r)"

definition repr_fmt :: "nat \<Rightarrow> int \<Rightarrow> rat \<Rightarrow> bool" where
  "repr_fmt p emin x = (\<exists>m e. x = of_int m * 2 powi e \<and> \<bar>m\<bar> < 2 ^ p \<and> emin \<le> e)"

abbreviation rnd64 :: "rat \<Rightarrow> rat" where "rnd64 \<equiv> rnd 53 (-1074)"
abbreviation rnd32 :: "rat \<Rightarrow> rat" where "rnd32 \<equiv> rnd 24 (-149)"
abbreviation repr64 :: "rat \<Rightarrow> bool" where "repr64 \<equiv> repr_fmt 53 (-1074)"
abbreviation repr32 :: "rat \<Rightarrow> bool" where "repr32 \<equiv> repr_fmt 24 (-149)"
abbreviation to_f64 :: "rat \<Rightarrow> fp" where "to_f64 \<equiv> to_fmt 53 (-1074) 1024"
abbreviation to_f32 :: "rat \<Rightarrow> fp" where "to_f32 \<equiv> to_fmt 24 (-149) 128"

section \<open>Comparison and selection\<close>

fun fp_le :: "fp \<Rightarrow> fp \<Rightarrow> bool" where
  "fp_le NaN b = False"
| "fp_le a NaN = False"
| "fp_le NInf b = True"
| "fp_le a PInf = True"
| "fp_le (Fin x) (Fin y) = (x \<le> y)"
| "fp_le a b = False"

definition fp_lt :: "fp \<Rightarrow> fp \<Rightarrow> bool" where
  "fp_lt a b = (fp_le a b \<and> \<not> fp_le b a)"

definition fp_eq :: "fp \<Rightarrow> fp \<Rightarrow> bool" where
  "fp_eq a b = (fp_le a b \<and> fp_le b a)"

abbreviation fp_ge :: "fp \<Rightarrow> fp \<Rightarrow> bool" where "fp_ge a b \<equiv> fp_le b a"
abbreviation fp_gt :: "fp \<Rightarrow> fp \<Rightarrow> bool" where "fp_gt a b \<equiv> fp_lt b a"

fun is_finite :: "fp \<Rightarrow> bool" where
  "is_finite (Fin x) = True"
| "is_finite v = False"

definition fp_max :: "fp \<Rightarrow> fp \<Rightarrow> fp" where
  "fp_max a b = (if a = NaN then b else if b = NaN then a else if fp_le a b then b else a)"

definition fp_min :: "fp \<Rightarrow> fp \<Rightarrow> fp" where
  "fp_min a b = (if a = NaN then b else if b = NaN then a else if fp_le a b then a else b)"

definition fp_clamp :: "fp \<Rightarrow> fp \<Rightarrow> fp \<Rightarrow> fp" where
  "fp_clamp x lo hi =
     (let y = (if fp_lt x lo then lo else x) in if fp_gt y hi then hi else y)"

section \<open>Arithmetic, parameterised by the rounding of the format\<close>

fun fp_neg :: "fp \<Rightarrow> fp" where
  "fp_neg NaN = NaN"
| "fp_neg PInf = NInf"
| "fp_neg NInf = PInf"
| "fp_neg (Fin x) = Fin (- x)"

fun fp_abs :: "fp \<Rightarrow> fp" where
  "fp_abs NaN = NaN"
| "fp_abs PInf = PInf"
| "fp_abs NInf = PInf"
| "fp_abs (Fin x) = Fin \<bar>x\<bar>"

fun fp_add :: "(rat \<Rightarrow> fp) \<Rightarrow> fp \<Rightarrow> fp \<Rightarrow> fp" where
  "fp_add R NaN b = NaN"
| "fp_add R a NaN = NaN"
| "fp_add R PInf NInf = NaN"
| "fp_add R NInf PInf = NaN"
| "fp_add R PInf b = PInf"
| "fp_add R NInf b = NInf"
| "fp_add R (Fin x) PInf = PInf"
| "fp_add R (Fin x) NInf = NInf"
| "fp_add R (Fin x) (Fin y) = R (x + y)"

definition fp_sub :: "(rat \<Rightarrow> fp) \<Rightarrow> fp \<Rightarrow> fp \<Rightarrow> fp" where
  "fp_sub R a b = fp_add R a (fp_neg b)"

definition inf_sgn :: "rat \<Rightarrow> fp" where
  "inf_sgn x = (if x = 0 then NaN else if 0 < x then PInf else NInf)"

fun fp_mul :: "(rat \<Rightarrow> fp) \<Rightarrow> fp \<Rightarrow> fp \<Rightarrow> fp" where
  "fp_mul R NaN b = NaN"
| "fp_mul R a NaN = NaN"
| "fp_mul R PInf PInf = PInf"
| "fp_mul R PInf NInf = NInf"
| "fp_mul R NInf PInf = NInf"
| "fp_mul R NInf NInf = PInf"
| "fp_mul R PInf (Fin y) = inf_sgn y"
| "fp_mul R NInf (Fin y) = inf_sgn (- y)"
| "fp_mul R (Fin x) PInf = inf_sgn x"
| "fp_mul R (Fin x) NInf = inf_sgn (- x)"
| "fp_mul R (Fin x) (Fin y) = R (x * y)"

fun fp_div :: "(rat \<Rightarrow> fp) \<Rightarrow> fp \<Rightarrow> fp \<Rightarrow> fp" where
  "fp_div R NaN b = NaN"
| "fp_div R a NaN = NaN"
| "fp_div R PInf (Fin y) = (if y < 0 then NInf else PInf)"
| "fp_div R NInf (Fin y) = (if y < 0 then PInf else NInf)"
| "fp_div R (Fin x) (Fin y) = (if y = 0 then inf_sgn x else R (x / y))"
| "fp_div R (Fin x) b = Fin 0"
| "fp_div R a b = NaN"

abbreviation add64 :: "f64 \<Rightarrow> f64 \<Rightarrow> f64" where "add64 \<equiv> fp_add to_f64"
abbreviation sub64 :: "f64 \<Rightarrow> f64 \<Rightarrow> f64" where "sub64 \<equiv> fp_sub to_f64"
abbreviation mul64 :: "f64 \<Rightarrow> f64 \<Rightarrow> f64" where "mul64 \<equiv> fp_mul to_f64"
abbreviation div64 :: "f64 \<Rightarrow> f64 \<Rightarrow> f64" where "div64 \<equiv> fp_div to_f64"
abbreviation add32 :: "f32 \<Rightarrow> f32 \<Rightarrow> f32" where "add32 \<equiv> fp_add to_f32"
abbreviation sub32 :: "f32 \<Rightarrow> f32 \<Rightarrow> f32" where "sub32 \<equiv> fp_sub to_f32"
abbreviation mul32 :: "f32 \<Rightarrow> f32 \<Rightarrow> f32" where "mul32 \<equiv> fp_mul to_f32"
abbreviation div32 :: "f32 \<Rightarrow> f32 \<Rightarrow> f32" where "div32 \<equiv> fp_div to_f32"

section \<open>The values of a format, and the casts of the \<^verbatim>\<open>as\<close> operator\<close>

definition f64_max :: f64 where
  "f64_max = Fin ((2 ^ 53 - 1) * 2 ^ 971)"

fun is_f64 :: "fp \<Rightarrow> bool" where
  "is_f64 (Fin x) = (to_f64 x = Fin x)"
| "is_f64 v = True"

fun is_f32 :: "fp \<Rightarrow> bool" where
  "is_f32 (Fin x) = (to_f32 x = Fin x)"
| "is_f32 v = True"

definition f64_of_u64 :: "64 word \<Rightarrow> f64" where "f64_of_u64 n = to_f64 (of_int (uint n))"
definition f32_of_u64 :: "64 word \<Rightarrow> f32" where "f32_of_u64 n = to_f32 (of_int (uint n))"
definition f64_of_u32 :: "32 word \<Rightarrow> f64" where "f64_of_u32 n = to_f64 (of_int (uint n))"
definition f64_of_i32 :: "32 word \<Rightarrow> f64" where "f64_of_i32 n = to_f64 (of_int (sint n))"
definition f32_of_i32 :: "32 word \<Rightarrow> f32" where "f32_of_i32 n = to_f32 (of_int (sint n))"

fun f32_of_f64 :: "f64 \<Rightarrow> f32" where
  "f32_of_f64 (Fin x) = to_f32 x"
| "f32_of_f64 v = v"

definition f64_of_f32 :: "f32 \<Rightarrow> f64" where "f64_of_f32 v = v"

definition trunc :: "rat \<Rightarrow> int" where
  "trunc x = (if 0 \<le> x then \<lfloor>x\<rfloor> else \<lceil>x\<rceil>)"

fun sat_cast :: "int \<Rightarrow> int \<Rightarrow> fp \<Rightarrow> int" where
  "sat_cast lo hi NaN = 0"
| "sat_cast lo hi PInf = hi"
| "sat_cast lo hi NInf = lo"
| "sat_cast lo hi (Fin x) = max lo (min hi (trunc x))"

definition u64_of_f64 :: "f64 \<Rightarrow> 64 word" where
  "u64_of_f64 v = word_of_int (sat_cast 0 (2 ^ 64 - 1) v)"
definition u32_of_f64 :: "f64 \<Rightarrow> 32 word" where
  "u32_of_f64 v = word_of_int (sat_cast 0 (2 ^ 32 - 1) v)"
definition i64_of_f64 :: "f64 \<Rightarrow> 64 word" where
  "i64_of_f64 v = word_of_int (sat_cast (- (2 ^ 63)) (2 ^ 63 - 1) v)"
definition i32_of_f64 :: "f64 \<Rightarrow> 32 word" where
  "i32_of_f64 v = word_of_int (sat_cast (- (2 ^ 31)) (2 ^ 31 - 1) v)"

section \<open>Rounding\<close>

lemma powi_le_iff [simp]: "(2::rat) powi a \<le> 2 powi b \<longleftrightarrow> a \<le> b"
  by (metis power_int_increasing power_int_le_imp_le_exp one_less_numeral_iff
      semiring_norm(76) less_le_not_le linorder_linear order_less_le power_int_le_imp_less_exp
      power_int_strict_increasing)

lemma powi_less_iff [simp]: "(2::rat) powi a < 2 powi b \<longleftrightarrow> a < b"
  by (simp add: not_le [symmetric])

lemma powi_pos [simp]: "0 < (2::rat) powi a"
  by simp

lemma powi_add2: "(2::rat) powi (a + b) = 2 powi a * 2 powi b"
  by (simp add: power_int_add)

lemma powi_nat [simp]: "(2::rat) powi int n = 2 ^ n"
  by simp

lemma bitlen_powi:
  assumes "0 < x"
  shows "2 powi (bitlen x - 1) \<le> (of_int x :: rat)" and "(of_int x :: rat) < 2 powi (bitlen x)"
proof -
  have 1: "1 \<le> bitlen x" using assms by (simp add: bitlen_alt_def)
  have b: "2 ^ nat (bitlen x - 1) \<le> x" "x < 2 ^ nat (bitlen x)"
    using bitlen_bounds[OF assms] by auto
  have "(of_int (2 ^ nat (bitlen x - 1)) :: rat) \<le> of_int x" using b(1) of_int_le_iff by blast
  then show "2 powi (bitlen x - 1) \<le> (of_int x :: rat)" using 1 by (simp add: power_int_def)
  have "(of_int x :: rat) < of_int (2 ^ nat (bitlen x))" using b(2) of_int_less_iff by blast
  then show "(of_int x :: rat) < 2 powi (bitlen x)" using 1 by (simp add: power_int_def)
qed

lemma ilog2_bounds:
  assumes "0 < q"
  shows "2 powi (ilog2 q) \<le> q" and "q < 2 powi (ilog2 q + 1)"
proof -
  obtain a b where ab: "quotient_of q = (a, b)" by (cases "quotient_of q")
  define e where "e = bitlen a - bitlen b"
  have b: "0 < b" using quotient_of_denom_pos[OF ab] .
  have q: "q = of_int a / of_int b" using quotient_of_div[OF ab] .
  have a: "0 < a" using assms q b by (simp add: zero_less_divide_iff)
  note A = bitlen_powi[OF a] and B = bitlen_powi[OF b]
  have "q < 2 powi bitlen a / 2 powi (bitlen b - 1)"
    unfolding q using A B a b by (intro frac_less) auto
  also have "\<dots> = 2 powi (e + 1)" by (simp add: e_def power_int_diff [symmetric] algebra_simps)
  finally have up: "q < 2 powi (e + 1)" .
  have "2 powi (e - 1) = (2::rat) powi (bitlen a - 1) / 2 powi bitlen b"
    by (simp add: e_def power_int_diff)
  also have "\<dots> \<le> q"
    unfolding q using A B a b by (intro frac_le) (auto intro: less_imp_le)
  finally have lo: "2 powi (e - 1) \<le> q" .
  show "2 powi (ilog2 q) \<le> q" and "q < 2 powi (ilog2 q + 1)"
    using up lo by (auto simp: ilog2_def ab e_def [symmetric] Let_def)
qed

lemma ilog2_ge_iff: "0 < q \<Longrightarrow> k \<le> ilog2 q \<longleftrightarrow> 2 powi k \<le> q"
proof
  assume q: "0 < q" and "k \<le> ilog2 q"
  then have "(2::rat) powi k \<le> 2 powi (ilog2 q)" by simp
  with ilog2_bounds(1)[OF q] show "2 powi k \<le> q" by (rule order_trans[rotated])
next
  assume q: "0 < q" and "2 powi k \<le> q"
  with ilog2_bounds(2)[OF q] have "(2::rat) powi k < 2 powi (ilog2 q + 1)" by linarith
  then show "k \<le> ilog2 q" by simp
qed

lemma ilog2_mono: "0 < x \<Longrightarrow> x \<le> y \<Longrightarrow> ilog2 x \<le> ilog2 y"
  using ilog2_ge_iff[of y "ilog2 x"] ilog2_bounds(1)[of x] by (auto intro: order_trans)

lemma ulp_exp_minus [simp]: "ulp_exp p emin (- x) = ulp_exp p emin x"
  by (simp add: ulp_exp_def)

lemma rne_cases:
  obtains "rne x = \<lfloor>x\<rfloor>" "x - of_int \<lfloor>x\<rfloor> \<le> 1/2"
  | "rne x = \<lfloor>x\<rfloor> + 1" "1/2 \<le> x - of_int \<lfloor>x\<rfloor>"
proof -
  consider "x - of_int \<lfloor>x\<rfloor> < 1/2" | "1/2 < x - of_int \<lfloor>x\<rfloor>" | "x - of_int \<lfloor>x\<rfloor> = 1/2" by linarith
  then show ?thesis
  proof cases
    case 3
    then show ?thesis using that by (cases "even \<lfloor>x\<rfloor>") (simp_all add: rne_def Let_def)
  qed (use that in \<open>simp_all add: rne_def Let_def\<close>)
qed

lemma rne_int [simp]: "rne (of_int n) = n"
  by (simp add: rne_def Let_def)

lemma rne_mono:
  assumes "x \<le> y"
  shows "rne x \<le> rne y"
proof (cases "\<lfloor>x\<rfloor> = \<lfloor>y\<rfloor>")
  case True
  then show ?thesis using assms by (auto simp: rne_def Let_def)
next
  case False
  with floor_mono[OF assms] have "\<lfloor>x\<rfloor> + 1 \<le> \<lfloor>y\<rfloor>" by linarith
  then show ?thesis by (cases x rule: rne_cases; cases y rule: rne_cases) auto
qed

lemma rne_minus: "rne (- x) = - rne x"
proof (cases "x \<in> \<int>")
  case True
  then obtain n where "x = of_int n" by (auto elim: Ints_cases)
  then have "rne (- x) = rne (of_int (- n))" by simp
  then show ?thesis using \<open>x = of_int n\<close> by (simp del: of_int_minus)
next
  case False
  then have "x \<noteq> of_int \<lfloor>x\<rfloor>" by (metis Ints_of_int)
  then have f: "\<lfloor>- x\<rfloor> = - \<lfloor>x\<rfloor> - 1"
    by (intro floor_unique) (simp_all, linarith+)
  show ?thesis unfolding rne_def f Let_def by (auto simp: field_simps)
qed

lemma rne_ge_int: "of_int n \<le> x \<Longrightarrow> n \<le> rne x"
  using rne_mono[of "of_int n" x] by simp

lemma rne_le_int: "x \<le> of_int n \<Longrightarrow> rne x \<le> n"
  using rne_mono[of x "of_int n"] by simp

lemma rnd_zero [simp]: "rnd p emin 0 = 0"
  by (simp add: rnd_def)

lemma rnd_minus [simp]: "rnd p emin (- x) = - rnd p emin x"
  by (simp add: rnd_def Let_def rne_minus)

lemma rnd_nonneg: "0 \<le> x \<Longrightarrow> 0 \<le> rnd p emin x"
  using rne_ge_int[of 0 "x / 2 powi ulp_exp p emin x"] by (auto simp: rnd_def Let_def)

lemma rnd_mono_pos:
  assumes x: "0 < x" and xy: "x \<le> y" and p: "0 < p"
  shows "rnd p emin x \<le> rnd p emin y"
proof -
  define a b where "a = ulp_exp p emin x" and "b = ulp_exp p emin y"
  have y: "0 < y" using x xy by simp
  have ab: "a \<le> b" using ilog2_mono[OF x xy] x y by (auto simp: a_def b_def ulp_exp_def)
  have X: "rnd p emin x = of_int (rne (x / 2 powi a)) * 2 powi a"
    using x by (simp add: rnd_def a_def Let_def)
  have Y: "rnd p emin y = of_int (rne (y / 2 powi b)) * 2 powi b"
    using y by (simp add: rnd_def b_def Let_def)
  show ?thesis
  proof (cases "a = b")
    case True
    then show ?thesis using X Y xy rne_mono[of "x / 2 powi a" "y / 2 powi a"]
      by (simp add: divide_right_mono)
  next
    case False
    with ab have lt: "a < b" by simp
    have ly: "ilog2 y = b + (int p - 1)" and lx: "ilog2 x \<le> a + (int p - 1)"
      using lt x y by (auto simp: a_def b_def ulp_exp_def)
    have "2 powi (b + (int p - 1)) \<le> y" using ilog2_bounds(1)[OF y] ly by simp
    then have "(2::rat) powi (int p - 1) \<le> y / 2 powi b"
      by (simp only: powi_add2) (simp add: field_simps)
    moreover have pw: "(2::rat) powi (int p - 1) = of_int (2 ^ (p - 1))"
      using p by (simp add: power_int_def nat_diff_distrib)
    ultimately have "2 ^ (p - 1) \<le> rne (y / 2 powi b)" by (intro rne_ge_int) simp
    then have "of_int (2 ^ (p - 1)) * 2 powi b \<le> rnd p emin y"
      unfolding Y by (intro mult_right_mono) (simp_all only: of_int_le_iff powi_pos less_imp_le)
    then have low: "2 powi (b + (int p - 1)) \<le> rnd p emin y"
      by (simp only: powi_add2 pw mult.commute)
    have "x < 2 powi (ilog2 x + 1)" using ilog2_bounds(2)[OF x] .
    also have "\<dots> \<le> 2 powi (a + int p)" using lx by simp
    finally have "x / 2 powi a \<le> of_int (2 ^ p)" by (simp add: powi_add2 field_simps)
    then have "rne (x / 2 powi a) \<le> 2 ^ p" by (rule rne_le_int)
    then have "rnd p emin x \<le> of_int (2 ^ p) * 2 powi a"
      unfolding X by (intro mult_right_mono) (simp_all only: of_int_le_iff powi_pos less_imp_le)
    also have "\<dots> = 2 powi (a + int p)" by (simp add: powi_add2)
    also have "\<dots> \<le> 2 powi (b + (int p - 1))" using lt by simp
    finally show ?thesis using low by simp
  qed
qed

lemma rnd_mono:
  assumes "x \<le> y" and "0 < p"
  shows "rnd p emin x \<le> rnd p emin y"
proof -
  consider "0 < x" | "x \<le> 0" "0 \<le> y" | "y < 0" by linarith
  then show ?thesis
  proof cases
    case 1 then show ?thesis using rnd_mono_pos assms by blast
  next
    case 2
    have "0 \<le> rnd p emin (- x)" using 2 by (intro rnd_nonneg) simp
    then show ?thesis using rnd_nonneg[OF 2(2), of p emin] by simp
  next
    case 3
    then show ?thesis using rnd_mono_pos[of "- y" "- x" p emin] assms by simp
  qed
qed

lemma rnd_repr:
  assumes "repr_fmt p emin x"
  shows "rnd p emin x = x"
proof (cases "x = 0")
  case False
  from assms obtain m e where x: "x = of_int m * 2 powi e" and m: "\<bar>m\<bar> < 2 ^ p" and e: "emin \<le> e"
    unfolding repr_fmt_def by blast
  define a where "a = ulp_exp p emin x"
  have pos: "0 < \<bar>x\<bar>" using False by simp
  have "\<bar>x\<bar> < of_int (2 ^ p) * 2 powi e"
  proof -
    have "of_int \<bar>m\<bar> < (of_int (2 ^ p) :: rat)" using m by (simp only: of_int_less_iff)
    then show ?thesis by (simp add: x abs_mult)
  qed
  also have "\<dots> = 2 powi (e + int p)" by (simp add: powi_add2)
  finally have "2 powi (ilog2 \<bar>x\<bar>) < (2::rat) powi (e + int p)"
    using ilog2_bounds(1)[OF pos] by linarith
  then have "a \<le> e" using e by (simp add: a_def ulp_exp_def)
  then have "x / 2 powi a = of_int (m * 2 ^ nat (e - a))"
    by (simp add: x power_int_diff [symmetric] power_int_def [of _ "e - a"] flip: times_divide_eq_right)
  then have "rne (x / 2 powi a) = m * 2 ^ nat (e - a)" by (simp only: rne_int)
  then have "of_int (rne (x / 2 powi a)) * 2 powi a = x"
    using \<open>x / 2 powi a = of_int (m * 2 ^ nat (e - a))\<close>
    by (metis nonzero_divide_eq_eq powi_pos less_irrefl)
  then show ?thesis using False by (simp add: rnd_def a_def Let_def)
qed simp

lemma repr_zero [simp]: "repr_fmt p emin 0"
  unfolding repr_fmt_def by (intro exI[of _ 0] exI[of _ emin]) simp

lemma repr_minus [simp]: "repr_fmt p emin (- x) = repr_fmt p emin x"
proof -
  have "repr_fmt p emin x \<Longrightarrow> repr_fmt p emin (- x)" for x
    unfolding repr_fmt_def by (metis abs_minus_cancel mult_minus_left of_int_minus)
  from this this[of "- x"] show ?thesis by auto
qed

lemma repr_int: "\<bar>n\<bar> < 2 ^ p \<Longrightarrow> emin \<le> 0 \<Longrightarrow> repr_fmt p emin (of_int n)"
  unfolding repr_fmt_def by (intro exI[of _ n] exI[of _ 0]) simp

lemma repr_rnd:
  assumes "0 < p"
  shows "repr_fmt p emin (rnd p emin x)"
proof (cases "x = 0")
  case False
  define a where "a = ulp_exp p emin x"
  define m where "m = rne (x / 2 powi a)"
  have r: "rnd p emin x = of_int m * 2 powi a" using False by (simp add: rnd_def a_def m_def Let_def)
  have emin: "emin \<le> a" and la: "ilog2 \<bar>x\<bar> \<le> a + (int p - 1)" by (auto simp: a_def ulp_exp_def)
  have "\<bar>x\<bar> < 2 powi (ilog2 \<bar>x\<bar> + 1)" using ilog2_bounds(2)[of "\<bar>x\<bar>"] False by simp
  also have "\<dots> \<le> 2 powi (a + int p)" using la by simp
  finally have "\<bar>x / 2 powi a\<bar> \<le> of_int (2 ^ p)" by (simp add: powi_add2 abs_divide field_simps)
  then have "x / 2 powi a \<le> of_int (2 ^ p)" "of_int (- (2 ^ p)) \<le> x / 2 powi a"
    by (simp_all only: abs_le_iff of_int_minus) linarith
  then have "m \<le> 2 ^ p" "- (2 ^ p) \<le> m"
    unfolding m_def by (blast intro: rne_le_int rne_ge_int)+
  then consider "\<bar>m\<bar> < 2 ^ p" | "m = 2 ^ p" | "m = - (2 ^ p)" by linarith
  then show ?thesis
  proof cases
    case 1 then show ?thesis unfolding r repr_fmt_def using emin by blast
  next
    case 2
    then have "rnd p emin x = of_int 1 * 2 powi (a + int p)" by (simp add: r powi_add2)
    then show ?thesis unfolding repr_fmt_def using emin assms
      by (intro exI[of _ 1] exI[of _ "a + int p"]) simp
  next
    case 3
    then have "rnd p emin x = of_int (- 1) * 2 powi (a + int p)" by (simp add: r powi_add2)
    then show ?thesis unfolding repr_fmt_def using emin assms
      by (intro exI[of _ "- 1"] exI[of _ "a + int p"]) simp
  qed
qed simp

lemma rnd_idem [simp]: "0 < p \<Longrightarrow> rnd p emin (rnd p emin x) = rnd p emin x"
  by (simp add: rnd_repr repr_rnd)

lemma rnd_le_repr: "repr_fmt p emin y \<Longrightarrow> x \<le> y \<Longrightarrow> 0 < p \<Longrightarrow> rnd p emin x \<le> y"
  using rnd_mono[of x y p emin] by (simp add: rnd_repr)

lemma rnd_ge_repr: "repr_fmt p emin y \<Longrightarrow> y \<le> x \<Longrightarrow> 0 < p \<Longrightarrow> y \<le> rnd p emin x"
  using rnd_mono[of y x p emin] by (simp add: rnd_repr)


section \<open>Facts on the operations\<close>

lemma to_fmt_not_NaN [simp]: "to_fmt p emin emax x \<noteq> NaN"
  by (simp add: to_fmt_def Let_def)

lemma to_fmt_mono:
  assumes "x \<le> y" and "0 < p"
  shows "fp_le (to_fmt p emin emax x) (to_fmt p emin emax y)"
  using rnd_mono[OF assms, of emin] by (auto simp: to_fmt_def Let_def)

lemma to_fmt_minus: "to_fmt p emin emax (- x) = fp_neg (to_fmt p emin emax x)"
proof -
  have "(0::rat) < 2 powi emax" by simp
  then have "\<not> (2 powi emax \<le> r \<and> 2 powi emax \<le> - r)" for r :: rat by linarith
  then show ?thesis by (auto simp: to_fmt_def Let_def)
qed

lemma to_fmt_zero [simp]: "to_fmt p emin emax 0 = Fin 0"
  by (simp add: to_fmt_def Let_def not_le)

lemma to_fmt_repr:
  assumes "repr_fmt p emin x" and "\<bar>x\<bar> < 2 powi emax"
  shows "to_fmt p emin emax x = Fin x"
  using assms by (auto simp: to_fmt_def rnd_repr Let_def)

lemma to_fmt_FinD: "to_fmt p emin emax x = Fin y \<Longrightarrow> y = rnd p emin x \<and> \<bar>y\<bar> < 2 powi emax"
  by (auto simp: to_fmt_def Let_def split: if_splits)

lemma to_fmt_idem: "0 < p \<Longrightarrow> to_fmt p emin emax x = Fin y \<Longrightarrow> to_fmt p emin emax y = Fin y"
  using to_fmt_FinD[of p emin emax x y] by (auto intro: to_fmt_repr repr_rnd)

lemma is_f64_to_f64 [simp]: "is_f64 (to_f64 x)"
  by (cases "to_f64 x") (auto dest: to_fmt_idem[rotated])

lemma is_f32_to_f32 [simp]: "is_f32 (to_f32 x)"
  by (cases "to_f32 x") (auto dest: to_fmt_idem[rotated])

lemma to_f64_int [simp]: "\<bar>n\<bar> < 2 ^ 53 \<Longrightarrow> to_f64 (of_int n) = Fin (of_int n)"
proof (rule to_fmt_repr)
  assume n: "\<bar>n\<bar> < 2 ^ 53"
  then show "repr64 (of_int n)" by (rule repr_int) simp
  have "of_int \<bar>n\<bar> < (of_int (2 ^ 53) :: rat)" using n by (simp only: of_int_less_iff)
  also have "\<dots> \<le> 2 powi 1024" by (simp add: power_increasing)
  finally show "\<bar>of_int n :: rat\<bar> < 2 powi 1024" by simp
qed

lemma to_f64_numeral: "(numeral n :: int) < 2 ^ 53 \<Longrightarrow> to_f64 (numeral n) = Fin (numeral n)"
  using to_f64_int[of "numeral n"] by simp

lemma to_f64_one: "to_f64 1 = Fin 1"
  using to_f64_int[of 1] by simp

lemma to_fmt_largest:
  assumes "emin \<le> int k" and "emax = int p + int k"
  shows "to_fmt p emin emax ((2 ^ p - 1) * 2 ^ k) = Fin ((2 ^ p - 1) * 2 ^ k)"
proof (rule to_fmt_repr)
  have "(2 ^ p - 1) * 2 ^ k = of_int (2 ^ p - 1) * (2 :: rat) powi int k" by simp
  then show "repr_fmt p emin ((2 ^ p - 1) * 2 ^ k)"
    unfolding repr_fmt_def using assms(1) by (intro exI[of _ "2 ^ p - 1"] exI[of _ "int k"]) simp
  have "\<bar>(2 ^ p - 1) * (2 :: rat) ^ k\<bar> = (2 ^ p - 1) * 2 ^ k" by (rule abs_of_nonneg) simp
  also have "\<dots> < 2 ^ p * 2 ^ k" by (rule mult_strict_right_mono) simp_all
  also have "\<dots> = 2 powi emax" unfolding assms(2) powi_add2 powi_nat ..
  finally show "\<bar>(2 ^ p - 1) * (2 :: rat) ^ k\<bar> < 2 powi emax" .
qed

lemma is_f64_max: "is_f64 f64_max"
  unfolding f64_max_def is_f64.simps by (rule to_fmt_largest) simp_all

lemma le_f64_max: "x \<le> 1 \<or> x \<le> 2 ^ 52 \<Longrightarrow> fp_le (Fin x) f64_max"
proof -
  assume "x \<le> 1 \<or> x \<le> 2 ^ 52"
  then have "x \<le> (2 ^ 53 - 1) * 1" by auto
  also have "\<dots> \<le> (2 ^ 53 - 1) * 2 ^ k" for k :: nat
    by (intro mult_left_mono one_le_power) simp_all
  finally show ?thesis by (simp only: f64_max_def fp_le.simps)
qed

lemma fp_le_refl [simp]: "fp_le a a \<longleftrightarrow> a \<noteq> NaN"
  by (cases a) auto

lemma fp_le_NaN [simp]: "\<not> fp_le a NaN" "\<not> fp_le NaN a"
  by (cases a; simp)+

lemma fp_le_infs [simp]: "fp_le NInf a \<longleftrightarrow> a \<noteq> NaN" "fp_le a PInf \<longleftrightarrow> a \<noteq> NaN"
  by (cases a; simp)+

lemma fp_lt_NaN [simp]: "\<not> fp_lt a NaN" "\<not> fp_lt NaN a"
  by (simp_all add: fp_lt_def)

lemma fp_le_trans: "fp_le a b \<Longrightarrow> fp_le b c \<Longrightarrow> fp_le a c"
  by (cases a; cases b; cases c) auto

lemma fp_le_antisym: "fp_le a b \<Longrightarrow> fp_le b a \<Longrightarrow> a = b"
  by (cases a; cases b) auto

lemma fp_linear: "a \<noteq> NaN \<Longrightarrow> b \<noteq> NaN \<Longrightarrow> fp_le a b \<or> fp_lt b a"
  by (cases a; cases b) (auto simp: fp_lt_def)

lemma fp_lt_irrefl [simp]: "\<not> fp_lt a a"
  by (simp add: fp_lt_def)

lemma fp_lt_imp_le: "fp_lt a b \<Longrightarrow> fp_le a b"
  by (simp add: fp_lt_def)

lemma fp_lt_le_trans: "fp_lt a b \<Longrightarrow> fp_le b c \<Longrightarrow> fp_lt a c"
  unfolding fp_lt_def by (blast intro: fp_le_trans)

lemma fp_le_lt_trans: "fp_le a b \<Longrightarrow> fp_lt b c \<Longrightarrow> fp_lt a c"
  unfolding fp_lt_def by (blast intro: fp_le_trans)

lemma fp_not_lt: "a \<noteq> NaN \<Longrightarrow> b \<noteq> NaN \<Longrightarrow> \<not> fp_lt a b \<longleftrightarrow> fp_le b a"
  using fp_linear[of b a] by (auto simp: fp_lt_def)

lemma fp_lt_Fin [simp]: "fp_lt (Fin x) (Fin y) \<longleftrightarrow> x < y"
  by (auto simp: fp_lt_def)

lemma fp_neg_neg [simp]: "fp_neg (fp_neg a) = a"
  by (cases a) auto

lemma fp_neg_NaN [simp]: "fp_neg a = NaN \<longleftrightarrow> a = NaN"
  by (cases a) auto

lemma fp_le_neg [simp]: "fp_le (fp_neg a) (fp_neg b) = fp_le b a"
  by (cases a; cases b) auto

lemma fp_lt_neg [simp]: "fp_lt (fp_neg a) (fp_neg b) = fp_lt b a"
  by (simp add: fp_lt_def)

lemma fp_neg_add: "fp_neg (fp_add (to_fmt p l h) a b) = fp_add (to_fmt p l h) (fp_neg a) (fp_neg b)"
  by (cases a; cases b) (simp_all add: to_fmt_minus [symmetric])

lemma sub_neg: "fp_sub (to_fmt p l h) (fp_neg a) b = fp_neg (fp_add (to_fmt p l h) a b)"
  by (simp add: fp_sub_def fp_neg_add)

lemma sub64_le:
  assumes "is_f64 a" "a \<noteq> NaN" "is_finite h" "fp_le (Fin 0) h"
  shows "fp_le (sub64 a h) a"
proof -
  obtain y where h: "h = Fin y" and y: "0 \<le> y" using assms(3,4) by (cases h) auto
  show ?thesis
  proof (cases a)
    case (Fin x)
    have "fp_le (to_f64 (x - y)) (to_f64 x)" using y by (intro to_fmt_mono) auto
    then show ?thesis using assms(1) by (simp add: Fin h fp_sub_def)
  qed (use assms(2) h in \<open>auto simp: fp_sub_def\<close>)
qed

lemma sub64_mono:
  assumes "fp_le a b" and "is_finite h"
  shows "fp_le (sub64 a h) (sub64 b h)"
proof -
  obtain y where h: "h = Fin y" using assms(2) by (cases h) auto
  have "x \<le> z \<Longrightarrow> fp_le (to_f64 (x - y)) (to_f64 (z - y))" for x z
    by (rule to_fmt_mono) simp_all
  then show ?thesis using assms(1) by (cases a; cases b) (auto simp: h fp_sub_def)
qed

lemma fp_clamp_bounds:
  assumes "fp_le lo hi" and "x \<noteq> NaN"
  shows "fp_le lo (fp_clamp x lo hi) \<and> fp_le (fp_clamp x lo hi) hi"
proof -
  have n: "lo \<noteq> NaN" "hi \<noteq> NaN" using assms(1) by auto
  show ?thesis
    using assms n by (auto simp: fp_clamp_def Let_def fp_not_lt fp_lt_imp_le)
qed

lemma fp_clamp_NaN [simp]: "fp_clamp NaN lo hi = NaN"
  by (simp add: fp_clamp_def)

lemma fp_clamp_not_NaN: "fp_le lo hi \<Longrightarrow> x \<noteq> NaN \<Longrightarrow> fp_clamp x lo hi \<noteq> NaN"
  using fp_clamp_bounds[of lo hi x] by auto

lemma fp_clamp_id: "fp_le lo x \<Longrightarrow> fp_le x hi \<Longrightarrow> fp_clamp x lo hi = x"
  by (simp add: fp_clamp_def fp_lt_def Let_def)

lemma fp_clamp_in: "fp_clamp x lo hi \<in> {x, lo, hi}"
  by (simp add: fp_clamp_def Let_def)

lemma sat_cast_bounds: "lo \<le> 0 \<Longrightarrow> 0 \<le> hi \<Longrightarrow> lo \<le> sat_cast lo hi v \<and> sat_cast lo hi v \<le> hi"
  by (cases v) auto

lemma uint_u64_of_f64: "uint (u64_of_f64 v) = sat_cast 0 (2 ^ 64 - 1) v"
  using sat_cast_bounds[of 0 "2 ^ 64 - 1" v]
  by (simp add: u64_of_f64_def uint_word_of_int)



lemma rnd_le_double:
  assumes "2 powi emin \<le> x" and "0 < p"
  shows "rnd p emin x \<le> 2 * x"
proof -
  have x: "0 < x" by (rule less_le_trans[OF _ assms(1)]) simp
  have "emin \<le> ilog2 x" using assms(1) ilog2_ge_iff[OF x] by simp
  then have "repr_fmt p emin (of_int 1 * 2 powi (ilog2 x + 1))"
    unfolding repr_fmt_def using assms(2)
    by (intro exI[of _ 1] exI[of _ "ilog2 x + 1"]) simp
  then have "rnd p emin x \<le> 2 powi (ilog2 x + 1)"
    using ilog2_bounds(2)[OF x] assms(2) by (intro rnd_le_repr) (auto simp: less_imp_le)
  also have "\<dots> = 2 * 2 powi (ilog2 x)" by (simp add: powi_add2)
  also have "\<dots> \<le> 2 * x" using ilog2_bounds(1)[OF x] by simp
  finally show ?thesis .
qed

lemma rnd_pos: "2 powi emin \<le> x \<Longrightarrow> 0 < p \<Longrightarrow> 0 < rnd p emin x"
proof -
  assume a: "2 powi emin \<le> x" "0 < p"
  have "repr_fmt p emin (of_int 1 * 2 powi emin)"
    unfolding repr_fmt_def using a(2) by (intro exI[of _ 1] exI[of _ emin]) simp
  then have "2 powi emin \<le> rnd p emin x" using a by (intro rnd_ge_repr) auto
  then show ?thesis by (rule less_le_trans[rotated]) simp
qed

lemma tiny_le_one: "(2::rat) powi (-1074) \<le> 1"
  using powi_le_iff[of "-1074" 0] by simp

lemma to_f64_finite: "\<bar>x\<bar> \<le> 2 ^ 100 \<Longrightarrow> to_f64 x = Fin (rnd64 x)"
proof -
  assume a: "\<bar>x\<bar> \<le> 2 ^ 100"
  have r: "repr64 (2 ^ 100)"
    unfolding repr_fmt_def by (intro exI[of _ 1] exI[of _ "int 100"]) simp
  have "rnd64 x \<le> 2 ^ 100" by (rule rnd_le_repr[OF r]) (use a in auto)
  moreover have "- (2 ^ 100) \<le> rnd64 x"
    by (rule rnd_ge_repr) (use a r repr_minus[of 53 "-1074" "2 ^ 100"] in \<open>auto simp: abs_le_iff\<close>)
  ultimately have "\<bar>rnd64 x\<bar> \<le> 2 powi (int 100)" unfolding powi_nat by (rule abs_leI[OF _ minus_le_iff[THEN iffD1]])
  also have "\<dots> < 2 powi 1024" by (simp only: powi_less_iff)
  finally show ?thesis unfolding to_fmt_def Let_def abs_less_iff by auto
qed

lemma to_f64_u64:
  assumes "0 \<le> n" and "n < 2 ^ 64"
  shows "to_f64 (of_int n) = Fin (rnd64 (of_int n))"
proof (rule to_f64_finite)
  have "\<bar>of_int n :: rat\<bar> \<le> of_int (2 ^ 64)" using assms by simp
  also have "\<dots> \<le> 2 ^ 100" by simp
  finally show "\<bar>of_int n :: rat\<bar> \<le> 2 ^ 100" .
qed

lemma uint_u64: "0 \<le> uint w" "uint w < 2 ^ 64" for w :: "64 word"
  using uint_bounded[of w] by simp_all

lemma f64_of_u64_Fin: "f64_of_u64 w = Fin (rnd64 (of_int (uint w)))"
  unfolding f64_of_u64_def by (rule to_f64_u64[OF uint_u64])

lemma f64_of_u64_nonneg: "\<exists>r \<ge> 0. f64_of_u64 w = Fin r"
  unfolding f64_of_u64_Fin
  by (intro exI[of _ "rnd64 (of_int (uint w))"] conjI rnd_nonneg refl) (simp only: of_int_0_le_iff uint_u64)

lemma f64_of_u64_pos:
  assumes "w \<noteq> 0"
  shows "\<exists>r > 0. f64_of_u64 w = Fin r"
proof -
  have "1 \<le> uint w" using assms uint_u64(1)[of w] by (simp add: uint_0_iff order_less_le int_one_le_iff_zero_less)
  then have "1 \<le> (of_int (uint w) :: rat)" by (simp only: of_int_1_le_iff)
  then have "2 powi (-1074) \<le> (of_int (uint w) :: rat)" using tiny_le_one by (rule order_trans[rotated])
  then show ?thesis
    unfolding f64_of_u64_Fin by (intro exI[of _ "rnd64 (of_int (uint w))"] conjI rnd_pos refl) simp_all
qed

lemma f64_of_u64_bounds:
  "\<exists>r. f64_of_u64 w = Fin r \<and> 0 \<le> r \<and> r \<le> 2 ^ 64 \<and> (w \<noteq> 0 \<longrightarrow> 1 \<le> r)"
proof -
  define n where "n = uint w"
  have n: "0 \<le> n" "n < 2 ^ 64" using uint_u64[of w] by (simp_all add: n_def)
  have r64: "repr64 (2 ^ 64)" unfolding repr_fmt_def by (intro exI[of _ 1] exI[of _ 64]) simp
  have r1: "repr64 1" using repr_int[of 1 53 "-1074"] by simp
  have q: "0 \<le> (of_int n :: rat)" "(of_int n :: rat) \<le> of_int (2 ^ 64)"
    using n by (simp_all only: of_int_0_le_iff of_int_le_iff)
  have f: "f64_of_u64 w = Fin (rnd64 (of_int n))" unfolding n_def by (rule f64_of_u64_Fin)
  have "1 \<le> rnd64 (of_int n)" if "w \<noteq> 0"
  proof (rule rnd_ge_repr[OF r1])
    have "1 \<le> n" using that n(1) by (simp add: n_def uint_0_iff order_less_le int_one_le_iff_zero_less)
    then show "1 \<le> (of_int n :: rat)" by (simp only: of_int_1_le_iff)
  qed simp
  moreover have "0 \<le> rnd64 (of_int n)" using q(1) by (rule rnd_nonneg)
  moreover have "rnd64 (of_int n) \<le> 2 ^ 64" using r64 q(2) by (intro rnd_le_repr) simp_all
  ultimately show ?thesis using f by blast
qed

lemma div64_u64:
  assumes "w \<noteq> 0"
  shows "\<exists>r. 0 \<le> r \<and> r \<le> 2 ^ 64 \<and> div64 (f64_of_u64 v) (f64_of_u64 w) = Fin r"
proof -
  obtain a where a: "f64_of_u64 v = Fin a" "0 \<le> a" "a \<le> 2 ^ 64" using f64_of_u64_bounds by blast
  obtain b where b: "f64_of_u64 w = Fin b" "1 \<le> b" using f64_of_u64_bounds[of w] assms by blast
  have r64: "repr64 (2 ^ 64)" unfolding repr_fmt_def by (intro exI[of _ 1] exI[of _ 64]) simp
  have ab: "0 \<le> a / b" "a / b \<le> 2 ^ 64" using a b by (simp_all add: divide_le_eq)
  have "\<bar>a / b\<bar> \<le> 2 ^ 100" using ab by simp
  then have "div64 (Fin a) (Fin b) = Fin (rnd64 (a / b))" using b(2) by (simp add: to_f64_finite)
  moreover have "0 \<le> rnd64 (a / b)" "rnd64 (a / b) \<le> 2 ^ 64" using ab r64 by (auto intro: rnd_nonneg rnd_le_repr)
  ultimately show ?thesis using a b by metis
qed

section \<open>Evaluation\<close>

lemma to_fmt_code [code]:
  "to_fmt p emin emax x =
     (let r = rnd p emin x in
      if r \<noteq> 0 \<and> emax \<le> ilog2 \<bar>r\<bar> then (if 0 < r then PInf else NInf) else Fin r)"
proof -
  define r where "r = rnd p emin x"
  have "(0::rat) < 2 powi emax" by simp
  then consider "r = 0" | "0 < r" "- (2 powi emax) < r" | "r < 0" "r < 2 powi emax" by linarith
  then show ?thesis
    by cases (auto simp: to_fmt_def r_def [symmetric] Let_def ilog2_ge_iff not_le)
qed

lemma to_fmt_eqI:
  assumes "2 powi (e + (int p - 1)) \<le> \<bar>x\<bar>" and "\<bar>x\<bar> < 2 powi (e + int p)" and "emin \<le> e"
    and "\<bar>x / 2 powi e - of_int m\<bar> < 1/2" and "\<bar>of_int m * 2 powi e\<bar> < (2 :: rat) powi emax"
  shows "to_fmt p emin emax x = Fin (of_int m * 2 powi e)"
proof -
  have pos: "0 < \<bar>x\<bar>" by (rule less_le_trans[OF _ assms(1)]) simp
  have "ilog2 \<bar>x\<bar> = e + (int p - 1)"
    using ilog2_ge_iff[OF pos, of "e + (int p - 1)"] ilog2_ge_iff[OF pos, of "e + int p"] assms(1,2)
    by auto
  then have u: "ulp_exp p emin x = e" using assms(3) by (simp add: ulp_exp_def)
  have "rne (x / 2 powi e) = m"
    using assms(4) by (cases "x / 2 powi e" rule: rne_cases) linarith+
  then have "rnd p emin x = of_int m * 2 powi e" using pos by (simp add: rnd_def u Let_def)
  then show ?thesis using assms(5) by (simp add: to_fmt_def Let_def abs_less_iff)
qed

section \<open>Reading a float from text\<close>

text \<open>The grammar of \<^verbatim>\<open>f64::from_str\<close>: a sign, then a named value or decimal digits with an optional
  point and exponent, at least one digit, and nothing else.\<close>

definition parse_exponent :: "string \<Rightarrow> int option" where
  "parse_exponent s =
     (case s of
        [] \<Rightarrow> Some 0
      | c # r \<Rightarrow>
          if to_lower c \<noteq> CHR ''e'' then None
          else (case r of
                  [] \<Rightarrow> None
                | d # r' \<Rightarrow>
                    if d = CHR ''-'' then map_option (\<lambda>n. - int n) (parse_digits r')
                    else if d = CHR ''+'' then map_option int (parse_digits r')
                    else map_option int (parse_digits r)))"

definition parse_decimal :: "string \<Rightarrow> rat option" where
  "parse_decimal s =
     (let ip = takeWhile is_digit s;
          rest = dropWhile is_digit s;
          (fr, tl') = (case rest of
              c # r \<Rightarrow> if c = CHR ''.'' then (takeWhile is_digit r, dropWhile is_digit r) else ([], rest)
            | [] \<Rightarrow> ([], [])) in
      if ip = [] \<and> fr = [] then None
      else map_option (\<lambda>e. of_nat (digits_val (ip @ fr)) * 10 powi (e - int (length fr)))
             (parse_exponent tl'))"

definition parse_f64_abs :: "string \<Rightarrow> f64 option" where
  "parse_f64_abs s =
     (let l = map to_lower s in
      if l = ''inf'' \<or> l = ''infinity'' then Some PInf
      else if l = ''nan'' then Some NaN
      else map_option to_f64 (parse_decimal s))"

definition parse_f64 :: "string \<Rightarrow> f64 option" where
  "parse_f64 s =
     (case s of
        c # r \<Rightarrow>
          if c = CHR ''-'' then map_option fp_neg (parse_f64_abs r)
          else if c = CHR ''+'' then parse_f64_abs r
          else parse_f64_abs s
      | [] \<Rightarrow> None)"

lemma digit_not_sign: "is_digit c \<Longrightarrow> c \<noteq> CHR ''-'' \<and> c \<noteq> CHR ''+''"
  by (auto simp: is_digit_def)

lemma digit_not_alpha: "is_digit c \<Longrightarrow> to_lower c \<noteq> CHR ''i'' \<and> to_lower c \<noteq> CHR ''n''"
  by (auto simp: is_digit_def to_lower_def)

lemma parse_decimal_digits:
  assumes "list_all is_digit s" "s \<noteq> []"
  shows "parse_decimal s = Some (of_nat (digits_val s))"
proof -
  have t: "takeWhile is_digit s = s" and d: "dropWhile is_digit s = []"
    using assms by (simp_all add: list_all_iff)
  show ?thesis using assms(2) by (simp add: parse_decimal_def parse_exponent_def t d)
qed

lemma parse_f64_show: "parse_f64 (show_nat n) = Some (to_f64 (of_nat n))"
proof -
  have d: "list_all is_digit (show_nat n)" "show_nat n \<noteq> []" "digits_val (show_nat n) = n"
    using show_nat_digits[of n] by simp_all
  then obtain c r where s: "show_nat n = c # r" and c: "is_digit c" by (cases "show_nat n") auto
  show ?thesis
    using parse_decimal_digits[OF d(1,2)] d(3) digit_not_sign[OF c] digit_not_alpha[OF c]
    by (simp add: parse_f64_def parse_f64_abs_def s Let_def)
qed

end
