(* ===== verification/Signal.thy ===== *)
theory Signal
  imports Rust_Float
begin

text \<open>
  The vocabulary between the monitors and the policy (\<^verbatim>\<open>src/signal.rs\<close>, \<^verbatim>\<open>src/types.rs\<close>), the D-Bus
  rendering of it (\<^verbatim>\<open>src/emitter/dbus.rs\<close>), and the protocol types of the \<^verbatim>\<open>argus_shared\<close> crate
  with the constructors that the exhaustive matches and struct literals of the sources fix.
\<close>

section \<open>Levels, reasons, signals\<close>

datatype level = Normal | Warning | Critical | Emergency

datatype operating_mode = ModeNormal | ModeWarning | ModeCritical

datatype recommended_backend = Cpu | Gpu | Any

datatype compute_reason =
  CpuBottleneck | GpuBottleneck | CpuAvailable | GpuAvailable | BothLoaded | Balanced

datatype energy_reason =
  BatteryLow | BatteryCritical | PowerLimit | ThermalPower | Charging | NoReason

datatype system_signal =
    MemoryPressure level u64 u64 u64
  | ComputeGuidance level recommended_backend compute_reason f64 f64
  | ThermalAlert level i32 bool f64
  | EnergyConstraint level energy_reason u32

fun signal_level :: "system_signal \<Rightarrow> level" where
  "signal_level (MemoryPressure l _ _ _) = l"
| "signal_level (ComputeGuidance l _ _ _ _) = l"
| "signal_level (ThermalAlert l _ _ _) = l"
| "signal_level (EnergyConstraint l _ _) = l"

text \<open>The derived order of the enum: by position.\<close>

fun level_rank :: "level \<Rightarrow> nat" where
  "level_rank Normal = 0"
| "level_rank Warning = 1"
| "level_rank Critical = 2"
| "level_rank Emergency = 3"

instantiation level :: linorder
begin

definition less_eq_level :: "level \<Rightarrow> level \<Rightarrow> bool" where
  "less_eq_level a b = (level_rank a \<le> level_rank b)"

definition less_level :: "level \<Rightarrow> level \<Rightarrow> bool" where
  "less_level a b = (level_rank a < level_rank b)"

instance
proof
  fix x y :: level
  assume "x \<le> y" "y \<le> x"
  then show "x = y" by (cases x; cases y) (simp_all add: less_eq_level_def)
qed (auto simp: less_eq_level_def less_level_def)

end

fun mode_rank :: "operating_mode \<Rightarrow> nat" where
  "mode_rank ModeNormal = 0"
| "mode_rank ModeWarning = 1"
| "mode_rank ModeCritical = 2"

instantiation operating_mode :: linorder
begin

definition less_eq_operating_mode :: "operating_mode \<Rightarrow> operating_mode \<Rightarrow> bool" where
  "less_eq_operating_mode a b = (mode_rank a \<le> mode_rank b)"

definition less_operating_mode :: "operating_mode \<Rightarrow> operating_mode \<Rightarrow> bool" where
  "less_operating_mode a b = (mode_rank a < mode_rank b)"

instance
proof
  fix x y :: operating_mode
  assume "x \<le> y" "y \<le> x"
  then show "x = y" by (cases x; cases y) (simp_all add: less_eq_operating_mode_def)
qed (auto simp: less_eq_operating_mode_def less_operating_mode_def)

end

lemmas level_order = less_eq_level_def less_level_def

lemma level_le_simps [simp]:
  "Normal \<le> l" "l \<le> Emergency" "l < Warning \<longleftrightarrow> l = Normal" "l < Emergency \<longleftrightarrow> l \<noteq> Emergency"
  "Emergency \<le> l \<longleftrightarrow> l = Emergency" "\<not> l < Normal" "\<not> Emergency < l"
  by (cases l; simp add: level_order)+

lemma level_lt_Critical [simp]: "l < Critical \<longleftrightarrow> l = Normal \<or> l = Warning"
  by (cases l) (simp_all add: level_order)

section \<open>D-Bus strings\<close>

definition level_from_dbus_str :: "string \<Rightarrow> level option" where
  "level_from_dbus_str s =
     (if s = ''normal'' then Some Normal
      else if s = ''warning'' then Some Warning
      else if s = ''critical'' then Some Critical
      else if s = ''emergency'' then Some Emergency
      else None)"

definition backend_from_dbus_str :: "string \<Rightarrow> recommended_backend option" where
  "backend_from_dbus_str s =
     (if s = ''cpu'' then Some Cpu
      else if s = ''gpu'' then Some Gpu
      else if s = ''any'' then Some Any
      else None)"

definition compute_reason_from_dbus_str :: "string \<Rightarrow> compute_reason option" where
  "compute_reason_from_dbus_str s =
     (if s = ''cpu_bottleneck'' then Some CpuBottleneck
      else if s = ''gpu_bottleneck'' then Some GpuBottleneck
      else if s = ''cpu_available'' then Some CpuAvailable
      else if s = ''gpu_available'' then Some GpuAvailable
      else if s = ''both_loaded'' then Some BothLoaded
      else if s = ''balanced'' then Some Balanced
      else None)"

definition energy_reason_from_dbus_str :: "string \<Rightarrow> energy_reason option" where
  "energy_reason_from_dbus_str s =
     (if s = ''battery_low'' then Some BatteryLow
      else if s = ''battery_critical'' then Some BatteryCritical
      else if s = ''power_limit'' then Some PowerLimit
      else if s = ''thermal_power'' then Some ThermalPower
      else if s = ''charging'' then Some Charging
      else if s = ''none'' then Some NoReason
      else None)"

fun level_to_str :: "level \<Rightarrow> string" where
  "level_to_str Normal = ''normal''"
| "level_to_str Warning = ''warning''"
| "level_to_str Critical = ''critical''"
| "level_to_str Emergency = ''emergency''"

fun backend_to_str :: "recommended_backend \<Rightarrow> string" where
  "backend_to_str Cpu = ''cpu''"
| "backend_to_str Gpu = ''gpu''"
| "backend_to_str Any = ''any''"

fun compute_reason_to_str :: "compute_reason \<Rightarrow> string" where
  "compute_reason_to_str CpuBottleneck = ''cpu_bottleneck''"
| "compute_reason_to_str GpuBottleneck = ''gpu_bottleneck''"
| "compute_reason_to_str CpuAvailable = ''cpu_available''"
| "compute_reason_to_str GpuAvailable = ''gpu_available''"
| "compute_reason_to_str BothLoaded = ''both_loaded''"
| "compute_reason_to_str Balanced = ''balanced''"

fun energy_reason_to_str :: "energy_reason \<Rightarrow> string" where
  "energy_reason_to_str BatteryLow = ''battery_low''"
| "energy_reason_to_str BatteryCritical = ''battery_critical''"
| "energy_reason_to_str PowerLimit = ''power_limit''"
| "energy_reason_to_str ThermalPower = ''thermal_power''"
| "energy_reason_to_str Charging = ''charging''"
| "energy_reason_to_str NoReason = ''none''"

text \<open>What the emitter hands to the bus: the member name and the typed body.\<close>

datatype dbus_arg = DStr string | DU64 u64 | DF64 f64 | DI32 i32 | DBool bool | DU32 u32

type_synonym dbus_message = "string \<times> dbus_arg list"

fun dbus_body :: "system_signal \<Rightarrow> dbus_message" where
  "dbus_body (MemoryPressure l a t r) =
     (''MemoryPressure'', [DStr (level_to_str l), DU64 a, DU64 t, DU64 r])"
| "dbus_body (ComputeGuidance l b r c g) =
     (''ComputeGuidance'',
      [DStr (level_to_str l), DStr (backend_to_str b), DStr (compute_reason_to_str r), DF64 c, DF64 g])"
| "dbus_body (ThermalAlert l t th r) =
     (''ThermalAlert'', [DStr (level_to_str l), DI32 t, DBool th, DF64 r])"
| "dbus_body (EnergyConstraint l r p) =
     (''EnergyConstraint'', [DStr (level_to_str l), DStr (energy_reason_to_str r), DU32 p])"

text \<open>The bus connection is a parameter: what it says about a message, and the new connection.\<close>

definition dbus_emit :: "('c \<Rightarrow> dbus_message \<Rightarrow> 'c \<times> unit res) \<Rightarrow> 'c \<Rightarrow> system_signal \<Rightarrow> 'c \<times> unit res" where
  "dbus_emit bus c s = bus c (dbus_body s)"

fun dbus_emit_initial ::
  "('c \<Rightarrow> dbus_message \<Rightarrow> 'c \<times> unit res) \<Rightarrow> 'c \<Rightarrow> system_signal list \<Rightarrow> 'c \<times> unit res" where
  "dbus_emit_initial bus c [] = (c, Inr ())"
| "dbus_emit_initial bus c (s # ss) =
     (case dbus_emit bus c s of
        (c', Inl e) \<Rightarrow> (c', Inl e)
      | (c', Inr _) \<Rightarrow> dbus_emit_initial bus c' ss)"

section \<open>The engine protocol\<close>

datatype engine_command =
    KvCompress (budget: f32)
  | RestoreDefaults
  | Suspend
  | Resume
  | GpuYield u32
  | GpuOffload bool

record engine_directive =
  seq_id :: u64
  commands :: "engine_command list"

datatype phase = PhaseIdle | PhasePrefill | PhaseDecode

datatype engine_state = EngineIdle | EngineRunning | EngineSuspended

record engine_status =
  kv_cache_bytes :: u64
  kv_cache_budget_bytes :: u64
  kv_cache_tokens :: u64
  tbt_ms :: f32
  status_phase :: phase
  status_state :: engine_state

datatype command_result = ResultOk | Partial f32 string | Rejected string

record command_response =
  resp_seq_id :: u64
  results :: "command_result list"

datatype engine_message = Heartbeat engine_status | Response command_response

datatype manager_message = Directive engine_directive

section \<open>Facts\<close>

lemma level_dbus_roundtrip: "level_from_dbus_str (level_to_str l) = Some l"
  by (cases l) (simp_all add: level_from_dbus_str_def)

lemma backend_dbus_roundtrip: "backend_from_dbus_str (backend_to_str b) = Some b"
  by (cases b) (simp_all add: backend_from_dbus_str_def)

lemma compute_reason_dbus_roundtrip: "compute_reason_from_dbus_str (compute_reason_to_str r) = Some r"
  by (cases r) (simp_all add: compute_reason_from_dbus_str_def)

lemma energy_reason_dbus_roundtrip: "energy_reason_from_dbus_str (energy_reason_to_str r) = Some r"
  by (cases r) (simp_all add: energy_reason_from_dbus_str_def)

lemma level_from_dbus_str_Some: "level_from_dbus_str s = Some l \<longleftrightarrow> s = level_to_str l"
  by (cases l) (auto simp: level_from_dbus_str_def)

lemmas dbus_roundtrips =
  level_dbus_roundtrip backend_dbus_roundtrip compute_reason_dbus_roundtrip energy_reason_dbus_roundtrip

lemma to_str_inj [simp]:
  "level_to_str l = level_to_str l' \<longleftrightarrow> l = l'"
  "backend_to_str b = backend_to_str b' \<longleftrightarrow> b = b'"
  "compute_reason_to_str r = compute_reason_to_str r' \<longleftrightarrow> r = r'"
  "energy_reason_to_str e = energy_reason_to_str e' \<longleftrightarrow> e = e'"
  by (metis dbus_roundtrips option.inject)+

lemma dbus_body_inj: "dbus_body s = dbus_body s' \<Longrightarrow> s = s'"
  by (cases s; cases s') auto

end
