(* ===== verification/Evaluator.thy ===== *)
theory Evaluator
  imports Signal
begin

text \<open>
  The hysteresis evaluator shared by the monitors (\<^verbatim>\<open>src/evaluator.rs\<close>): escalation is immediate
  and may skip levels, recovery needs the value to cross the threshold by the hysteresis
  margin.  The properties hold on the rounded thresholds the code computes.
\<close>

section \<open>Definitions\<close>

datatype direction = Ascending | Descending

record thresholds =
  warning :: f64
  critical :: f64
  emergency :: f64
  hysteresis :: f64

record threshold_evaluator =
  direction :: direction
  thresholds :: thresholds
  current :: level

definition evaluator_new :: "direction \<Rightarrow> thresholds \<Rightarrow> threshold_evaluator" where
  "evaluator_new d t = \<lparr> direction = d, thresholds = t, current = Normal \<rparr>"

definition level_ascending :: "f64 \<Rightarrow> level \<Rightarrow> f64 \<Rightarrow> f64 \<Rightarrow> f64 \<Rightarrow> f64 \<Rightarrow> level" where
  "level_ascending value cur warning_up critical_up emergency_up hyst =
     (let warning_down = sub64 warning_up hyst;
          critical_down = sub64 critical_up hyst;
          emergency_down = sub64 emergency_up hyst in
      if fp_ge value emergency_up \<and> cur < Emergency then Emergency
      else if fp_ge value critical_up \<and> cur < Critical then Critical
      else if fp_ge value warning_up \<and> cur < Warning then Warning
      else case cur of
        Emergency \<Rightarrow>
          if fp_lt value emergency_down
          then (if fp_lt value warning_down then Normal
                else if fp_lt value critical_down then Warning
                else Critical)
          else cur
      | Critical \<Rightarrow>
          if fp_lt value critical_down
          then (if fp_lt value warning_down then Normal else Warning)
          else cur
      | Warning \<Rightarrow> if fp_lt value warning_down then Normal else cur
      | _ \<Rightarrow> cur)"

definition level_descending :: "f64 \<Rightarrow> level \<Rightarrow> f64 \<Rightarrow> f64 \<Rightarrow> f64 \<Rightarrow> f64 \<Rightarrow> level" where
  "level_descending value cur warning_below critical_below emergency_below hyst =
     (let warning_up = add64 warning_below hyst;
          critical_up = add64 critical_below hyst;
          emergency_up = add64 emergency_below hyst in
      if fp_le value emergency_below \<and> cur < Emergency then Emergency
      else if fp_le value critical_below \<and> cur < Critical then Critical
      else if fp_le value warning_below \<and> cur < Warning then Warning
      else case cur of
        Emergency \<Rightarrow>
          if fp_gt value emergency_up
          then (if fp_gt value warning_up then Normal
                else if fp_gt value critical_up then Warning
                else Critical)
          else cur
      | Critical \<Rightarrow>
          if fp_gt value critical_up
          then (if fp_gt value warning_up then Normal else Warning)
          else cur
      | Warning \<Rightarrow> if fp_gt value warning_up then Normal else cur
      | _ \<Rightarrow> cur)"

definition evaluate :: "threshold_evaluator \<Rightarrow> f64 \<Rightarrow> threshold_evaluator \<times> level option" where
  "evaluate e value =
     (let t = thresholds e;
          new_level =
            (case direction e of
               Ascending \<Rightarrow>
                 level_ascending value (current e) (warning t) (critical t) (emergency t) (hysteresis t)
             | Descending \<Rightarrow>
                 level_descending value (current e) (warning t) (critical t) (emergency t) (hysteresis t))
      in if new_level \<noteq> current e then (e\<lparr>current := new_level\<rparr>, Some new_level) else (e, None))"

abbreviation evaluator_level :: "threshold_evaluator \<Rightarrow> level" where
  "evaluator_level \<equiv> current"

section \<open>What a usable configuration is, and the stateless readings of it\<close>

text \<open>Thresholds are \<^verbatim>\<open>f64\<close> values in order of severity, the margin is finite and not negative.\<close>

definition ordered_up :: "f64 \<Rightarrow> f64 \<Rightarrow> f64 \<Rightarrow> f64 \<Rightarrow> bool" where
  "ordered_up w c e h =
     (is_f64 w \<and> is_f64 c \<and> is_f64 e \<and> fp_le w c \<and> fp_le c e \<and> is_finite h \<and> fp_le (Fin 0) h)"

definition severity_up :: "f64 \<Rightarrow> f64 \<Rightarrow> f64 \<Rightarrow> f64 \<Rightarrow> level" where
  "severity_up v w c e =
     (if fp_ge v e then Emergency else if fp_ge v c then Critical
      else if fp_ge v w then Warning else Normal)"

definition well_formed :: "threshold_evaluator \<Rightarrow> bool" where
  "well_formed e =
     (let t = thresholds e in
      case direction e of
        Ascending \<Rightarrow> ordered_up (warning t) (critical t) (emergency t) (hysteresis t)
      | Descending \<Rightarrow>
          ordered_up (fp_neg (warning t)) (fp_neg (critical t)) (fp_neg (emergency t)) (hysteresis t))"

text \<open>The level a value alone gives: by the entry thresholds, and by the recovery thresholds.\<close>

definition severity :: "threshold_evaluator \<Rightarrow> f64 \<Rightarrow> level" where
  "severity e v =
     (let t = thresholds e in
      case direction e of
        Ascending \<Rightarrow> severity_up v (warning t) (critical t) (emergency t)
      | Descending \<Rightarrow>
          (if fp_le v (emergency t) then Emergency else if fp_le v (critical t) then Critical
           else if fp_le v (warning t) then Warning else Normal))"

definition recovery :: "threshold_evaluator \<Rightarrow> f64 \<Rightarrow> level" where
  "recovery e v =
     (let t = thresholds e; h = hysteresis t in
      case direction e of
        Ascending \<Rightarrow>
          severity_up v (sub64 (warning t) h) (sub64 (critical t) h) (sub64 (emergency t) h)
      | Descending \<Rightarrow>
          (if fp_le v (add64 (emergency t) h) then Emergency
           else if fp_le v (add64 (critical t) h) then Critical
           else if fp_le v (add64 (warning t) h) then Warning else Normal))"

section \<open>The contract of an evaluator\<close>

text \<open>
  What the monitors rely on: on a usable configuration an evaluation moves the level to the
  nearest level between the one the value enters and the one it has recovered to, reports
  exactly the changes, and leaves a level alone when the reading is not a number.
\<close>

locale hysteresis_evaluator =
  fixes eval :: "'e \<Rightarrow> f64 \<Rightarrow> 'e \<times> level option"
    and lvl :: "'e \<Rightarrow> level"
    and wf :: "'e \<Rightarrow> bool"
    and enter :: "'e \<Rightarrow> f64 \<Rightarrow> level"
    and recover :: "'e \<Rightarrow> f64 \<Rightarrow> level"
  assumes eval_wf: "wf e \<Longrightarrow> wf (fst (eval e v))"
    and eval_level: "wf e \<Longrightarrow> v \<noteq> NaN \<Longrightarrow> lvl (fst (eval e v)) = max (enter e v) (min (lvl e) (recover e v))"
    and eval_NaN: "lvl (fst (eval e NaN)) = lvl e"
    and eval_reports: "snd (eval e v) = (if lvl (fst (eval e v)) = lvl e then None else Some (lvl (fst (eval e v))))"
    and enter_frame: "enter (fst (eval e u)) v = enter e v"
    and recover_frame: "recover (fst (eval e u)) v = recover e v"
    and enter_le_recover: "wf e \<Longrightarrow> v \<noteq> NaN \<Longrightarrow> enter e v \<le> recover e v"
begin

lemma eval_covers: "wf e \<Longrightarrow> v \<noteq> NaN \<Longrightarrow> enter e v \<le> lvl (fst (eval e v))"
  by (simp add: eval_level)

lemma eval_bounded: "wf e \<Longrightarrow> v \<noteq> NaN \<Longrightarrow> lvl (fst (eval e v)) \<le> recover e v"
  by (simp add: eval_level enter_le_recover)

lemma eval_stable:
  assumes "wf e"
  shows "snd (eval (fst (eval e v)) v) = None"
proof (cases "v = NaN")
  case True
  then show ?thesis by (simp add: eval_reports eval_NaN)
next
  case False
  have "lvl (fst (eval (fst (eval e v)) v)) =
      max (enter e v) (min (max (enter e v) (min (lvl e) (recover e v))) (recover e v))"
    using False assms by (simp add: eval_level eval_wf enter_frame recover_frame)
  also have "\<dots> = lvl (fst (eval e v))"
    using False assms by (simp add: eval_level enter_le_recover)
  finally show ?thesis by (simp add: eval_reports)
qed

lemma eval_dead_band:
  assumes "wf e" "enter e v \<le> lvl e" "lvl e \<le> recover e v"
  shows "snd (eval e v) = None \<and> lvl (fst (eval e v)) = lvl e"
proof (cases "v = NaN")
  case True
  then show ?thesis by (simp add: eval_reports eval_NaN)
next
  case False
  then have "lvl (fst (eval e v)) = lvl e" using assms by (simp add: eval_level)
  then show ?thesis by (simp add: eval_reports)
qed

lemma run_dead_band:
  assumes "wf e" "\<forall>v\<in>set vs. enter e v \<le> lvl e \<and> lvl e \<le> recover e v"
  shows "lvl (fold (\<lambda>v x. fst (eval x v)) vs e) = lvl e"
  using assms
proof (induction vs arbitrary: e)
  case (Cons v vs)
  have same: "lvl (fst (eval e v)) = lvl e" using eval_dead_band Cons.prems by simp
  have "lvl (fold (\<lambda>v x. fst (eval x v)) vs (fst (eval e v))) = lvl (fst (eval e v))"
    using Cons.prems by (intro Cons.IH) (auto simp: eval_wf same enter_frame recover_frame)
  then show ?case by (simp add: same)
qed simp

end

section \<open>The evaluator meets the contract\<close>

lemma descending_mirrors_ascending:
  "level_descending v cur w c e h =
   level_ascending (fp_neg v) cur (fp_neg w) (fp_neg c) (fp_neg e) h"
  unfolding level_descending_def level_ascending_def Let_def sub_neg fp_le_neg fp_lt_neg ..

lemma ordered_up_facts:
  assumes "ordered_up w c e h"
  shows "fp_le (sub64 w h) w" "fp_le (sub64 c h) c" "fp_le (sub64 e h) e"
    "fp_le w c" "fp_le c e" "fp_le w e"
    "fp_le (sub64 w h) (sub64 c h)" "fp_le (sub64 c h) (sub64 e h)" "fp_le (sub64 w h) (sub64 e h)"
proof -
  from assms have le: "fp_le w c" "fp_le c e" and h: "is_finite h" by (auto simp: ordered_up_def)
  then have n: "w \<noteq> NaN" "c \<noteq> NaN" "e \<noteq> NaN" by auto
  with assms show "fp_le (sub64 w h) w" "fp_le (sub64 c h) c" "fp_le (sub64 e h) e"
    by (auto simp: ordered_up_def intro: sub64_le)
  show "fp_le w c" "fp_le c e" "fp_le w e" using le fp_le_trans by blast+
  show "fp_le (sub64 w h) (sub64 c h)" "fp_le (sub64 c h) (sub64 e h)" "fp_le (sub64 w h) (sub64 e h)"
    using le h \<open>fp_le w e\<close> by (auto intro: sub64_mono)
qed

lemma ge_not_lt: "fp_ge v t \<Longrightarrow> fp_le s t \<Longrightarrow> \<not> fp_lt v s"
  using fp_le_trans by (auto simp: fp_lt_def)

lemma ge_trans_down: "fp_le s t \<Longrightarrow> fp_ge v t \<Longrightarrow> fp_ge v s"
  by (rule fp_le_trans)

lemma level_ascending_clamps:
  assumes "ordered_up w c e h" and "v \<noteq> NaN"
  shows "level_ascending v cur w c e h =
    max (severity_up v w c e) (min cur (severity_up v (sub64 w h) (sub64 c h) (sub64 e h)))"
proof -
  note o = ordered_up_facts[OF assms(1)]
  have lt: "fp_lt v t \<longleftrightarrow> \<not> fp_ge v t" if "t \<noteq> NaN" for t
    using that assms(2) fp_not_lt[of v t] by blast
  have n: "sub64 w h \<noteq> NaN" "sub64 c h \<noteq> NaN" "sub64 e h \<noteq> NaN" using o by auto
  note imps = o[THEN ge_trans_down, of v]
  show ?thesis
    using imps by (cases cur)
      (auto simp: severity_up_def level_ascending_def Let_def level_order max_def min_def lt n)
qed

lemma severity_up_mono:
  assumes "ordered_up w c e h"
  shows "severity_up v w c e \<le> severity_up v (sub64 w h) (sub64 c h) (sub64 e h)"
  using ordered_up_facts[OF assms, THEN ge_trans_down, of v]
  by (auto simp: severity_up_def level_order)

lemma severity_cases:
  "direction e = Ascending \<Longrightarrow>
     severity e v = severity_up v (warning (thresholds e)) (critical (thresholds e)) (emergency (thresholds e))"
  "direction e = Descending \<Longrightarrow>
     severity e v = severity_up (fp_neg v) (fp_neg (warning (thresholds e)))
       (fp_neg (critical (thresholds e))) (fp_neg (emergency (thresholds e)))"
  "direction e = Ascending \<Longrightarrow>
     recovery e v = severity_up v (sub64 (warning (thresholds e)) (hysteresis (thresholds e)))
       (sub64 (critical (thresholds e)) (hysteresis (thresholds e)))
       (sub64 (emergency (thresholds e)) (hysteresis (thresholds e)))"
  "direction e = Descending \<Longrightarrow>
     recovery e v = severity_up (fp_neg v)
       (sub64 (fp_neg (warning (thresholds e))) (hysteresis (thresholds e)))
       (sub64 (fp_neg (critical (thresholds e))) (hysteresis (thresholds e)))
       (sub64 (fp_neg (emergency (thresholds e))) (hysteresis (thresholds e)))"
  by (simp_all add: severity_def recovery_def severity_up_def Let_def sub_neg)

lemma evaluate_frame [simp]:
  "thresholds (fst (evaluate e v)) = thresholds e" "direction (fst (evaluate e v)) = direction e"
  by (simp_all add: evaluate_def Let_def)

lemma evaluate_level:
  assumes "well_formed e" and "v \<noteq> NaN"
  shows "current (fst (evaluate e v)) = max (severity e v) (min (current e) (recovery e v))"
proof (cases "direction e")
  case Ascending
  then show ?thesis
    using assms by (simp add: evaluate_def Let_def severity_cases well_formed_def level_ascending_clamps)
next
  case Descending
  then show ?thesis
    using assms by (simp add: evaluate_def Let_def severity_cases well_formed_def
        descending_mirrors_ascending level_ascending_clamps)
qed

lemma level_ascending_NaN: "level_ascending NaN cur w c e h = cur"
  by (cases cur) (simp_all add: level_ascending_def)

interpretation hev: hysteresis_evaluator evaluate current well_formed severity recovery
proof
  fix e :: threshold_evaluator and u v :: f64
  show "well_formed e \<Longrightarrow> well_formed (fst (evaluate e v))" by (simp add: well_formed_def)
  show "well_formed e \<Longrightarrow> v \<noteq> NaN \<Longrightarrow>
    current (fst (evaluate e v)) = max (severity e v) (min (current e) (recovery e v))"
    by (rule evaluate_level)
  show "current (fst (evaluate e NaN)) = current e"
    by (cases "direction e")
      (simp_all add: evaluate_def Let_def descending_mirrors_ascending level_ascending_NaN)
  show "snd (evaluate e v) =
    (if current (fst (evaluate e v)) = current e then None else Some (current (fst (evaluate e v))))"
    by (simp add: evaluate_def Let_def)
  show "severity (fst (evaluate e u)) v = severity e v" by (simp add: severity_def)
  show "recovery (fst (evaluate e u)) v = recovery e v" by (simp add: recovery_def)
  show "well_formed e \<Longrightarrow> v \<noteq> NaN \<Longrightarrow> severity e v \<le> recovery e v"
    by (cases "direction e") (auto simp: well_formed_def Let_def severity_cases intro: severity_up_mono)
qed

section \<open>Properties\<close>

text \<open>C2: On ordered thresholds and a reading that is a number, the branches of the evaluator
  compute the level closest to the current one between the level whose entry threshold the
  reading has reached and the level whose recovery threshold it has not yet left, in both
  directions and on the rounded recovery thresholds.\<close>

theorem evaluate_clamps_level:
  assumes "well_formed e" and "v \<noteq> NaN"
  shows "current (fst (evaluate e v)) = max (severity e v) (min (current e) (recovery e v))"
  using assms by (rule evaluate_level)

theorem evaluate_clamps_level_witness:
  "current (fst (evaluate (evaluator_new Descending
      \<lparr>warning = Fin 40, critical = Fin 20, emergency = Fin 10, hysteresis = Fin 5\<rparr>) (Fin 15))) = Critical"
proof -
  define e where "e = evaluator_new Descending
      \<lparr>warning = Fin 40, critical = Fin 20, emergency = Fin 10, hysteresis = Fin 5\<rparr>"
  have w: "well_formed e"
    using to_f64_int[of "-40"] to_f64_int[of "-20"] to_f64_int[of "-10"]
    by (simp add: e_def evaluator_new_def well_formed_def ordered_up_def Let_def)
  have "severity e (Fin 15) = Critical"
    by (simp add: e_def evaluator_new_def severity_def Let_def)
  then show ?thesis
    using evaluate_clamps_level[OF w, of "Fin 15"] by (simp add: e_def evaluator_new_def)
qed


text \<open>Evaluating the same reading a second time never reports a change: a signal that sits
  still, on a threshold or off it, cannot make the level oscillate.\<close>

lemma evaluate_idempotent:
  assumes "well_formed e"
  shows "snd (evaluate (fst (evaluate e v)) v) = None"
  using assms by (rule hev.eval_stable)

theorem evaluate_idempotent_witness:
  "snd (evaluate (fst (evaluate (evaluator_new Ascending
      \<lparr>warning = Fin 70, critical = Fin 90, emergency = f64_max, hysteresis = Fin 5\<rparr>) (Fin 70))) (Fin 70)) = None"
  by (rule evaluate_idempotent)
    (use is_f64_max le_f64_max[of 90] to_f64_int[of 70] to_f64_int[of 90] in
      \<open>simp add: well_formed_def evaluator_new_def ordered_up_def\<close>)

text \<open>Any sequence of readings inside the dead band of the current level (past its entry
  threshold is allowed, past its recovery threshold is not, and below the entry threshold of
  the next level) leaves the level where it is.\<close>

lemma evaluate_dead_band_run:
  assumes "well_formed e"
    and "\<forall>v\<in>set vs. severity e v \<le> current e \<and> current e \<le> recovery e v"
  shows "current (fold (\<lambda>v x. fst (evaluate x v)) vs e) = current e"
  using assms by (rule hev.run_dead_band)

theorem evaluate_dead_band_run_witness:
  "current (fold (\<lambda>v x. fst (evaluate x v)) [Fin 42, Fin 45, Fin 38]
     \<lparr>direction = Descending,
      thresholds = \<lparr>warning = Fin 40, critical = Fin 20, emergency = Fin 10, hysteresis = Fin 5\<rparr>,
      current = Warning\<rparr>) = Warning"
proof -
  let ?e = "\<lparr>direction = Descending,
      thresholds = \<lparr>warning = Fin 40, critical = Fin 20, emergency = Fin 10, hysteresis = Fin 5\<rparr>,
      current = Warning\<rparr>"
  have w: "well_formed ?e"
    using to_f64_int[of "-40"] to_f64_int[of "-20"] to_f64_int[of "-10"]
    by (simp add: well_formed_def ordered_up_def)
  have b: "\<forall>v\<in>set [Fin 42, Fin 45, Fin 38]. severity ?e v \<le> current ?e \<and> current ?e \<le> recovery ?e v"
    using to_f64_int[of 45] to_f64_int[of 25] to_f64_int[of 15]
    by (simp add: severity_def recovery_def level_order)
  show ?thesis using evaluate_dead_band_run[OF w b] by simp
qed

end
