(* ===== verification/Config.thy ===== *)
theory Config
  imports Signal
begin

text \<open>
  The configuration records and their defaults (\<^verbatim>\<open>src/config.rs\<close>).  Reading TOML is the work of
  the \<^verbatim>\<open>toml\<close> crate and is not modelled: a loaded configuration is any value of these records.
\<close>

record manager_config =
  poll_interval_ms :: u64

definition manager_config_default :: manager_config where
  "manager_config_default = \<lparr> poll_interval_ms = 1000 \<rparr>"

record memory_monitor_config =
  mem_enabled :: bool
  mem_poll_interval_ms :: "u64 option"
  mem_warning_pct :: f64
  mem_critical_pct :: f64
  mem_emergency_pct :: f64
  mem_hysteresis_pct :: f64

definition memory_monitor_config_default :: memory_monitor_config where
  "memory_monitor_config_default =
     \<lparr> mem_enabled = True, mem_poll_interval_ms = None, mem_warning_pct = Fin 40,
       mem_critical_pct = Fin 20, mem_emergency_pct = Fin 10, mem_hysteresis_pct = Fin 5 \<rparr>"

record thermal_monitor_config =
  th_enabled :: bool
  th_poll_interval_ms :: "u64 option"
  zone_types :: "string list"
  warning_mc :: i32
  critical_mc :: i32
  emergency_mc :: i32
  hysteresis_mc :: i32

definition thermal_monitor_config_default :: thermal_monitor_config where
  "thermal_monitor_config_default =
     \<lparr> th_enabled = True, th_poll_interval_ms = None, zone_types = [], warning_mc = 60000,
       critical_mc = 75000, emergency_mc = 85000, hysteresis_mc = 5000 \<rparr>"

datatype gpu_backend =
    Auto
  | Null
  | Sysfs
  | CustomSysfs string
  | Jetson
  | JetsonExplicit string "string option"

record compute_monitor_config =
  cpu_enabled :: bool
  cpu_poll_interval_ms :: "u64 option"
  cpu_warning_pct :: f64
  cpu_critical_pct :: f64
  cpu_hysteresis_pct :: f64
  gpu_sysfs_path :: "string option"
  gpu_backend :: gpu_backend

definition compute_monitor_config_default :: compute_monitor_config where
  "compute_monitor_config_default =
     \<lparr> cpu_enabled = True, cpu_poll_interval_ms = None, cpu_warning_pct = Fin 70,
       cpu_critical_pct = Fin 90, cpu_hysteresis_pct = Fin 5, gpu_sysfs_path = None,
       gpu_backend = Auto \<rparr>"

record energy_monitor_config =
  en_enabled :: bool
  en_poll_interval_ms :: "u64 option"
  en_warning_pct :: f64
  en_critical_pct :: f64
  en_emergency_pct :: f64
  warning_power_budget_mw :: u32
  critical_power_budget_mw :: u32
  emergency_power_budget_mw :: u32
  ignore_when_charging :: bool

definition energy_monitor_config_default :: energy_monitor_config where
  "energy_monitor_config_default =
     \<lparr> en_enabled = True, en_poll_interval_ms = None, en_warning_pct = Fin 30,
       en_critical_pct = Fin 15, en_emergency_pct = Fin 5, warning_power_budget_mw = 3000,
       critical_power_budget_mw = 1500, emergency_power_budget_mw = 500,
       ignore_when_charging = True \<rparr>"

record external_monitor_config =
  ext_enabled :: bool
  ext_transport :: string

definition external_monitor_config_default :: external_monitor_config where
  "external_monitor_config_default = \<lparr> ext_enabled = False, ext_transport = ''stdin'' \<rparr>"

record trigger_config =
  tbt_enter :: f64
  tbt_exit :: f64
  tbt_warmup_tokens :: u32
  mem_enter :: f64
  mem_exit :: f64
  temp_enter :: f64
  temp_exit :: f64

definition trigger_config_default :: trigger_config where
  "trigger_config_default =
     \<lparr> tbt_enter = to_f64 (30/100), tbt_exit = to_f64 (10/100), tbt_warmup_tokens = 20,
       mem_enter = to_f64 (80/100), mem_exit = to_f64 (60/100), temp_enter = to_f64 (70/100),
       temp_exit = to_f64 (50/100) \<rparr>"

record adaptation_config =
  temp_safe_c :: f32
  temp_critical_c :: f32
  trigger_cfg :: trigger_config
  dedup_cooldown_secs :: f64

definition adaptation_config_default :: adaptation_config where
  "adaptation_config_default =
     \<lparr> temp_safe_c = Fin 35, temp_critical_c = Fin 50, trigger_cfg = trigger_config_default,
       dedup_cooldown_secs = Fin 60 \<rparr>"

text \<open>The defaults of single fields, and a section read from a file that gives only some of them.\<close>

definition default_temp_safe :: f32 where "default_temp_safe = Fin 35"
definition default_temp_critical :: f32 where "default_temp_critical = Fin 50"
definition default_tbt_enter :: f64 where "default_tbt_enter = to_f64 (30/100)"
definition default_tbt_exit :: f64 where "default_tbt_exit = to_f64 (10/100)"
definition default_tbt_warmup :: u32 where "default_tbt_warmup = 20"
definition default_mem_enter :: f64 where "default_mem_enter = to_f64 (80/100)"
definition default_mem_exit :: f64 where "default_mem_exit = to_f64 (60/100)"
definition default_temp_enter :: f64 where "default_temp_enter = to_f64 (70/100)"
definition default_temp_exit :: f64 where "default_temp_exit = to_f64 (50/100)"
definition default_dedup_cooldown_secs :: f64 where "default_dedup_cooldown_secs = Fin 60"

definition given_or :: "'a option \<Rightarrow> 'a \<Rightarrow> 'a" where
  "given_or v d = (case v of Some x \<Rightarrow> x | None \<Rightarrow> d)"

record trigger_section =
  sec_tbt_enter :: "f64 option"
  sec_tbt_exit :: "f64 option"
  sec_tbt_warmup_tokens :: "u32 option"
  sec_mem_enter :: "f64 option"
  sec_mem_exit :: "f64 option"
  sec_temp_enter :: "f64 option"
  sec_temp_exit :: "f64 option"

definition trigger_config_of :: "trigger_section \<Rightarrow> trigger_config" where
  "trigger_config_of t =
     \<lparr> tbt_enter = given_or (sec_tbt_enter t) default_tbt_enter, tbt_exit = given_or (sec_tbt_exit t) default_tbt_exit,
       tbt_warmup_tokens = given_or (sec_tbt_warmup_tokens t) default_tbt_warmup,
       mem_enter = given_or (sec_mem_enter t) default_mem_enter, mem_exit = given_or (sec_mem_exit t) default_mem_exit,
       temp_enter = given_or (sec_temp_enter t) default_temp_enter,
       temp_exit = given_or (sec_temp_exit t) default_temp_exit \<rparr>"

record adaptation_section =
  sec_temp_safe_c :: "f32 option"
  sec_temp_critical_c :: "f32 option"
  sec_trigger :: "trigger_section option"
  sec_dedup_cooldown_secs :: "f64 option"

definition adaptation_config_of :: "adaptation_section \<Rightarrow> adaptation_config" where
  "adaptation_config_of a =
     \<lparr> temp_safe_c = given_or (sec_temp_safe_c a) default_temp_safe,
       temp_critical_c = given_or (sec_temp_critical_c a) default_temp_critical,
       trigger_cfg = (case sec_trigger a of None \<Rightarrow> trigger_config_default | Some t \<Rightarrow> trigger_config_of t),
       dedup_cooldown_secs = given_or (sec_dedup_cooldown_secs a) default_dedup_cooldown_secs \<rparr>"

text \<open>An empty section is the default, with or without an empty table of triggers in it.\<close>

lemma empty_sections_default:
  assumes "sec_tbt_enter t = None" "sec_tbt_exit t = None" "sec_tbt_warmup_tokens t = None" "sec_mem_enter t = None"
    "sec_mem_exit t = None" "sec_temp_enter t = None" "sec_temp_exit t = None"
    and "sec_temp_safe_c a = None" "sec_temp_critical_c a = None" "sec_dedup_cooldown_secs a = None"
    and "sec_trigger a = None \<or> sec_trigger a = Some t"
  shows "trigger_config_of t = trigger_config_default" and "adaptation_config_of a = adaptation_config_default"
proof -
  show t: "trigger_config_of t = trigger_config_default"
    using assms(1-7) by (simp add: trigger_config_of_def trigger_config_default_def given_or_def
      default_tbt_enter_def default_tbt_exit_def default_tbt_warmup_def default_mem_enter_def default_mem_exit_def
      default_temp_enter_def default_temp_exit_def)
  show "adaptation_config_of a = adaptation_config_default"
    using assms(8-11) t by (auto simp: adaptation_config_of_def adaptation_config_default_def given_or_def
      default_temp_safe_def default_temp_critical_def default_dedup_cooldown_secs_def)
qed

record config =
  cfg_manager :: manager_config
  cfg_memory :: "memory_monitor_config option"
  cfg_thermal :: "thermal_monitor_config option"
  cfg_compute :: "compute_monitor_config option"
  cfg_energy :: "energy_monitor_config option"
  cfg_external :: "external_monitor_config option"
  cfg_adaptation :: adaptation_config

definition config_default :: config where
  "config_default =
     \<lparr> cfg_manager = manager_config_default, cfg_memory = None, cfg_thermal = None,
       cfg_compute = None, cfg_energy = None, cfg_external = None,
       cfg_adaptation = adaptation_config_default \<rparr>"

end
