(* ===== verification/Monitor_Base.thy ===== *)
theory Monitor_Base
  imports Evaluator Config
begin

text \<open>
  The \<^verbatim>\<open>Monitor\<close> trait (\<^verbatim>\<open>src/monitor.rs\<close>) and the polling loop that the four sensor monitors share.
  The file system a poll sees is a value: what is readable, what exists, what a directory
  lists.  A run is driven by the sequence of circumstances of its iterations.
\<close>

record file_system =
  read_to_string :: "string \<Rightarrow> string option"
  path_exists :: "string \<Rightarrow> bool"
  read_dir :: "string \<Rightarrow> string list option"

text \<open>One iteration: the shutdown flag it reads, what the poll sees of the outside world (the files
  for most monitors), whether the receiver of the channel is still alive.\<close>

record 'e tick =
  shutdown :: bool
  env :: 'e
  receiver_alive :: bool

text \<open>The loop: stop at the shutdown flag; poll; send what the poll built, and stop when the
  receiver is gone.  The result holds the signals the receiver got.\<close>

fun poll_loop ::
  "('e \<Rightarrow> 'm \<Rightarrow> 'm \<times> system_signal option) \<Rightarrow> 'm \<Rightarrow> 'e tick list \<Rightarrow> 'm \<times> system_signal list" where
  "poll_loop poll m [] = (m, [])"
| "poll_loop poll m (t # ts) =
     (if shutdown t then (m, [])
      else case poll (env t) m of
        (m', None) \<Rightarrow> poll_loop poll m' ts
      | (m', Some s) \<Rightarrow>
          if \<not> receiver_alive t then (m', [])
          else apsnd ((#) s) (poll_loop poll m' ts))"

text \<open>
  The contract of a sensor monitor: an invariant that polling keeps, the signal it sends is
  the one its state describes, and a state that has just been polled is fresh: its level
  reflects the readings it holds.  Every signal of a run is then the rendering of a fresh
  state that satisfies the invariant.
\<close>

locale sensor_monitor =
  fixes poll :: "'e \<Rightarrow> 'm \<Rightarrow> 'm \<times> system_signal option"
    and render :: "'m \<Rightarrow> system_signal"
    and inv :: "'m \<Rightarrow> bool"
    and fresh :: "'m \<Rightarrow> bool"
  assumes poll_inv: "inv m \<Longrightarrow> inv (fst (poll fs m))"
    and poll_renders: "snd (poll fs m) = Some s \<Longrightarrow> s = render (fst (poll fs m))"
    and poll_fresh: "inv m \<Longrightarrow> snd (poll fs m) = Some s \<Longrightarrow> fresh (fst (poll fs m))"
begin

lemma run_inv: "inv m \<Longrightarrow> inv (fst (poll_loop poll m ts))"
proof (induction ts arbitrary: m)
  case (Cons t ts)
  have "inv (fst (poll (env t) m))" using Cons.prems by (rule poll_inv)
  then show ?case using Cons by (auto split: prod.splits option.splits)
qed simp

lemma run_signals:
  assumes "inv m" and "s \<in> set (snd (poll_loop poll m ts))"
  shows "\<exists>m'. inv m' \<and> fresh m' \<and> s = render m'"
  using assms
proof (induction ts arbitrary: m)
  case (Cons t ts)
  obtain m' o' where p: "poll (env t) m = (m', o')" by (cases "poll (env t) m")
  have inv: "inv m'" using poll_inv[OF Cons.prems(1), of "env t"] p by simp
  show ?case
  proof (cases o')
    case None
    then show ?thesis using Cons p inv by (auto split: if_splits)
  next
    case (Some s')
    then have "s' = render m'" "fresh m'"
      using poll_renders[of "env t" m s'] poll_fresh[OF Cons.prems(1), of "env t" s'] p by simp_all
    then show ?thesis using Cons p inv Some by (auto split: if_splits prod.splits)
  qed
qed simp

lemma run_length: "length (snd (poll_loop poll m ts)) \<le> length ts"
proof (induction ts arbitrary: m)
  case (Cons t ts)
  then show ?case by (auto simp: le_SucI split: prod.splits option.splits)
qed simp

end

end
