(* ===== verification/Memory_Monitor.thy ===== *)
theory Memory_Monitor
  imports Monitor_Base
begin

text \<open>
  The memory monitor (\<^verbatim>\<open>src/monitor/memory.rs\<close>): reading \<^verbatim>\<open>/proc/meminfo\<close>, the hysteresis evaluation
  of the available percentage, and the signal with its reclaim target.  Integer arithmetic is
  that of a release build (\<^verbatim>\<open>* 1024\<close> wraps).
\<close>

section \<open>Definitions\<close>

definition memory_level_from_available_pct :: "f64 \<Rightarrow> level" where
  "memory_level_from_available_pct available_pct =
     (let cfg = memory_monitor_config_default in
      if fp_le available_pct (mem_emergency_pct cfg) then Emergency
      else if fp_le available_pct (mem_critical_pct cfg) then Critical
      else if fp_le available_pct (mem_warning_pct cfg) then Warning
      else Normal)"

record memory_monitor =
  mm_poll_interval_ms :: u64
  mm_evaluator :: threshold_evaluator
  meminfo_path :: string
  psi_path :: string
  last_total :: u64
  last_available :: u64

definition memory_monitor_new :: "memory_monitor_config \<Rightarrow> u64 \<Rightarrow> memory_monitor" where
  "memory_monitor_new cfg default_poll_ms =
     \<lparr> mm_poll_interval_ms = (case mem_poll_interval_ms cfg of Some p \<Rightarrow> p | None \<Rightarrow> default_poll_ms),
       mm_evaluator = evaluator_new Descending
         \<lparr> warning = mem_warning_pct cfg, critical = mem_critical_pct cfg,
           emergency = mem_emergency_pct cfg, hysteresis = mem_hysteresis_pct cfg \<rparr>,
       meminfo_path = ''/proc/meminfo'', psi_path = ''/proc/pressure/memory'',
       last_total = 0, last_available = 0 \<rparr>"

text \<open>The reclaim target for a level: a share of the total, truncated.\<close>

definition reclaim_share :: "level \<Rightarrow> u64 \<Rightarrow> u64" where
  "reclaim_share l tot =
     (case l of
        Normal \<Rightarrow> 0
      | Warning \<Rightarrow> u64_of_f64 (mul64 (f64_of_u64 tot) (to_f64 (5/100)))
      | Critical \<Rightarrow> u64_of_f64 (mul64 (f64_of_u64 tot) (to_f64 (10/100)))
      | Emergency \<Rightarrow> u64_of_f64 (mul64 (f64_of_u64 tot) (to_f64 (20/100))))"

definition memory_build_signal :: "memory_monitor \<Rightarrow> system_signal" where
  "memory_build_signal m =
     MemoryPressure (current (mm_evaluator m)) (last_available m) (last_total m)
       (reclaim_share (current (mm_evaluator m)) (last_total m))"

definition parse_kb_value :: "string \<Rightarrow> u64 res" where
  "parse_kb_value s =
     (case parse_u64 (trim (trim_end_matches ''kB'' (trim s))) of
        None \<Rightarrow> Inl ''invalid integer''
      | Some n \<Rightarrow> Inr n)"

fun scan_meminfo :: "string list \<Rightarrow> u64 option \<Rightarrow> u64 option \<Rightarrow> (u64 option \<times> u64 option) res" where
  "scan_meminfo [] t a = Inr (t, a)"
| "scan_meminfo (l # ls) t a =
     (case (case strip_prefix ''MemTotal:'' l of
              Some val \<Rightarrow> map_sum id (\<lambda>n. (Some n, a)) (parse_kb_value val)
            | None \<Rightarrow>
                (case strip_prefix ''MemAvailable:'' l of
                   Some val \<Rightarrow> map_sum id (\<lambda>n. (t, Some n)) (parse_kb_value val)
                 | None \<Rightarrow> Inr (t, a))) of
        Inl e \<Rightarrow> Inl e
      | Inr (t', a') \<Rightarrow> if t' \<noteq> None \<and> a' \<noteq> None then Inr (t', a') else scan_meminfo ls t' a')"

definition parse_meminfo :: "file_system \<Rightarrow> string \<Rightarrow> (u64 \<times> u64) res" where
  "parse_meminfo fs path =
     (case read_to_string fs path of
        None \<Rightarrow> Inl ''read failed''
      | Some content \<Rightarrow>
          (case scan_meminfo (str_lines content) None None of
             Inl e \<Rightarrow> Inl e
           | Inr (None, _) \<Rightarrow> Inl ''MemTotal not found''
           | Inr (Some _, None) \<Rightarrow> Inl ''MemAvailable not found''
           | Inr (Some tot, Some available) \<Rightarrow> Inr (tot * 1024, available * 1024)))"

definition available_pct :: "u64 \<Rightarrow> u64 \<Rightarrow> f64" where
  "available_pct tot available =
     (if tot = 0 then Fin 100
      else mul64 (div64 (f64_of_u64 available) (f64_of_u64 tot)) (Fin 100))"

definition memory_poll :: "file_system \<Rightarrow> memory_monitor \<Rightarrow> memory_monitor \<times> system_signal option" where
  "memory_poll fs m =
     (case parse_meminfo fs (meminfo_path m) of
        Inl e \<Rightarrow> (m, None)
      | Inr (tot, available) \<Rightarrow>
          (let m1 = m\<lparr>last_total := tot, last_available := available\<rparr>;
               m2 = m1\<lparr>mm_evaluator := fst (evaluate (mm_evaluator m1) (available_pct tot available))\<rparr>
           in (m2, Some (memory_build_signal m2))))"

definition memory_run :: "memory_monitor \<Rightarrow> file_system tick list \<Rightarrow> memory_monitor \<times> system_signal list" where
  "memory_run = poll_loop memory_poll"

definition memory_initial_signal :: "memory_monitor \<Rightarrow> system_signal option" where
  "memory_initial_signal m = Some (memory_build_signal m)"

section \<open>The monitor meets the contract\<close>

definition memory_inv :: "thresholds \<Rightarrow> memory_monitor \<Rightarrow> bool" where
  "memory_inv T m =
     (well_formed (mm_evaluator m) \<and> direction (mm_evaluator m) = Descending \<and>
      thresholds (mm_evaluator m) = T)"

definition memory_fresh :: "memory_monitor \<Rightarrow> bool" where
  "memory_fresh m =
     (let v = available_pct (last_total m) (last_available m) in
      severity (mm_evaluator m) v \<le> current (mm_evaluator m) \<and>
      current (mm_evaluator m) \<le> recovery (mm_evaluator m) v)"

lemma available_pct_not_NaN: "available_pct t a \<noteq> NaN"
proof (cases "t = 0")
  case False
  then obtain r where r: "r > 0" "f64_of_u64 t = Fin r" using f64_of_u64_pos by blast
  obtain q where q: "f64_of_u64 a = Fin q" using f64_of_u64_nonneg by blast
  have "mul64 d (Fin 100) \<noteq> NaN" if "d \<noteq> NaN" for d
    using that by (cases d) (auto simp: inf_sgn_def)
  moreover have "div64 (Fin q) (Fin r) \<noteq> NaN" using r(1) by simp
  ultimately show ?thesis using False by (simp add: available_pct_def r q)
qed (simp add: available_pct_def)

interpretation mem: sensor_monitor memory_poll memory_build_signal "memory_inv T" memory_fresh
  for T
proof
  fix m :: memory_monitor and fs :: file_system and s :: system_signal
  show "memory_inv T m \<Longrightarrow> memory_inv T (fst (memory_poll fs m))"
    by (auto simp: memory_inv_def memory_poll_def Let_def hev.eval_wf split: sum.splits prod.splits)
  show "snd (memory_poll fs m) = Some s \<Longrightarrow> s = memory_build_signal (fst (memory_poll fs m))"
    by (auto simp: memory_poll_def Let_def split: sum.splits prod.splits)
  show "memory_inv T m \<Longrightarrow> snd (memory_poll fs m) = Some s \<Longrightarrow> memory_fresh (fst (memory_poll fs m))"
    by (auto simp: memory_inv_def memory_fresh_def memory_poll_def Let_def available_pct_not_NaN
        hev.eval_covers hev.eval_bounded hev.enter_frame hev.recover_frame
        split: sum.splits prod.splits)
qed

section \<open>Parsing\<close>

lemma trim_trailing_ws:
  assumes "s \<noteq> []" "\<not> is_ws (hd s)" "\<not> is_ws (last s)" "list_all is_ws w" "list_all is_ws w'"
  shows "trim (w @ s @ w') = s"
proof -
  have "dropWhile is_ws (rev w' @ rev s) = dropWhile is_ws (rev s)"
    using assms(5) by (induction w' rule: rev_induct) auto
  then have "trim_end (s @ w') = trim_end s" by (simp add: trim_end_def)
  moreover have "trim_start (s @ w') = s @ w'" using assms(1,2) by (cases s) (simp_all add: trim_start_def)
  moreover have "trim_start s = s" using assms(1,2) by (cases s) (simp_all add: trim_start_def)
  ultimately have "trim (s @ w') = trim s" by (simp add: trim_def)
  then show ?thesis using trim_ws_left[OF assms(4), of "s @ w'"] trim_ends_id[OF assms(1-3)] by simp
qed

lemma show_nat_ends: "show_nat n \<noteq> []" "\<not> is_ws (hd (show_nat n))" "\<not> is_ws (last (show_nat n))"
  "last (show_nat n) \<noteq> CHR ''B''" "CHR 0x0A \<notin> set (show_nat n)"
proof -
  have d: "show_nat n \<noteq> []" "\<And>c. c \<in> set (show_nat n) \<Longrightarrow> is_digit c"
    using show_nat_digits[of n] by (auto simp: list_all_iff)
  show "show_nat n \<noteq> []" by fact
  show "\<not> is_ws (hd (show_nat n))" "\<not> is_ws (last (show_nat n))" using d by (metis digit_not_ws hd_in_set last_in_set)+
  have "is_digit (last (show_nat n))" using d by simp
  then show "last (show_nat n) \<noteq> CHR ''B''" by (auto simp: is_digit_def)
  show "CHR 0x0A \<notin> set (show_nat n)" using d(2)[of "CHR 0x0A"] by (auto simp: is_digit_def)
qed

lemma trim_end_kB:
  assumes "s \<noteq> []" "last s \<noteq> CHR ''B''"
  shows "trim_end_matches ''kB'' (s @ '' kB'') = s @ '' ''"
proof -
  have "trim_end_matches ''kB'' (s @ '' kB'') = trim_end_matches ''kB'' (s @ '' '')"
    by (subst trim_end_matches.simps) (simp add: strip_suffix_def)
  also have "\<dots> = s @ '' ''" by (subst trim_end_matches.simps) (simp add: strip_suffix_def)
  finally show ?thesis .
qed

lemma parse_kb_value_kernel_line:
  assumes "list_all is_ws w"
  shows "parse_kb_value (w @ show_nat (unat n) @ '' kB'') = Inr n"
proof -
  note e = show_nat_ends[of "unat n"]
  have "trim (w @ (show_nat (unat n) @ '' kB'') @ []) = show_nat (unat n) @ '' kB''"
    by (rule trim_trailing_ws) (use assms e in \<open>auto simp: is_ws_def\<close>)
  moreover have "trim ([] @ show_nat (unat n) @ '' '') = show_nat (unat n)"
    by (rule trim_trailing_ws) (use e in \<open>auto simp: is_ws_def\<close>)
  ultimately show ?thesis using e by (simp add: parse_kb_value_def trim_end_kB)
qed


section \<open>The reclaim target\<close>

lemma share_le:
  assumes "0 \<le> q" and "rnd64 q \<le> 1/4" and "1/100 \<le> rnd64 q" and "\<bar>q\<bar> \<le> 1"
  shows "u64_of_f64 (mul64 (f64_of_u64 t) (to_f64 q)) \<le> t"
proof (cases "t = 0")
  case True
  then show ?thesis by (simp add: f64_of_u64_def u64_of_f64_def to_f64_finite order_trans[OF assms(4)] trunc_def)
next
  case False
  define n where "n = uint t"
  have n: "1 \<le> n" "n < 2 ^ 64"
    using False uint_u64[of t] by (auto simp: n_def uint_0_iff order_less_le int_one_le_iff_zero_less)
  define r where "r = rnd64 (of_int n)"
  have t: "f64_of_u64 t = Fin r" by (simp only: r_def n_def f64_of_u64_Fin)
  have big: "2 powi (-1074) \<le> (of_int n :: rat)" using n(1) tiny_le_one by (auto intro: order_trans)
  have r2: "r \<le> 2 * of_int n" unfolding r_def using big by (rule rnd_le_double) simp
  have r1: "1 \<le> r"
    unfolding r_def using n(1) repr_int[of 1 53 "-1074"] by (intro rnd_ge_repr) simp_all
  have q: "to_f64 q = Fin (rnd64 q)" using assms(4) by (intro to_f64_finite) simp
  define m where "m = r * rnd64 q"
  have m0: "1/100 \<le> m" unfolding m_def using mult_mono[of 1 r "1/100" "rnd64 q"] r1 assms(3) by simp
  have m1: "m \<le> of_int n / 2"
    unfolding m_def using mult_mono[of r "2 * of_int n" "rnd64 q" "1/4"] r1 r2 assms(2,3) by simp
  have "(2::rat) powi (-1074) \<le> 2 powi (-7)" by (simp only: powi_le_iff)
  also have "\<dots> \<le> m" using m0 by simp
  finally have "rnd64 m \<le> 2 * m" by (rule rnd_le_double) simp
  then have mn: "rnd64 m \<le> of_int n" using m1 by simp
  have m64: "\<bar>m\<bar> \<le> 2 ^ 100"
  proof -
    have "\<bar>m\<bar> \<le> of_int (2 ^ 64)" using m0 m1 n(2) by (simp add: abs_if)
    also have "\<dots> \<le> 2 ^ 100" by simp
    finally show ?thesis .
  qed
  have "trunc (rnd64 m) \<le> n" using mn rnd_nonneg[of m] m0 by (simp add: trunc_def floor_le_iff)
  then have "uint (u64_of_f64 (mul64 (f64_of_u64 t) (to_f64 q))) \<le> uint t"
    using n by (simp add: uint_u64_of_f64 t q m_def [symmetric] to_f64_finite[OF m64] n_def [symmetric])
  then show ?thesis by (simp add: word_le_def)
qed

lemma reclaim_share_le: "reclaim_share l t \<le> t"
proof -
  have q: "repr64 (1/4)" unfolding repr_fmt_def by (intro exI[of _ 1] exI[of _ "-2"]) simp
  have h: "repr64 (1/64)" unfolding repr_fmt_def by (intro exI[of _ 1] exI[of _ "-6"]) simp
  have "u64_of_f64 (mul64 (f64_of_u64 t) (to_f64 x)) \<le> t" if "1/64 \<le> x" "x \<le> 1/4" for x
  proof (rule share_le)
    show "rnd64 x \<le> 1/4" using q that by (intro rnd_le_repr) simp_all
    have "1/64 \<le> rnd64 x" using h that by (intro rnd_ge_repr) simp_all
    then show "1/100 \<le> rnd64 x" by simp
  qed (use that in auto)
  from this[of "5/100"] this[of "10/100"] this[of "20/100"] show ?thesis
    by (cases l) (simp_all add: reclaim_share_def)
qed


section \<open>Properties\<close>

lemma scan_meminfo_skip:
  "list_all (\<lambda>l. strip_prefix ''MemTotal:'' l = None \<and> strip_prefix ''MemAvailable:'' l = None) mids
   \<Longrightarrow> t = None \<or> a = None \<Longrightarrow> scan_meminfo (mids @ ls) t a = scan_meminfo ls t a"
  by (induction mids) auto

lemma str_lines_block:
  "list_all (\<lambda>l. CHR 0x0A \<notin> set l \<and> strip_cr l = l) ls \<Longrightarrow>
   str_lines (concat (map (\<lambda>l. l @ [CHR 0x0A]) ls) @ s) = ls @ str_lines s"
  by (induction ls) (auto simp: str_lines_Cons)

definition meminfo_line :: "string \<Rightarrow> nat \<Rightarrow> u64 \<Rightarrow> string" where
  "meminfo_line name pad n = name @ replicate pad CHR '' '' @ show_nat (unat n) @ '' kB''"

lemma meminfo_line_plain:
  assumes "CHR 0x0A \<notin> set name"
  shows "CHR 0x0A \<notin> set (meminfo_line name pad n) \<and> strip_cr (meminfo_line name pad n) = meminfo_line name pad n"
  using assms show_nat_ends(5)[of "unat n"] by (auto simp: meminfo_line_def strip_cr_def)

lemma parse_kb_padded: "parse_kb_value (replicate pad CHR '' '' @ show_nat (unat n) @ '' kB'') = Inr n"
  by (rule parse_kb_value_kernel_line) (simp add: list_all_iff is_ws_def)

lemma parse_meminfo_kernel:
  assumes "read_to_string fs path = Some
      (meminfo_line ''MemTotal:'' i t @ [CHR 0x0A] @ concat (map (\<lambda>l. l @ [CHR 0x0A]) mids) @
       meminfo_line ''MemAvailable:'' j a @ [CHR 0x0A] @ rest)"
    and "list_all (\<lambda>l. CHR 0x0A \<notin> set l \<and> strip_cr l = l) mids"
    and "list_all (\<lambda>l. strip_prefix ''MemTotal:'' l = None \<and> strip_prefix ''MemAvailable:'' l = None) mids"
  shows "parse_meminfo fs path = Inr (t * 1024, a * 1024)"
proof -
  define T A where "T = meminfo_line ''MemTotal:'' i t" and "A = meminfo_line ''MemAvailable:'' j a"
  have p: "list_all (\<lambda>l. CHR 0x0A \<notin> set l \<and> strip_cr l = l) (T # mids @ [A])"
    using assms(2) meminfo_line_plain[of "''MemTotal:''" i t] meminfo_line_plain[of "''MemAvailable:''" j a]
    by (simp add: T_def A_def)
  have lines: "str_lines (T @ [CHR 0x0A] @ concat (map (\<lambda>l. l @ [CHR 0x0A]) mids) @ A @ [CHR 0x0A] @ rest)
      = T # mids @ A # str_lines rest"
    using str_lines_block[OF p, of rest] by simp
  have T: "strip_prefix ''MemTotal:'' T = Some (replicate i CHR '' '' @ show_nat (unat t) @ '' kB'')"
    by (simp add: T_def meminfo_line_def)
  have A: "strip_prefix ''MemTotal:'' A = None"
    "strip_prefix ''MemAvailable:'' A = Some (replicate j CHR '' '' @ show_nat (unat a) @ '' kB'')"
    by (simp_all add: A_def meminfo_line_def)
  have "scan_meminfo (T # mids @ A # str_lines rest) None None = scan_meminfo (A # str_lines rest) (Some t) None"
    by (simp add: T parse_kb_padded scan_meminfo_skip[OF assms(3)])
  also have "\<dots> = Inr (Some t, Some a)" by (simp add: A parse_kb_padded)
  finally have scan: "scan_meminfo (T # mids @ A # str_lines rest) None None = Inr (Some t, Some a)" .
  show ?thesis
    unfolding parse_meminfo_def assms(1) T_def [symmetric] A_def [symmetric] option.case lines scan by simp
qed

text \<open>C37: Reading a meminfo file the kernel printed gives back the printed totals in bytes: the
  total first, any lines of other keys in between, then the available amount, whatever follows.
  The product with 1024 is the wrapping one.\<close>

theorem parse_meminfo_roundtrip:
  assumes "read_to_string fs path = Some
      (meminfo_line ''MemTotal:'' i t @ [CHR 0x0A] @ concat (map (\<lambda>l. l @ [CHR 0x0A]) mids) @
       meminfo_line ''MemAvailable:'' j a @ [CHR 0x0A] @ rest)"
    and "list_all (\<lambda>l. CHR 0x0A \<notin> set l \<and> strip_cr l = l) mids"
    and "list_all (\<lambda>l. strip_prefix ''MemTotal:'' l = None \<and> strip_prefix ''MemAvailable:'' l = None) mids"
  shows "parse_meminfo fs path = Inr (t * 1024, a * 1024)"
  using assms by (rule parse_meminfo_kernel)

definition example_files :: "string \<Rightarrow> file_system" where
  "example_files content =
     \<lparr> read_to_string = (\<lambda>p. if p = ''/proc/meminfo'' then Some content else None),
       path_exists = (\<lambda>p. p = ''/proc/meminfo''), read_dir = (\<lambda>_. None) \<rparr>"

theorem parse_meminfo_roundtrip_witness:
  "parse_meminfo (example_files
     (meminfo_line ''MemTotal:'' 7 65280212 @ [CHR 0x0A] @
      concat (map (\<lambda>l. l @ [CHR 0x0A]) [''MemFree:        40000000 kB'']) @
      meminfo_line ''MemAvailable:'' 3 55553552 @ [CHR 0x0A] @ ''Buffers: 1 kB'')) ''/proc/meminfo''
   = Inr (65280212 * 1024, 55553552 * 1024)"
  by (rule parse_meminfo_roundtrip[of _ _ 7 65280212 "[''MemFree:        40000000 kB'']" 3 55553552])
    (simp_all add: example_files_def strip_cr_def)

text \<open>C16: Every signal a run of the memory monitor sends from a usable configuration is a memory
  signal whose level lies between the level its own available percentage enters and the one
  it has recovered to, and whose reclaim target does not exceed the total.\<close>

theorem memory_run_signals_sound:
  assumes "well_formed (mm_evaluator m)" and "direction (mm_evaluator m) = Descending"
    and "s \<in> set (snd (memory_run m ts))"
  shows "\<exists>l a t r. s = MemoryPressure l a t r \<and> r \<le> t \<and>
     severity (mm_evaluator m) (available_pct t a) \<le> l \<and> l \<le> recovery (mm_evaluator m) (available_pct t a)"
proof -
  have "memory_inv (thresholds (mm_evaluator m)) m" using assms(1,2) by (simp add: memory_inv_def)
  from mem.run_signals[OF this assms(3)[unfolded memory_run_def]] obtain m' where
    i: "memory_inv (thresholds (mm_evaluator m)) m'" and f: "memory_fresh m'" and s: "s = memory_build_signal m'"
    by blast
  have "severity (mm_evaluator m') = severity (mm_evaluator m)"
    "recovery (mm_evaluator m') = recovery (mm_evaluator m)"
    using i assms(2) by (auto simp: memory_inv_def severity_def recovery_def)
  then show ?thesis
    using f s by (auto simp: memory_fresh_def memory_build_signal_def Let_def reclaim_share_le)
qed

definition example_memory_run :: "memory_monitor \<times> system_signal list" where
  "example_memory_run = memory_run (memory_monitor_new memory_monitor_config_default 1000)
     [\<lparr> shutdown = False,
        env = example_files (meminfo_line ''MemTotal:'' 1 1024 @ [CHR 0x0A] @ meminfo_line ''MemAvailable:'' 1 256 @ [CHR 0x0A]),
        receiver_alive = True \<rparr>]"

lemma example_memory_run_sends: "\<exists>s. snd example_memory_run = [s]"
proof -
  have "parse_meminfo (example_files (meminfo_line ''MemTotal:'' 1 1024 @ [CHR 0x0A] @
      meminfo_line ''MemAvailable:'' 1 256 @ [CHR 0x0A])) ''/proc/meminfo'' = Inr (1024 * 1024, 256 * 1024)"
    by (rule parse_meminfo_kernel[of _ _ 1 1024 "[]" 1 256 "[]"]) (simp_all add: example_files_def)
  then show ?thesis
    by (simp add: example_memory_run_def memory_run_def memory_monitor_new_def memory_poll_def Let_def)
qed

theorem memory_run_signals_sound_witness:
  "\<exists>s l a t r. snd example_memory_run = [s] \<and> s = MemoryPressure l a t r \<and> r \<le> t"
proof -
  let ?m = "memory_monitor_new memory_monitor_config_default 1000"
  have w: "well_formed (mm_evaluator ?m)" and d: "direction (mm_evaluator ?m) = Descending"
    using to_f64_int[of "-40"] to_f64_int[of "-20"] to_f64_int[of "-10"]
    by (simp_all add: memory_monitor_new_def memory_monitor_config_default_def evaluator_new_def
        well_formed_def ordered_up_def)
  obtain s where s: "snd example_memory_run = [s]" using example_memory_run_sends by blast
  then have "s \<in> set (snd (memory_run ?m
     [\<lparr> shutdown = False,
        env = example_files (meminfo_line ''MemTotal:'' 1 1024 @ [CHR 0x0A] @ meminfo_line ''MemAvailable:'' 1 256 @ [CHR 0x0A]),
        receiver_alive = True \<rparr>]))"
    by (simp add: example_memory_run_def)
  from memory_run_signals_sound[OF w d this] s show ?thesis by blast
qed

text \<open>The stateless level helper used by the simulator agrees with the production evaluator of
  a monitor with the default configuration at its first reading, for every reading.\<close>

lemma memory_level_first_reading:
  "memory_level_from_available_pct v =
   current (fst (evaluate (mm_evaluator (memory_monitor_new memory_monitor_config_default p)) v))"
  by (simp add: memory_level_from_available_pct_def memory_monitor_new_def memory_monitor_config_default_def
      evaluate_def level_descending_def evaluator_new_def Let_def)

end
