(* ===== verification/Thermal_Monitor.thy ===== *)
theory Thermal_Monitor
  imports Monitor_Base
begin

text \<open>
  The thermal monitor (\<^verbatim>\<open>src/monitor/thermal.rs\<close>): zone discovery over \<^verbatim>\<open>/sys/class/thermal\<close>, the
  hottest readable zone, the throttling flag of the cooling devices, and the level by
  ascending thresholds.
\<close>

section \<open>Definitions\<close>

definition thermal_level_from_temp_c :: "f64 \<Rightarrow> level" where
  "thermal_level_from_temp_c temp_c =
     (let cfg = thermal_monitor_config_default;
          warning_c = div64 (f64_of_i32 (warning_mc cfg)) (Fin 1000);
          critical_c = div64 (f64_of_i32 (critical_mc cfg)) (Fin 1000);
          emergency_c = div64 (f64_of_i32 (emergency_mc cfg)) (Fin 1000) in
      if fp_ge temp_c emergency_c then Emergency
      else if fp_ge temp_c critical_c then Critical
      else if fp_ge temp_c warning_c then Warning
      else Normal)"

definition throttle_ratio_from_level :: "level \<Rightarrow> f64" where
  "throttle_ratio_from_level l =
     (case l of
        Normal \<Rightarrow> Fin 1 | Warning \<Rightarrow> Fin 1
      | Critical \<Rightarrow> to_f64 (7/10)
      | Emergency \<Rightarrow> to_f64 (3/10))"

record thermal_monitor =
  tm_poll_interval_ms :: u64
  tm_evaluator :: threshold_evaluator
  thermal_base :: string
  zone_indices :: "u32 list"
  zone_type_filter :: "string list"
  zones_discovered :: bool
  last_temp_mc :: i32
  last_throttling :: bool

definition thermal_monitor_new :: "thermal_monitor_config \<Rightarrow> u64 \<Rightarrow> thermal_monitor" where
  "thermal_monitor_new cfg default_poll_ms =
     \<lparr> tm_poll_interval_ms = (case th_poll_interval_ms cfg of Some p \<Rightarrow> p | None \<Rightarrow> default_poll_ms),
       tm_evaluator = evaluator_new Ascending
         \<lparr> warning = f64_of_i32 (warning_mc cfg), critical = f64_of_i32 (critical_mc cfg),
           emergency = f64_of_i32 (emergency_mc cfg), hysteresis = f64_of_i32 (hysteresis_mc cfg) \<rparr>,
       thermal_base = ''/sys/class/thermal'', zone_indices = [], zone_type_filter = zone_types cfg,
       zones_discovered = False, last_temp_mc = 25000, last_throttling = False \<rparr>"

definition zone_file :: "string \<Rightarrow> nat \<Rightarrow> string \<Rightarrow> string" where
  "zone_file base i leaf = base @ ''/thermal_zone'' @ show_nat i @ ''/'' @ leaf"

definition cooling_file :: "string \<Rightarrow> nat \<Rightarrow> string" where
  "cooling_file base i = base @ ''/cooling_device'' @ show_nat i @ ''/cur_state''"

text \<open>The zones whose temperature file exists, with their type (empty when unreadable).\<close>

definition all_zones :: "file_system \<Rightarrow> string \<Rightarrow> (u32 \<times> string) list" where
  "all_zones fs base =
     map (\<lambda>i. (of_nat i, case read_to_string fs (zone_file base i ''type'') of
                           Some s \<Rightarrow> trim s | None \<Rightarrow> []))
       (filter (\<lambda>i. path_exists fs (zone_file base i ''temp'')) [0..<256])"

definition discover_zones :: "file_system \<Rightarrow> thermal_monitor \<Rightarrow> thermal_monitor" where
  "discover_zones fs m =
     (let zs = all_zones fs (thermal_base m);
          matched = map fst (filter (\<lambda>z. snd z \<in> set (zone_type_filter m)) zs) in
      m\<lparr>zone_indices := (if zone_type_filter m = [] then map fst zs
                         else if matched = [] then map fst zs
                         else matched),
        zones_discovered := True\<rparr>)"

definition zone_temp :: "file_system \<Rightarrow> string \<Rightarrow> u32 \<Rightarrow> i32 option" where
  "zone_temp fs base i =
     (case read_to_string fs (zone_file base (unat i) ''temp'') of
        Some content \<Rightarrow> parse_i32 (trim content)
      | None \<Rightarrow> None)"

definition smax :: "i32 \<Rightarrow> i32 \<Rightarrow> i32" where
  "smax a b = (if sint a \<le> sint b then b else a)"

fun max_zone_temp :: "file_system \<Rightarrow> string \<Rightarrow> u32 list \<Rightarrow> i32 option \<Rightarrow> i32 option" where
  "max_zone_temp fs base [] acc = acc"
| "max_zone_temp fs base (i # is) acc =
     max_zone_temp fs base is
       (case zone_temp fs base i of
          None \<Rightarrow> acc
        | Some temp \<Rightarrow> Some (case acc of None \<Rightarrow> temp | Some cur \<Rightarrow> smax cur temp))"

text \<open>The cooling devices in order: stop at the first that cannot be read, or that is active.\<close>

fun scan_cooling :: "file_system \<Rightarrow> string \<Rightarrow> nat list \<Rightarrow> bool" where
  "scan_cooling fs base [] = False"
| "scan_cooling fs base (i # is) =
     (case read_to_string fs (cooling_file base i) of
        None \<Rightarrow> False
      | Some content \<Rightarrow>
          (case parse_u32 (trim content) of
             Some st \<Rightarrow> if 0 < st then True else scan_cooling fs base is
           | None \<Rightarrow> scan_cooling fs base is))"

definition read_thermal_state :: "file_system \<Rightarrow> string \<Rightarrow> u32 list \<Rightarrow> (i32 \<times> bool) res" where
  "read_thermal_state fs base zones =
     (case max_zone_temp fs base zones None of
        None \<Rightarrow> Inl ''No thermal zones found''
      | Some max_temp \<Rightarrow> Inr (max_temp, scan_cooling fs base [0..<64]))"

definition thermal_read_once :: "file_system \<Rightarrow> thermal_monitor \<Rightarrow> thermal_monitor \<times> unit res" where
  "thermal_read_once fs m =
     (let m1 = (if \<not> zones_discovered m then discover_zones fs m else m) in
      case read_thermal_state fs (thermal_base m1) (zone_indices m1) of
        Inl e \<Rightarrow> (m1, Inl e)
      | Inr (max_temp, throttling) \<Rightarrow>
          (m1\<lparr>last_temp_mc := max_temp, last_throttling := throttling\<rparr>, Inr ()))"

definition thermal_build_signal :: "thermal_monitor \<Rightarrow> system_signal" where
  "thermal_build_signal m =
     ThermalAlert (current (tm_evaluator m)) (last_temp_mc m) (last_throttling m)
       (throttle_ratio_from_level (current (tm_evaluator m)))"

definition thermal_poll :: "file_system \<Rightarrow> thermal_monitor \<Rightarrow> thermal_monitor \<times> system_signal option" where
  "thermal_poll fs m =
     (case thermal_read_once fs m of
        (m1, Inl e) \<Rightarrow> (m1, None)
      | (m1, Inr _) \<Rightarrow>
          (let m2 = m1\<lparr>tm_evaluator := fst (evaluate (tm_evaluator m1) (f64_of_i32 (last_temp_mc m1)))\<rparr>
           in (m2, Some (thermal_build_signal m2))))"

definition thermal_run :: "thermal_monitor \<Rightarrow> file_system tick list \<Rightarrow> thermal_monitor \<times> system_signal list" where
  "thermal_run = poll_loop thermal_poll"

definition thermal_initial_signal :: "thermal_monitor \<Rightarrow> system_signal option" where
  "thermal_initial_signal m = Some (thermal_build_signal m)"

section \<open>The hottest zone\<close>

lemma max_zone_temp_acc:
  "max_zone_temp fs base zs acc = (case acc of
     None \<Rightarrow> max_zone_temp fs base zs None
   | Some t \<Rightarrow> Some (case max_zone_temp fs base zs None of None \<Rightarrow> t | Some u \<Rightarrow> smax t u))"
proof (induction zs arbitrary: acc)
  case (Cons z zs)
  have a: "smax (smax x y) w = smax x (smax y w)" for x y w by (simp add: smax_def)
  show ?case
    by (cases "zone_temp fs base z"; cases acc)
      (simp_all add: Cons[of "Some _"] a split: option.splits)
qed (simp split: option.splits)

lemma max_zone_temp_None: "max_zone_temp fs base zs None = None \<longleftrightarrow> (\<forall>z\<in>set zs. zone_temp fs base z = None)"
proof (induction zs)
  case (Cons z zs)
  then show ?case
    by (cases "zone_temp fs base z") (simp_all add: max_zone_temp_acc[of _ _ _ "Some _"] split: option.splits)
qed simp

lemma max_zone_temp_Some:
  "max_zone_temp fs base zs None = Some t \<Longrightarrow>
   (\<exists>z\<in>set zs. zone_temp fs base z = Some t) \<and>
   (\<forall>z\<in>set zs. \<forall>u. zone_temp fs base z = Some u \<longrightarrow> sint u \<le> sint t)"
proof (induction zs arbitrary: t)
  case (Cons z zs)
  show ?case
  proof (cases "zone_temp fs base z")
    case None
    then show ?thesis using Cons by simp
  next
    case (Some u)
    then have t: "t = (case max_zone_temp fs base zs None of None \<Rightarrow> u | Some w \<Rightarrow> smax u w)"
      using Cons.prems by (simp add: max_zone_temp_acc[of _ _ _ "Some _"])
    show ?thesis
    proof (cases "max_zone_temp fs base zs None")
      case None
      have "t = u" using t by (simp add: None)
      moreover have "\<forall>z\<in>set zs. zone_temp fs base z = None" using None max_zone_temp_None by metis
      ultimately show ?thesis using Some by simp
    next
      case (Some w)
      then show ?thesis using t \<open>zone_temp fs base z = Some u\<close> Cons.IH[OF Some]
        by (auto simp: smax_def)
    qed
  qed
qed simp

section \<open>The monitor meets the contract\<close>

definition thermal_inv :: "thresholds \<Rightarrow> thermal_monitor \<Rightarrow> bool" where
  "thermal_inv T m =
     (well_formed (tm_evaluator m) \<and> direction (tm_evaluator m) = Ascending \<and>
      thresholds (tm_evaluator m) = T)"

definition thermal_fresh :: "thermal_monitor \<Rightarrow> bool" where
  "thermal_fresh m =
     (let v = f64_of_i32 (last_temp_mc m) in
      severity (tm_evaluator m) v \<le> current (tm_evaluator m) \<and>
      current (tm_evaluator m) \<le> recovery (tm_evaluator m) v)"

lemma f64_of_i32_exact: "f64_of_i32 w = Fin (of_int (sint w))"
proof -
  have "\<bar>sint w\<bar> \<le> 2 ^ 31" using sint_lt[of w] sint_ge[of w] by (simp add: abs_le_iff)
  then have "\<bar>sint w\<bar> < 2 ^ 53" by simp
  then show ?thesis unfolding f64_of_i32_def by (rule to_f64_int)
qed

lemma thermal_read_once_frame:
  "tm_evaluator (fst (thermal_read_once fs m)) = tm_evaluator m"
  by (auto simp: thermal_read_once_def discover_zones_def Let_def split: sum.splits prod.splits)

interpretation therm: sensor_monitor thermal_poll thermal_build_signal "thermal_inv T" thermal_fresh
  for T
proof
  fix m :: thermal_monitor and fs :: file_system and s :: system_signal
  obtain m1 r where r: "thermal_read_once fs m = (m1, r)" by (cases "thermal_read_once fs m")
  have e: "tm_evaluator m1 = tm_evaluator m" using thermal_read_once_frame[of fs m] r by simp
  show "thermal_inv T m \<Longrightarrow> thermal_inv T (fst (thermal_poll fs m))"
    by (auto simp: thermal_inv_def thermal_poll_def r e Let_def hev.eval_wf split: sum.splits)
  show "snd (thermal_poll fs m) = Some s \<Longrightarrow> s = thermal_build_signal (fst (thermal_poll fs m))"
    by (auto simp: thermal_poll_def r Let_def split: sum.splits)
  show "thermal_inv T m \<Longrightarrow> snd (thermal_poll fs m) = Some s \<Longrightarrow> thermal_fresh (fst (thermal_poll fs m))"
    by (auto simp: thermal_inv_def thermal_fresh_def thermal_poll_def r e Let_def f64_of_i32_exact
        hev.eval_covers hev.eval_bounded hev.enter_frame hev.recover_frame split: sum.splits)
qed

section \<open>Properties\<close>

definition cooling_active :: "file_system \<Rightarrow> string \<Rightarrow> nat \<Rightarrow> bool" where
  "cooling_active fs base i =
     (case read_to_string fs (cooling_file base i) of
        None \<Rightarrow> False
      | Some c \<Rightarrow> (case parse_u32 (trim c) of Some st \<Rightarrow> 0 < st | None \<Rightarrow> False))"

lemma scan_cooling_iff:
  "scan_cooling fs base [k..<n] \<longleftrightarrow>
   (\<exists>i\<ge>k. i < n \<and> cooling_active fs base i \<and>
      (\<forall>j\<ge>k. j < i \<longrightarrow> read_to_string fs (cooling_file base j) \<noteq> None))"
proof (induction "n - k" arbitrary: k)
  case (Suc d)
  then have kn: "k < n" and up: "[k..<n] = k # [Suc k..<n]" by (simp_all add: upt_conv_Cons)
  have IH: "scan_cooling fs base [Suc k..<n] \<longleftrightarrow>
   (\<exists>i\<ge>Suc k. i < n \<and> cooling_active fs base i \<and>
      (\<forall>j\<ge>Suc k. j < i \<longrightarrow> read_to_string fs (cooling_file base j) \<noteq> None))"
    using Suc by simp
  show ?case
  proof (cases "read_to_string fs (cooling_file base k)")
    case None
    then have "\<not> cooling_active fs base k" by (simp add: cooling_active_def)
    then show ?thesis using None by (auto simp: up) (metis le_neq_implies_less order_refl)
  next
    case (Some c)
    have "scan_cooling fs base [k..<n] \<longleftrightarrow> cooling_active fs base k \<or> scan_cooling fs base [Suc k..<n]"
      using Some by (auto simp: up cooling_active_def split: option.splits)
    also have "\<dots> \<longleftrightarrow> (\<exists>i\<ge>k. i < n \<and> cooling_active fs base i \<and>
      (\<forall>j\<ge>k. j < i \<longrightarrow> read_to_string fs (cooling_file base j) \<noteq> None))" (is "?l \<longleftrightarrow> ?r")
    proof
      assume ?l
      then show ?r
      proof
        assume "cooling_active fs base k"
        then show ?r using kn by (intro exI[of _ k]) simp
      next
        assume "scan_cooling fs base [Suc k..<n]"
        then obtain i where "i \<ge> Suc k" "i < n" "cooling_active fs base i"
          "\<forall>j\<ge>Suc k. j < i \<longrightarrow> read_to_string fs (cooling_file base j) \<noteq> None" using IH by blast
        then show ?r using Some by (intro exI[of _ i]) (metis Suc_leD Suc_leI le_neq_implies_less option.distinct(1))
      qed
    next
      assume ?r
      then obtain i where i: "i \<ge> k" "i < n" "cooling_active fs base i"
        "\<forall>j\<ge>k. j < i \<longrightarrow> read_to_string fs (cooling_file base j) \<noteq> None" by blast
      show ?l
      proof (cases "i = k")
        case False
        then have "i \<ge> Suc k" "\<forall>j\<ge>Suc k. j < i \<longrightarrow> read_to_string fs (cooling_file base j) \<noteq> None"
          using i Suc_leD by auto
        then have "scan_cooling fs base [Suc k..<n]" unfolding IH using i by blast
        then show ?thesis by simp
      qed (use i in simp)
    qed
    finally show ?thesis .
  qed
qed simp

text \<open>C24: The thermal reading is the hottest readable zone: it fails exactly when no zone of the list
  can be read; otherwise the temperature is that of some zone and no zone is hotter, and the
  throttling flag is set exactly when some cooling device below 64 is active with every device
  before it readable.\<close>

theorem read_thermal_state_hottest:
  "case read_thermal_state fs base zs of
     Inl e \<Rightarrow> list_all (\<lambda>z. zone_temp fs base z = None) zs
   | Inr (t, thr) \<Rightarrow>
       list_ex (\<lambda>z. zone_temp fs base z = Some t) zs \<and>
       list_all (\<lambda>z. case zone_temp fs base z of None \<Rightarrow> True | Some u \<Rightarrow> sint u \<le> sint t) zs \<and>
       (thr \<longleftrightarrow> (\<exists>i<64. cooling_active fs base i \<and>
          list_all (\<lambda>j. read_to_string fs (cooling_file base j) \<noteq> None) [0..<i]))"
proof (cases "max_zone_temp fs base zs None")
  case None
  from iffD1[OF max_zone_temp_None None] show ?thesis
    by (simp add: read_thermal_state_def list_all_iff None)
next
  case (Some t)
  from max_zone_temp_Some[OF Some] show ?thesis
    using scan_cooling_iff[of fs base 0 64]
    by (auto simp: read_thermal_state_def Some list_all_iff list_ex_iff split: option.splits)
qed

text \<open>Every signal a run of the thermal monitor sends carries a level that lies between the
  level its own temperature enters and the one it has recovered to, and the throttle ratio of
  that level.\<close>

theorem thermal_run_signals_sound:
  assumes "well_formed (tm_evaluator m)" and "direction (tm_evaluator m) = Ascending"
    and "s \<in> set (snd (thermal_run m ts))"
  shows "\<exists>l temp thr. s = ThermalAlert l temp thr (throttle_ratio_from_level l) \<and>
     severity (tm_evaluator m) (f64_of_i32 temp) \<le> l \<and> l \<le> recovery (tm_evaluator m) (f64_of_i32 temp)"
proof -
  have "thermal_inv (thresholds (tm_evaluator m)) m" using assms(1,2) by (simp add: thermal_inv_def)
  from therm.run_signals[OF this assms(3)[unfolded thermal_run_def]] obtain m' where
    i: "thermal_inv (thresholds (tm_evaluator m)) m'" and f: "thermal_fresh m'" and s: "s = thermal_build_signal m'"
    by blast
  have "severity (tm_evaluator m') = severity (tm_evaluator m)"
    "recovery (tm_evaluator m') = recovery (tm_evaluator m)"
    using i assms(2) by (auto simp: thermal_inv_def severity_def recovery_def)
  then show ?thesis
    using f s by (auto simp: thermal_fresh_def thermal_build_signal_def Let_def)
qed

definition thermal_example_files :: file_system where
  "thermal_example_files =
     \<lparr> read_to_string = (\<lambda>p. if p = ''/t/thermal_zone0/temp'' then Some ''61000'' else None),
       path_exists = (\<lambda>p. p = ''/t/thermal_zone0/temp''), read_dir = (\<lambda>_. None) \<rparr>"

definition thermal_example_monitor :: thermal_monitor where
  "thermal_example_monitor =
     (thermal_monitor_new thermal_monitor_config_default 1000)
       \<lparr>thermal_base := ''/t'', zone_indices := [0], zones_discovered := True\<rparr>"

lemma thermal_example_sends:
  "\<exists>s. snd (thermal_run thermal_example_monitor
      [\<lparr> shutdown = False, env = thermal_example_files, receiver_alive = True \<rparr>]) = [s]"
proof -
  have c: "char_of (48 :: nat) = CHR ''0''" by code_simp
  have "zone_temp thermal_example_files ''/t'' 0 = Some 61000"
    by (simp add: zone_temp_def thermal_example_files_def zone_file_def show_nat.simps trim_def trim_start_def trim_end_def
        is_ws_def parse_i32_def parse_unsigned_def c parse_digits_def is_digit_def digits_val_def digit_val_def)
  then show ?thesis
    by (simp add: thermal_run_def thermal_poll_def thermal_read_once_def read_thermal_state_def
        thermal_example_monitor_def Let_def)
qed

theorem thermal_run_signals_sound_witness:
  "\<exists>s l temp thr. snd (thermal_run thermal_example_monitor
      [\<lparr> shutdown = False, env = thermal_example_files, receiver_alive = True \<rparr>]) = [s] \<and>
     s = ThermalAlert l temp thr (throttle_ratio_from_level l)"
proof -
  have w: "well_formed (tm_evaluator thermal_example_monitor)"
    and d: "direction (tm_evaluator thermal_example_monitor) = Ascending"
    using to_f64_int[of 60000] to_f64_int[of 75000] to_f64_int[of 85000]
    by (simp_all add: thermal_example_monitor_def thermal_monitor_new_def thermal_monitor_config_default_def
        evaluator_new_def well_formed_def ordered_up_def f64_of_i32_exact)
  obtain s where s: "snd (thermal_run thermal_example_monitor
      [\<lparr> shutdown = False, env = thermal_example_files, receiver_alive = True \<rparr>]) = [s]"
    using thermal_example_sends by blast
  then have "s \<in> set (snd (thermal_run thermal_example_monitor
      [\<lparr> shutdown = False, env = thermal_example_files, receiver_alive = True \<rparr>]))" by simp
  from thermal_run_signals_sound[OF w d this] s show ?thesis by blast
qed

end
