(* ===== verification/Gpu_Provider.thy ===== *)
theory Gpu_Provider
  imports Monitor_Base
begin

text \<open>
  GPU telemetry (\<^verbatim>\<open>src/monitor/gpu_provider.rs\<close>): the sysfs, Jetson and null providers, the
  detection of the platform, and the reader thread of the Jetson provider.  The thread shares
  two relaxed atomics with the callers; its stores become visible one by one, in order per
  location and in any order across the two, which the step relation writes out.
\<close>

section \<open>Sysfs\<close>

definition SYSFS_UTIL_CANDIDATES :: "string list" where
  "SYSFS_UTIL_CANDIDATES =
     [''/sys/class/kgsl/kgsl-3d0/devfreq/gpu_load'',
      ''/sys/class/kgsl/kgsl-3d0/gpu_busy_percentage'',
      ''/sys/kernel/gpu/gpu_busy_percentage'',
      ''/sys/devices/platform/kgsl-3d0.0/kgsl/kgsl-3d0/gpu_busy_percentage'',
      ''/sys/class/misc/mali0/device/utilization'']"

definition SYSFS_FREQ_CANDIDATES :: "string list" where
  "SYSFS_FREQ_CANDIDATES =
     [''/sys/class/kgsl/kgsl-3d0/gpuclk'', ''/sys/class/kgsl/kgsl-3d0/devfreq/cur_freq'']"

definition parse_util_pct :: "string \<Rightarrow> f64 option" where
  "parse_util_pct content =
     (case List.find (\<lambda>tok. tok \<noteq> []) (split_on (\<lambda>c. is_ws c \<or> c = CHR ''%'') (trim content)) of
        None \<Rightarrow> None
      | Some head \<Rightarrow> parse_f64 head)"

text \<open>The first candidate that can be read and parsed.\<close>

fun first_reading :: "(string \<Rightarrow> 'a option) \<Rightarrow> file_system \<Rightarrow> string list \<Rightarrow> 'a option" where
  "first_reading parse fs [] = None"
| "first_reading parse fs (p # ps) =
     (case read_to_string fs p of
        None \<Rightarrow> first_reading parse fs ps
      | Some content \<Rightarrow>
          (case parse content of None \<Rightarrow> first_reading parse fs ps | Some v \<Rightarrow> Some v))"

record sysfs_gpu_provider =
  util_paths :: "string list"
  freq_paths :: "string list"
  sysfs_desc :: string

definition sysfs_with_defaults :: sysfs_gpu_provider where
  "sysfs_with_defaults =
     \<lparr> util_paths = SYSFS_UTIL_CANDIDATES, freq_paths = SYSFS_FREQ_CANDIDATES,
       sysfs_desc = ''sysfs(adreno|mali)'' \<rparr>"

definition sysfs_with_custom_util :: "string \<Rightarrow> sysfs_gpu_provider" where
  "sysfs_with_custom_util path =
     \<lparr> util_paths = [path], freq_paths = SYSFS_FREQ_CANDIDATES,
       sysfs_desc = ''sysfs(custom='' @ path @ '')'' \<rparr>"

definition sysfs_util_pct :: "file_system \<Rightarrow> sysfs_gpu_provider \<Rightarrow> f64 option" where
  "sysfs_util_pct fs p =
     map_option (\<lambda>v. fp_clamp v (Fin 0) (Fin 100)) (first_reading parse_util_pct fs (util_paths p))"

definition sysfs_freq_hz :: "file_system \<Rightarrow> sysfs_gpu_provider \<Rightarrow> u64 option" where
  "sysfs_freq_hz fs p = first_reading (\<lambda>c. parse_u64 (trim c)) fs (freq_paths p)"

section \<open>Jetson\<close>

definition parse_gr3d_freq :: "string \<Rightarrow> u8 option" where
  "parse_gr3d_freq line =
     (case find_sub ''GR3D_FREQ '' line of
        None \<Rightarrow> None
      | Some i \<Rightarrow>
          (let rest = drop (i + length ''GR3D_FREQ '') line in
           case find_sub ''%'' rest of
             None \<Rightarrow> None
           | Some num_end \<Rightarrow> map_option (\<lambda>v. ucast (min v 100)) (parse_u32 (trim (take num_end rest)))))"

text \<open>The provider and what it shares with the reader thread: the atomics, and the stores of the
  thread that no caller has seen yet.\<close>

record jetson_gpu_provider =
  freq_path :: "string option"
  util_percent :: u8
  util_seen :: bool
  jetson_shutdown :: bool
  has_reader :: bool
  reader_running :: bool
  pending_percent :: "u8 list"
  pending_seen :: bool
  jetson_desc :: string

definition jetson_new_with_source :: "string option \<Rightarrow> string \<Rightarrow> jetson_gpu_provider" where
  "jetson_new_with_source fp desc =
     \<lparr> freq_path = fp, util_percent = 0, util_seen = False, jetson_shutdown = False,
       has_reader = True, reader_running = True, pending_percent = [], pending_seen = False,
       jetson_desc = desc \<rparr>"

definition jetson_freq_only :: "string \<Rightarrow> jetson_gpu_provider" where
  "jetson_freq_only fp =
     \<lparr> freq_path = Some fp, util_percent = 0, util_seen = False, jetson_shutdown = False,
       has_reader = False, reader_running = False, pending_percent = [], pending_seen = False,
       jetson_desc = ''jetson(gv11b,freq-only)'' \<rparr>"

definition f64_of_u8 :: "u8 \<Rightarrow> f64" where
  "f64_of_u8 w = Fin (of_int (uint w))"

definition jetson_util_pct :: "jetson_gpu_provider \<Rightarrow> f64 option" where
  "jetson_util_pct p =
     (if \<not> has_reader p then None
      else if \<not> util_seen p then None
      else Some (f64_of_u8 (util_percent p)))"

definition jetson_freq_hz :: "file_system \<Rightarrow> jetson_gpu_provider \<Rightarrow> u64 option" where
  "jetson_freq_hz fs p =
     (case freq_path p of
        None \<Rightarrow> None
      | Some path \<Rightarrow>
          (case read_to_string fs path of Some s \<Rightarrow> parse_u64 (trim s) | None \<Rightarrow> None))"

definition jetson_drop :: "jetson_gpu_provider \<Rightarrow> jetson_gpu_provider" where
  "jetson_drop p = p\<lparr>jetson_shutdown := True, has_reader := False\<rparr>"

text \<open>One line of the reader thread: what it stores.\<close>

definition reader_line :: "string \<Rightarrow> jetson_gpu_provider \<Rightarrow> jetson_gpu_provider" where
  "reader_line line p =
     (case parse_gr3d_freq line of
        Some pct \<Rightarrow> p\<lparr>pending_percent := pending_percent p @ [pct], pending_seen := True\<rparr>
      | None \<Rightarrow> p)"

text \<open>The interleavings of the reader thread, the visibility of its stores and the drop of the
  provider; the label lists the lines the thread has read.\<close>

inductive jetson_step :: "jetson_gpu_provider \<times> string list \<Rightarrow> jetson_gpu_provider \<times> string list \<Rightarrow> bool" where
  read_line: "reader_running p \<Longrightarrow> \<not> jetson_shutdown p \<Longrightarrow>
     jetson_step (p, ls) (reader_line line p, ls @ [line])"
| read_end: "reader_running p \<Longrightarrow> jetson_step (p, ls) (p\<lparr>reader_running := False\<rparr>, ls)"
| see_percent: "pending_percent p = v # vs \<Longrightarrow>
     jetson_step (p, ls) (p\<lparr>util_percent := v, pending_percent := vs\<rparr>, ls)"
| see_seen: "pending_seen p \<Longrightarrow>
     jetson_step (p, ls) (p\<lparr>util_seen := True, pending_seen := False\<rparr>, ls)"
| drop_provider: "jetson_step (p, ls) (jetson_drop p, ls)"

inductive jetson_reachable :: "string option \<Rightarrow> string \<Rightarrow> jetson_gpu_provider \<times> string list \<Rightarrow> bool"
  for fp desc where
  start: "jetson_reachable fp desc (jetson_new_with_source fp desc, [])"
| step: "jetson_reachable fp desc s \<Longrightarrow> jetson_step s t \<Longrightarrow> jetson_reachable fp desc t"

inductive_cases jetson_stepE: "jetson_step s t"

text \<open>The child process: what each read of its output yields, an empty line being the end of file, and
  whether it still runs; dropping it kills it.\<close>

record tegrastats_child =
  child_running :: bool
  child_output :: "string res list"

definition TEGRASTATS_ARGS :: "string list" where
  "TEGRASTATS_ARGS = [''--interval'', ''300'']"

definition tegrastats_spawn ::
  "(string \<Rightarrow> string list \<Rightarrow> bool) \<Rightarrow> bool \<Rightarrow> string res list \<Rightarrow> string \<Rightarrow> tegrastats_child res" where
  "tegrastats_spawn starts has_stdout output bin =
     (if \<not> starts bin TEGRASTATS_ARGS then Inl (''spawn '' @ bin @ '' failed'')
      else if \<not> has_stdout then Inl ''tegrastats: missing stdout pipe''
      else Inr \<lparr> child_running = True, child_output = output \<rparr>)"

definition child_next_line :: "tegrastats_child \<Rightarrow> tegrastats_child \<times> string option" where
  "child_next_line c =
     (case child_output c of
        [] \<Rightarrow> (c, None)
      | r # rs \<Rightarrow>
          (c\<lparr>child_output := rs\<rparr>,
           case r of Inl e \<Rightarrow> None | Inr buf \<Rightarrow> if buf = [] then None else Some buf))"

definition child_drop :: "tegrastats_child \<Rightarrow> tegrastats_child" where
  "child_drop c = c\<lparr>child_running := False\<rparr>"

lemma child_next_line_shorter:
  "(c', Some l) = child_next_line c \<Longrightarrow> length (child_output c') < length (child_output c)"
  by (auto simp: child_next_line_def split: list.splits sum.splits if_splits)

text \<open>The reader thread on its child, undisturbed: it stores the samples of the lines up to the end of
  file or the first error, and then drops the child.\<close>

function read_child :: "tegrastats_child \<Rightarrow> jetson_gpu_provider \<Rightarrow> tegrastats_child \<times> jetson_gpu_provider" where
  "read_child c p =
     (case child_next_line c of
        (c', Some line) \<Rightarrow> read_child c' (reader_line line p)
      | (c', None) \<Rightarrow> (child_drop c', p\<lparr>reader_running := False\<rparr>))"
  by pat_completeness auto
termination
  by (relation "measure (\<lambda>(c, p). length (child_output c))") (auto intro: child_next_line_shorter)

declare read_child.simps [simp del]

text \<open>Whatever the child printed, it is gone afterwards and no sample of a later line was stored.\<close>

lemma read_child_ends:
  "\<not> child_running (fst (read_child c p)) \<and> \<not> reader_running (snd (read_child c p))"
proof (induction c p rule: read_child.induct)
  case (1 c p)
  then show ?case
    by (cases "child_next_line c"; cases "snd (child_next_line c)")
      (auto simp: read_child.simps[of c p] child_drop_def)
qed

section \<open>The provider interface, detection and construction\<close>

datatype gpu_provider =
    NullGpu
  | SysfsGpu sysfs_gpu_provider
  | JetsonGpu jetson_gpu_provider

fun util_pct :: "file_system \<Rightarrow> gpu_provider \<Rightarrow> f64 option" where
  "util_pct fs NullGpu = None"
| "util_pct fs (SysfsGpu p) = sysfs_util_pct fs p"
| "util_pct fs (JetsonGpu p) = jetson_util_pct p"

fun freq_hz :: "file_system \<Rightarrow> gpu_provider \<Rightarrow> u64 option" where
  "freq_hz fs NullGpu = None"
| "freq_hz fs (SysfsGpu p) = sysfs_freq_hz fs p"
| "freq_hz fs (JetsonGpu p) = jetson_freq_hz fs p"

fun gpu_describe :: "gpu_provider \<Rightarrow> string" where
  "gpu_describe NullGpu = ''null''"
| "gpu_describe (SysfsGpu p) = sysfs_desc p"
| "gpu_describe (JetsonGpu p) = jetson_desc p"

definition path_join :: "string \<Rightarrow> string \<Rightarrow> string" where
  "path_join base p = (if strip_prefix ''/'' p \<noteq> None then p else base @ ''/'' @ p)"

definition file_name :: "string \<Rightarrow> string" where
  "file_name p = last (split_on (\<lambda>c. c = CHR ''/'') p)"

definition is_tegra_name :: "string \<Rightarrow> bool" where
  "is_tegra_name n = (find_sub ''gv11b'' n \<noteq> None \<or> find_sub ''ga10b'' n \<noteq> None)"

definition detect_backend :: "file_system \<Rightarrow> string \<Rightarrow> gpu_backend" where
  "detect_backend fs sys_root =
     (if (case read_dir fs (path_join sys_root ''class/devfreq'') of
            Some entries \<Rightarrow> list_ex (\<lambda>e. is_tegra_name (file_name e)) entries
          | None \<Rightarrow> False) then Jetson
      else if list_ex (\<lambda>p. path_exists fs (path_join sys_root
                (case strip_prefix ''/sys/'' p of Some rel \<Rightarrow> rel | None \<Rightarrow> p))) SYSFS_UTIL_CANDIDATES
      then Sysfs
      else Null)"

definition discover_jetson_freq_path :: "file_system \<Rightarrow> string \<Rightarrow> string option" where
  "discover_jetson_freq_path fs sys_root =
     (let devfreq = path_join sys_root ''class/devfreq'' in
      case read_dir fs devfreq of
        None \<Rightarrow> None
      | Some entries \<Rightarrow>
          map_option (\<lambda>e. path_join (path_join devfreq (file_name e)) ''cur_freq'')
            (List.find (\<lambda>e. is_tegra_name (file_name e)) entries))"

text \<open>Starting the \<^verbatim>\<open>tegrastats\<close> child may fail; \<^term>\<open>spawn_ok\<close> says for which binaries it succeeds.\<close>

definition jetson_new :: "(string \<Rightarrow> bool) \<Rightarrow> string option \<Rightarrow> string \<Rightarrow> jetson_gpu_provider res" where
  "jetson_new spawn_ok fp bin =
     (if spawn_ok bin then Inr (jetson_new_with_source fp ''jetson(gv11b+tegrastats)'')
      else Inl (''spawn '' @ bin @ '' failed''))"

definition build_provider :: "(string \<Rightarrow> bool) \<Rightarrow> file_system \<Rightarrow> gpu_backend \<Rightarrow> gpu_provider" where
  "build_provider spawn_ok fs backend =
     (case (case backend of Auto \<Rightarrow> detect_backend fs ''/sys'' | _ \<Rightarrow> backend) of
        Null \<Rightarrow> NullGpu
      | Sysfs \<Rightarrow> SysfsGpu sysfs_with_defaults
      | Auto \<Rightarrow> SysfsGpu sysfs_with_defaults
      | CustomSysfs path \<Rightarrow> SysfsGpu (sysfs_with_custom_util path)
      | Jetson \<Rightarrow>
          (let fp = discover_jetson_freq_path fs ''/sys'' in
           case jetson_new spawn_ok fp ''tegrastats'' of
             Inr p \<Rightarrow> JetsonGpu p
           | Inl e \<Rightarrow> (case fp of Some f \<Rightarrow> JetsonGpu (jetson_freq_only f) | None \<Rightarrow> NullGpu))
      | JetsonExplicit fp tegrastats_bin \<Rightarrow>
          (let bin = (case tegrastats_bin of Some b \<Rightarrow> b | None \<Rightarrow> ''tegrastats'') in
           case jetson_new spawn_ok (Some fp) bin of
             Inr p \<Rightarrow> JetsonGpu p
           | Inl e \<Rightarrow> JetsonGpu (jetson_freq_only fp)))"

section \<open>Readings are percentages\<close>

definition pct_or_NaN :: "f64 \<Rightarrow> bool" where
  "pct_or_NaN v = (v = NaN \<or> fp_le (Fin 0) v \<and> fp_le v (Fin 100))"

text \<open>What the users of a provider rely on: a utilization is a percentage, or a NaN the sysfs file
  spelled out, and holding a percentage is stable under the steps of the environment.\<close>

locale gpu_telemetry =
  fixes util :: "'e \<Rightarrow> 'p \<Rightarrow> f64 option"
    and ok :: "'p \<Rightarrow> bool"
  assumes util_range: "ok p \<Longrightarrow> util e p = Some v \<Longrightarrow> pct_or_NaN v"
begin

definition util_or_zero :: "'e \<Rightarrow> 'p \<Rightarrow> f64" where
  "util_or_zero e p = (case util e p of Some v \<Rightarrow> v | None \<Rightarrow> Fin 0)"

lemma util_or_zero_range: "ok p \<Longrightarrow> pct_or_NaN (util_or_zero e p)"
  using util_range[of p e] by (auto simp: util_or_zero_def pct_or_NaN_def split: option.splits)

end

lemma parse_gr3d_le: "parse_gr3d_freq line = Some v \<Longrightarrow> unat v \<le> 100"
proof -
  have "unat (ucast (min w 100) :: u8) \<le> 100" for w :: u32
  proof -
    have "unat (min w 100) \<le> 100" by (simp add: min_def word_le_nat_alt)
    then show ?thesis
      unfolding unsigned_ucast_eq using take_bit_nat_less_eq_self[of "LENGTH(8)" "unat (min w 100)"] by linarith
  qed
  then show "parse_gr3d_freq line = Some v \<Longrightarrow> unat v \<le> 100"
    by (auto simp: parse_gr3d_freq_def Let_def split: option.splits)
qed

lemma f64_of_u8_range:
  assumes "unat w \<le> 100"
  shows "fp_le (Fin 0) (f64_of_u8 w) \<and> fp_le (f64_of_u8 w) (Fin 100)"
proof -
  have "int (unat w) \<le> int 100" using assms by (simp only: of_nat_le_iff)
  then have "0 \<le> uint w" "uint w \<le> 100" by simp_all
  then have "0 \<le> (of_int (uint w) :: rat)" "(of_int (uint w) :: rat) \<le> of_int 100"
    by (simp_all only: of_int_0_le_iff of_int_le_iff)
  then show ?thesis unfolding f64_of_u8_def fp_le.simps by (simp only: of_int_numeral)
qed

definition jetson_ok :: "jetson_gpu_provider \<Rightarrow> bool" where
  "jetson_ok p = (unat (util_percent p) \<le> 100 \<and> list_all (\<lambda>v. unat v \<le> 100) (pending_percent p))"

lemma jetson_step_ok: "jetson_step s t \<Longrightarrow> jetson_ok (fst s) \<Longrightarrow> jetson_ok (fst t)"
  by (induction rule: jetson_step.induct)
    (auto simp: jetson_ok_def reader_line_def jetson_drop_def parse_gr3d_le split: option.splits)

fun provider_ok :: "gpu_provider \<Rightarrow> bool" where
  "provider_ok (JetsonGpu p) = jetson_ok p"
| "provider_ok _ = True"

interpretation gpu: gpu_telemetry util_pct provider_ok
proof
  fix p e v assume "provider_ok p" and "util_pct e p = Some v"
  then show "pct_or_NaN v"
    using fp_clamp_bounds[of "Fin 0" "Fin 100"] f64_of_u8_range
    by (cases p) (auto simp: pct_or_NaN_def sysfs_util_pct_def jetson_util_pct_def jetson_ok_def
        split: if_splits, (metis fp_clamp_NaN)+)
qed

lemma build_provider_ok: "provider_ok (build_provider spawn_ok fs backend)"
  by (auto simp: build_provider_def jetson_new_def Let_def jetson_ok_def jetson_new_with_source_def
      jetson_freq_only_def split: gpu_backend.splits option.splits sum.splits)

section \<open>Properties\<close>

definition samples :: "string list \<Rightarrow> u8 list" where
  "samples ls = List.map_filter parse_gr3d_freq ls"

lemma samples_snoc [simp]:
  "samples (ls @ [l]) = samples ls @ (case parse_gr3d_freq l of None \<Rightarrow> [] | Some v \<Rightarrow> [v])"
  by (simp add: samples_def map_filter_def split: option.splits)

text \<open>The samples are those already visible followed by those pending; the visible percentage is
  the last visible one, 0 before.\<close>

definition jetson_trace_inv :: "jetson_gpu_provider \<times> string list \<Rightarrow> bool" where
  "jetson_trace_inv s =
     (case s of (p, ls) \<Rightarrow>
        (\<exists>seen. samples ls = seen @ pending_percent p \<and> util_percent p = last (0 # seen)) \<and>
        (util_seen p \<or> pending_seen p \<longrightarrow> samples ls \<noteq> []))"

lemma jetson_trace_invI:
  assumes "samples ls = seen @ pending_percent p" and "util_percent p = last (0 # seen)"
    and "util_seen p \<or> pending_seen p \<longrightarrow> samples ls \<noteq> []"
  shows "jetson_trace_inv (p, ls)"
  unfolding jetson_trace_inv_def using assms by blast

lemma jetson_trace_invE:
  assumes "jetson_trace_inv (p, ls)"
  obtains seen where "samples ls = seen @ pending_percent p" and "util_percent p = last (0 # seen)"
    and "util_seen p \<or> pending_seen p \<longrightarrow> samples ls \<noteq> []"
  using assms unfolding jetson_trace_inv_def by blast

lemma jetson_step_trace: "jetson_step s t \<Longrightarrow> jetson_trace_inv s \<Longrightarrow> jetson_trace_inv t"
proof (induction rule: jetson_step.induct)
  case (read_line p ls line)
  from read_line.prems obtain seen where s: "samples ls = seen @ pending_percent p"
    "util_percent p = last (0 # seen)" "util_seen p \<or> pending_seen p \<longrightarrow> samples ls \<noteq> []"
    by (rule jetson_trace_invE)
  show ?case
  proof (cases "parse_gr3d_freq line")
    case None
    then show ?thesis using s by (intro jetson_trace_invI[of _ seen]) (simp_all add: reader_line_def)
  next
    case (Some v)
    then show ?thesis using s by (intro jetson_trace_invI[of _ seen]) (simp_all add: reader_line_def)
  qed
next
  case (see_percent p v vs ls)
  from see_percent.prems obtain seen where s: "samples ls = seen @ pending_percent p"
    by (rule jetson_trace_invE)
  show ?case using s see_percent.hyps by (intro jetson_trace_invI[of _ "seen @ [v]"]) simp_all
next
  case (read_end p ls)
  then show ?case by (elim jetson_trace_invE) (rule jetson_trace_invI, simp_all)
next
  case (see_seen p ls)
  then show ?case by (elim jetson_trace_invE) (rule jetson_trace_invI, simp_all)
next
  case (drop_provider p ls)
  then show ?case by (elim jetson_trace_invE) (rule jetson_trace_invI, simp_all add: jetson_drop_def)
qed

text \<open>C29: In every interleaving of the reader thread with its callers, a utilization the Jetson
  provider reports is 0 or one of the samples the thread has read, it is reported only after a
  sample was read, and it lies between 0 and 100.\<close>

theorem jetson_reports_samples:
  assumes "jetson_reachable fp desc (p, ls)" and "jetson_util_pct p = Some v"
  shows "samples ls \<noteq> [] \<and> (\<exists>u \<in> set (0 # samples ls). v = f64_of_u8 u) \<and>
     fp_le (Fin 0) v \<and> fp_le v (Fin 100)"
proof -
  have "jetson_trace_inv s \<and> jetson_ok (fst s)" if "jetson_reachable fp desc s" for s
    using that
    by (induction rule: jetson_reachable.induct)
      (auto simp: jetson_step_trace jetson_step_ok,
       simp_all add: jetson_trace_inv_def jetson_new_with_source_def jetson_ok_def samples_def map_filter_def)
  from this[OF assms(1)] have i: "jetson_trace_inv (p, ls)" and ok: "jetson_ok p" by simp_all
  then obtain seen where s: "samples ls = seen @ pending_percent p" "util_percent p = last (0 # seen)"
    by (auto simp: jetson_trace_inv_def)
  then have "util_percent p \<in> set (0 # samples ls)" by (cases seen) auto
  moreover have "v = f64_of_u8 (util_percent p)" "util_seen p"
    using assms(2) by (auto simp: jetson_util_pct_def split: if_splits)
  moreover have "samples ls \<noteq> []" using i \<open>util_seen p\<close> by (simp add: jetson_trace_inv_def)
  ultimately show ?thesis using f64_of_u8_range[of "util_percent p"] ok by (auto simp: jetson_ok_def)
qed

definition jetson_example :: jetson_gpu_provider where
  "jetson_example =
     (jetson_new_with_source None ''j'')\<lparr>util_percent := 42, util_seen := True\<rparr>"

lemma jetson_example_reachable: "jetson_reachable None ''j'' (jetson_example, [''GR3D_FREQ 42%''])"
proof -
  have s: "parse_gr3d_freq ''GR3D_FREQ 42%'' = Some 42"
    by (simp add: parse_gr3d_freq_def Let_def parse_u32_def parse_unsigned_def parse_digits_def is_digit_def
        digits_val_def digit_val_def trim_def trim_start_def trim_end_def is_ws_def)
  let ?p = "jetson_new_with_source None ''j''"
  let ?p1 = "?p\<lparr>pending_percent := [42], pending_seen := True\<rparr>"
  let ?p2 = "?p1\<lparr>util_percent := 42, pending_percent := []\<rparr>"
  have "jetson_step (?p, []) (?p1, [''GR3D_FREQ 42%''])"
    using jetson_step.read_line[of ?p "[]" "''GR3D_FREQ 42%''"] s
    by (simp add: reader_line_def jetson_new_with_source_def)
  moreover have "jetson_step (?p1, [''GR3D_FREQ 42%'']) (?p2, [''GR3D_FREQ 42%''])"
    using jetson_step.see_percent[of ?p1 42 "[]"] by simp
  moreover have "jetson_step (?p2, [''GR3D_FREQ 42%'']) (jetson_example, [''GR3D_FREQ 42%''])"
    using jetson_step.see_seen[of ?p2] by (simp add: jetson_example_def jetson_new_with_source_def)
  ultimately show ?thesis by (meson jetson_reachable.intros)
qed

theorem jetson_reports_samples_witness:
  "jetson_util_pct jetson_example = Some (f64_of_u8 42) \<and>
   fp_le (Fin 0) (f64_of_u8 42) \<and> fp_le (f64_of_u8 42) (Fin 100)"
proof -
  have u: "jetson_util_pct jetson_example = Some (f64_of_u8 42)"
    by (simp add: jetson_util_pct_def jetson_example_def jetson_new_with_source_def)
  from jetson_reports_samples[OF jetson_example_reachable u] u show ?thesis by simp
qed

text \<open>Whatever the configured backend and the platform, the provider that is built reports a
  utilization that is a percentage (or a NaN a sysfs file spells out), for every state of the
  file system.\<close>

lemma built_provider_reports_percentages:
  "case util_pct fs' (build_provider spawn_ok fs backend) of None \<Rightarrow> True | Some v \<Rightarrow> pct_or_NaN v"
  using gpu.util_range[OF build_provider_ok, of fs'] by (simp split: option.splits)

end
