(* ===== verification/Compute_Monitor.thy ===== *)
theory Compute_Monitor
  imports Gpu_Provider
begin

text \<open>
  The compute monitor (\<^verbatim>\<open>src/monitor/compute.rs\<close>): CPU usage from the difference of two snapshots
  of \<^verbatim>\<open>/proc/stat\<close>, GPU usage from the shared provider, the level by ascending thresholds and
  the recommended backend.  Sums and differences of counters are the wrapping ones of a
  release build.
\<close>

section \<open>Definitions\<close>

definition compute_level_from_pcts :: "f64 \<Rightarrow> f64 \<Rightarrow> level" where
  "compute_level_from_pcts cpu_pct gpu_pct =
     (let cfg = compute_monitor_config_default; worst = fp_max cpu_pct gpu_pct in
      if fp_ge worst (cpu_critical_pct cfg) then Critical
      else if fp_ge worst (cpu_warning_pct cfg) then Warning
      else Normal)"

record cpu_snapshot =
  snap_total :: u64
  snap_idle :: u64

record compute_monitor =
  cm_poll_interval_ms :: u64
  cm_evaluator :: threshold_evaluator
  warning_usage_pct :: f64
  stat_path :: string
  prev_snapshot :: "cpu_snapshot option"
  last_cpu :: f64
  last_gpu :: f64
  recommended :: recommended_backend
  cm_reason :: compute_reason

text \<open>What a poll sees: the files, and the shared provider behind its lock; no provider when the
  lock is poisoned.\<close>

type_synonym compute_env = "file_system \<times> gpu_provider option"

definition compute_monitor_new :: "compute_monitor_config \<Rightarrow> u64 \<Rightarrow> compute_monitor" where
  "compute_monitor_new cfg default_poll_ms =
     \<lparr> cm_poll_interval_ms = (case cpu_poll_interval_ms cfg of Some p \<Rightarrow> p | None \<Rightarrow> default_poll_ms),
       cm_evaluator = evaluator_new Ascending
         \<lparr> warning = cpu_warning_pct cfg, critical = cpu_critical_pct cfg,
           emergency = f64_max, hysteresis = cpu_hysteresis_pct cfg \<rparr>,
       warning_usage_pct = cpu_warning_pct cfg, stat_path = ''/proc/stat'', prev_snapshot = None,
       last_cpu = Fin 0, last_gpu = Fin 0, recommended = Any, cm_reason = Balanced \<rparr>"

definition read_gpu :: "compute_env \<Rightarrow> f64" where
  "read_gpu e =
     (case snd e of
        None \<Rightarrow> Fin 0
      | Some provider \<Rightarrow> (case util_pct (fst e) provider of Some v \<Rightarrow> v | None \<Rightarrow> Fin 0))"

definition read_cpu_snapshot :: "file_system \<Rightarrow> string \<Rightarrow> cpu_snapshot res" where
  "read_cpu_snapshot fs path =
     (case read_to_string fs path of
        None \<Rightarrow> Inl ''read error''
      | Some content \<Rightarrow>
          (case str_lines content of
             [] \<Rightarrow> Inl ''Empty /proc/stat''
           | line # _ \<Rightarrow>
               (let fields = List.map_filter parse_u64 (drop 1 (split_whitespace line)) in
                if length fields < 4 then Inl ''Unexpected /proc/stat format: too few fields''
                else Inr \<lparr> snap_total = sum_list fields, snap_idle = fields ! 3 \<rparr>)))"

definition cpu_usage :: "u64 \<Rightarrow> u64 \<Rightarrow> f64" where
  "cpu_usage total_delta idle_delta =
     (if 0 < total_delta
      then mul64 (div64 (f64_of_u64 (total_delta - idle_delta)) (f64_of_u64 total_delta)) (Fin 100)
      else Fin 0)"

definition compute_read_once :: "compute_env \<Rightarrow> compute_monitor \<Rightarrow> compute_monitor \<times> bool res" where
  "compute_read_once e m =
     (case read_cpu_snapshot (fst e) (stat_path m) of
        Inl err \<Rightarrow> (m, Inl err)
      | Inr snap \<Rightarrow>
          (case prev_snapshot m of
             Some prev \<Rightarrow>
               (let total_delta = saturating_sub (snap_total snap) (snap_total prev);
                    idle_delta = saturating_sub (snap_idle snap) (snap_idle prev) in
                (m\<lparr>last_cpu := cpu_usage total_delta idle_delta, last_gpu := read_gpu e,
                   prev_snapshot := Some snap\<rparr>, Inr True))
           | None \<Rightarrow> (m\<lparr>prev_snapshot := Some snap\<rparr>, Inr False)))"

definition compute_recommendation :: "f64 \<Rightarrow> f64 \<Rightarrow> f64 \<Rightarrow> recommended_backend \<times> compute_reason" where
  "compute_recommendation cpu gpu warning_pct =
     (case (fp_ge cpu warning_pct, fp_ge gpu warning_pct) of
        (True, True) \<Rightarrow> (Any, BothLoaded)
      | (True, False) \<Rightarrow> (Gpu, CpuBottleneck)
      | (False, True) \<Rightarrow> (Cpu, GpuBottleneck)
      | (False, False) \<Rightarrow>
          if fp_lt (fp_abs (sub64 cpu gpu)) (Fin 10) then (Any, Balanced)
          else if fp_lt cpu gpu then (Cpu, CpuAvailable)
          else (Gpu, GpuAvailable))"

definition resolve_backend :: "compute_monitor_config \<Rightarrow> gpu_backend" where
  "resolve_backend cfg =
     (case (gpu_backend cfg, gpu_sysfs_path cfg) of
        (Auto, Some path) \<Rightarrow> CustomSysfs path
      | (backend, _) \<Rightarrow> backend)"

definition compute_from_config ::
  "(string \<Rightarrow> bool) \<Rightarrow> file_system \<Rightarrow> compute_monitor_config \<Rightarrow> u64 \<Rightarrow> compute_monitor \<times> gpu_provider" where
  "compute_from_config spawn_ok fs cfg default_poll_ms =
     (compute_monitor_new cfg default_poll_ms, build_provider spawn_ok fs (resolve_backend cfg))"

definition compute_build_signal :: "compute_monitor \<Rightarrow> system_signal" where
  "compute_build_signal m =
     ComputeGuidance (current (cm_evaluator m)) (recommended m) (cm_reason m) (last_cpu m) (last_gpu m)"

definition compute_poll :: "compute_env \<Rightarrow> compute_monitor \<Rightarrow> compute_monitor \<times> system_signal option" where
  "compute_poll e m =
     (case compute_read_once e m of
        (m1, Inr True) \<Rightarrow>
          (let worst = fp_max (last_cpu m1) (last_gpu m1);
               m2 = m1\<lparr>cm_evaluator := fst (evaluate (cm_evaluator m1) worst)\<rparr>;
               (new_rec, new_reason) =
                 compute_recommendation (last_cpu m2) (last_gpu m2) (warning_usage_pct m2);
               m3 = m2\<lparr>recommended := new_rec, cm_reason := new_reason\<rparr>
           in (m3, Some (compute_build_signal m3)))
      | (m1, Inr False) \<Rightarrow> (m1, None)
      | (m1, Inl err) \<Rightarrow> (m1, None))"

definition compute_run :: "compute_monitor \<Rightarrow> compute_env tick list \<Rightarrow> compute_monitor \<times> system_signal list" where
  "compute_run = poll_loop compute_poll"

definition compute_initial_signal :: "compute_monitor \<Rightarrow> system_signal option" where
  "compute_initial_signal m = Some (compute_build_signal m)"

section \<open>Usage\<close>

lemma cpu_usage_cases:
  "\<exists>r. cpu_usage td di = Fin r \<and> 0 \<le> r \<and> r \<le> 2 ^ 71 \<and> (di \<le> td \<longrightarrow> r \<le> 100)"
proof (cases "td = 0")
  case False
  define a b where "a = rnd64 (of_int (uint (td - di)))" and "b = rnd64 (of_int (uint td))"
  have ab: "f64_of_u64 (td - di) = Fin a" "f64_of_u64 td = Fin b"
    by (simp_all only: a_def b_def f64_of_u64_Fin)
  have r1: "repr64 1" using repr_int[of 1 53 "-1074"] by simp
  have r64: "repr64 (2 ^ 64)" unfolding repr_fmt_def by (intro exI[of _ 1] exI[of _ 64]) simp
  have r71: "repr64 (2 ^ 71)" unfolding repr_fmt_def by (intro exI[of _ 1] exI[of _ 71]) simp
  have r100: "repr64 100" using repr_int[of 100 53 "-1074"] by simp
  have "1 \<le> uint td" using False uint_u64(1)[of td] by (simp add: uint_0_iff order_less_le int_one_le_iff_zero_less)
  then have b1: "1 \<le> b" unfolding b_def using r1 by (intro rnd_ge_repr) (simp_all only: of_int_1_le_iff)
  have a0: "0 \<le> a" unfolding a_def by (intro rnd_nonneg) (simp only: of_int_0_le_iff uint_u64)
  have "of_int (uint (td - di)) \<le> (of_int (2 ^ 64) :: rat)"
    using uint_u64(2)[of "td - di"] by (simp only: of_int_le_iff)
  then have a64: "a \<le> 2 ^ 64" unfolding a_def using r64 by (intro rnd_le_repr) simp_all
  define q where "q = rnd64 (a / b)"
  have ab0: "0 \<le> a / b" "a / b \<le> 2 ^ 64"
    using a0 b1 a64 by (simp_all add: divide_le_eq)
  have q0: "0 \<le> q" "q \<le> 2 ^ 64" unfolding q_def using ab0 r64 by (auto intro: rnd_nonneg rnd_le_repr)
  have d: "div64 (Fin a) (Fin b) = Fin q"
    using b1 ab0 by (simp add: q_def) (intro to_f64_finite, simp)
  define u where "u = rnd64 (q * 100)"
  have u: "mul64 (Fin q) (Fin 100) = Fin u" using q0 by (simp add: u_def) (intro to_f64_finite, simp)
  have u71: "0 \<le> u" "u \<le> 2 ^ 71" unfolding u_def using q0 r71 by (auto intro!: rnd_nonneg rnd_le_repr)
  have "u \<le> 100" if "di \<le> td"
  proof -
    have "uint (td - di) \<le> uint td" using that uint_u64(1)[of di] by (simp add: word_le_def uint_sub_if')
    then have "a \<le> b" unfolding a_def b_def by (intro rnd_mono) (simp_all only: of_int_le_iff)
    then have "q \<le> 1" unfolding q_def using b1 r1 by (intro rnd_le_repr) simp_all
    then show ?thesis unfolding u_def using r100 by (intro rnd_le_repr) simp_all
  qed
  moreover have "cpu_usage td di = Fin u" unfolding cpu_usage_def ab d u using False by (simp add: word_gt_0)
  ultimately show ?thesis using u71 by blast
qed (simp add: cpu_usage_def)


text \<open>No reading reaches the entry threshold of Emergency, which is the largest finite value.\<close>

definition below_max :: "f64 \<Rightarrow> bool" where
  "below_max v = (v = NaN \<or> fp_lt v f64_max)"

lemma below_maxI: "v = NaN \<or> fp_le v (Fin (2 ^ 80)) \<Longrightarrow> below_max v"
proof -
  have "(2 :: rat) ^ 80 < 2 ^ 971" by (rule power_strict_increasing) simp_all
  also have "\<dots> \<le> (2 ^ 53 - 1) * 2 ^ 971" by simp
  finally have "fp_lt (Fin (2 ^ 80)) f64_max" unfolding f64_max_def by (simp only: fp_lt_Fin)
  then show "v = NaN \<or> fp_le v (Fin (2 ^ 80)) \<Longrightarrow> below_max v"
    using fp_le_lt_trans by (auto simp: below_max_def)
qed

lemma below_max_max: "below_max a \<Longrightarrow> below_max b \<Longrightarrow> below_max (fp_max a b)"
  by (auto simp: below_max_def fp_max_def)

lemma cpu_usage_below_max: "below_max (cpu_usage td di)"
proof -
  obtain r where r: "cpu_usage td di = Fin r" "r \<le> 2 ^ 71" using cpu_usage_cases by blast
  have "(2 :: rat) ^ 71 \<le> 2 ^ 80" by (rule power_increasing) simp_all
  with r show ?thesis by (intro below_maxI) (simp add: order_trans)
qed

lemma u8_below_max: "fp_le (f64_of_u8 w) (Fin (2 ^ 80))"
proof -
  have "uint w < 2 ^ 8" using uint_bounded[of w] by simp
  then have "of_int (uint w) \<le> (of_int (2 ^ 80) :: rat)" by (simp only: of_int_le_iff) simp
  then show ?thesis by (simp add: f64_of_u8_def)
qed

lemma clamp_below_max: "v \<noteq> NaN \<Longrightarrow> fp_le (fp_clamp v (Fin 0) (Fin 100)) (Fin (2 ^ 80))"
  using fp_clamp_bounds[of "Fin 0" "Fin 100" v] fp_le_trans[of _ "Fin 100" "Fin (2 ^ 80)"] by auto

lemma read_gpu_below_max: "below_max (read_gpu e)"
proof -
  have z: "below_max (Fin 0)" by (rule below_maxI) simp
  show ?thesis
  proof (cases "snd e")
    case (Some p)
    have "below_max v" if "util_pct (fst e) p = Some v" for v
      using that u8_below_max clamp_below_max
      by (cases p) (auto simp: sysfs_util_pct_def jetson_util_pct_def split: if_splits intro!: below_maxI,
          metis fp_clamp_NaN)
    then show ?thesis using Some z by (auto simp: read_gpu_def split: option.splits)
  qed (simp add: read_gpu_def z)
qed

section \<open>The monitor meets the contract\<close>

definition compute_inv :: "compute_monitor \<Rightarrow> compute_monitor \<Rightarrow> bool" where
  "compute_inv m0 m =
     ((well_formed (cm_evaluator m0) \<longrightarrow> well_formed (cm_evaluator m)) \<and> direction (cm_evaluator m) = Ascending \<and>
      thresholds (cm_evaluator m) = thresholds (cm_evaluator m0) \<and>
      emergency (thresholds (cm_evaluator m0)) = f64_max \<and>
      warning_usage_pct m = warning_usage_pct m0 \<and> current (cm_evaluator m) \<noteq> Emergency)"

definition compute_fresh :: "compute_monitor \<Rightarrow> compute_monitor \<Rightarrow> bool" where
  "compute_fresh m0 m =
     (let v = fp_max (last_cpu m) (last_gpu m) in
      (recommended m, cm_reason m) = compute_recommendation (last_cpu m) (last_gpu m) (warning_usage_pct m) \<and>
      (well_formed (cm_evaluator m0) \<longrightarrow>
        severity (cm_evaluator m) v \<le> current (cm_evaluator m) \<and>
        current (cm_evaluator m) \<le> recovery (cm_evaluator m) v))"

lemma evaluate_no_emergency:
  assumes "direction e = Ascending" and "emergency (thresholds e) = f64_max"
    and "current e \<noteq> Emergency" and "below_max v"
  shows "current (fst (evaluate e v)) \<noteq> Emergency"
proof -
  have "\<not> fp_ge v f64_max" using assms(4) by (auto simp: below_max_def fp_lt_def)
  then show ?thesis using assms(1-3)
    by (auto simp: evaluate_def level_ascending_def Let_def split: level.splits)
qed

lemma cpu_max_not_NaN: "fp_max (cpu_usage td di) g \<noteq> NaN"
  using cpu_usage_cases[of td di] by (auto simp: fp_max_def)

lemma compute_read_once_cases:
  obtains (none) m1 r where "compute_read_once e m = (m1, r)" "r \<noteq> Inr True"
      "cm_evaluator m1 = cm_evaluator m" "warning_usage_pct m1 = warning_usage_pct m"
  | (delta) m1 td di where "compute_read_once e m = (m1, Inr True)"
      "cm_evaluator m1 = cm_evaluator m" "warning_usage_pct m1 = warning_usage_pct m"
      "last_cpu m1 = cpu_usage td di" "last_gpu m1 = read_gpu e"
proof (cases "read_cpu_snapshot (fst e) (stat_path m)")
  case (Inr snap)
  show ?thesis
  proof (cases "prev_snapshot m")
    case None
    then show ?thesis using none[of "m\<lparr>prev_snapshot := Some snap\<rparr>" "Inr False"] Inr
      by (simp add: compute_read_once_def)
  next
    case (Some prev)
    then show ?thesis using delta Inr by (simp add: compute_read_once_def Let_def)
  qed
qed (use none in \<open>simp add: compute_read_once_def\<close>)

lemma compute_poll_None: "compute_read_once e m = (m1, r) \<Longrightarrow> r \<noteq> Inr True \<Longrightarrow> compute_poll e m = (m1, None)"
  by (auto simp: compute_poll_def split: sum.splits bool.splits)

interpretation compute: sensor_monitor compute_poll compute_build_signal "compute_inv m0" "compute_fresh m0"
  for m0
proof
  fix m :: compute_monitor and e :: compute_env and s :: system_signal
  show "compute_inv m0 m \<Longrightarrow> compute_inv m0 (fst (compute_poll e m))"
  proof (rule compute_read_once_cases[of e m])
    fix m1 td di assume i: "compute_inv m0 m" and d: "compute_read_once e m = (m1, Inr True)"
      "cm_evaluator m1 = cm_evaluator m" "warning_usage_pct m1 = warning_usage_pct m"
      "last_cpu m1 = cpu_usage td di" "last_gpu m1 = read_gpu e"
    have "below_max (fp_max (last_cpu m1) (last_gpu m1))"
      using d by (simp add: below_max_max cpu_usage_below_max read_gpu_below_max)
    then have "current (fst (evaluate (cm_evaluator m) (fp_max (last_cpu m1) (last_gpu m1)))) \<noteq> Emergency"
      using i by (intro evaluate_no_emergency) (auto simp: compute_inv_def)
    then show "compute_inv m0 (fst (compute_poll e m))"
      using i d(1-3) by (simp add: compute_poll_def Let_def compute_inv_def hev.eval_wf split: prod.splits)
  qed (simp add: compute_poll_None compute_inv_def)
  show "snd (compute_poll e m) = Some s \<Longrightarrow> s = compute_build_signal (fst (compute_poll e m))"
    by (auto simp: compute_poll_def Let_def split: sum.splits prod.splits bool.splits)
  show "compute_inv m0 m \<Longrightarrow> snd (compute_poll e m) = Some s \<Longrightarrow> compute_fresh m0 (fst (compute_poll e m))"
  proof (rule compute_read_once_cases[of e m])
    fix m1 td di assume i: "compute_inv m0 m" and d: "compute_read_once e m = (m1, Inr True)"
      "cm_evaluator m1 = cm_evaluator m" "warning_usage_pct m1 = warning_usage_pct m"
      "last_cpu m1 = cpu_usage td di" "last_gpu m1 = read_gpu e"
    have "fp_max (last_cpu m1) (last_gpu m1) \<noteq> NaN" using d by (simp add: cpu_max_not_NaN)
    then show "compute_fresh m0 (fst (compute_poll e m))"
      using i d(1-3) by (simp add: compute_poll_def Let_def compute_inv_def compute_fresh_def
          hev.eval_covers hev.eval_bounded hev.enter_frame hev.recover_frame split: prod.splits)
  qed (simp add: compute_poll_None)
qed

section \<open>Properties\<close>

text \<open>C31: No run of a compute monitor ever reports Emergency: whatever the configuration, the counters
  and the GPU report, each signal carries a level below Emergency together with the
  recommendation for its two usages; and when the thresholds of the configuration are in order,
  warning not above critical and a finite hysteresis that is not negative, which nothing in the
  configuration checks, that level lies in the band of the larger of the two usages.\<close>

theorem compute_run_signals_sound:
  assumes "s \<in> set (snd (compute_run (compute_monitor_new cfg p) ts))"
  shows "\<exists>l rec rs cpu gpu. s = ComputeGuidance l rec rs cpu gpu \<and> l < Emergency \<and>
     (rec, rs) = compute_recommendation cpu gpu (cpu_warning_pct cfg) \<and>
     (well_formed (cm_evaluator (compute_monitor_new cfg p)) \<longrightarrow>
       severity (cm_evaluator (compute_monitor_new cfg p)) (fp_max cpu gpu) \<le> l \<and>
       l \<le> recovery (cm_evaluator (compute_monitor_new cfg p)) (fp_max cpu gpu))"
proof -
  define m0 where "m0 = compute_monitor_new cfg p"
  have "compute_inv m0 m0"
    by (simp add: m0_def compute_inv_def compute_monitor_new_def evaluator_new_def)
  from compute.run_signals[OF this assms[folded m0_def, unfolded compute_run_def]] obtain m' where
    i: "compute_inv m0 m'" and f: "compute_fresh m0 m'" and s: "s = compute_build_signal m'" by blast
  have dir: "direction (cm_evaluator m0) = Ascending"
    by (simp add: m0_def compute_monitor_new_def evaluator_new_def)
  have "severity (cm_evaluator m') = severity (cm_evaluator m0)"
    "recovery (cm_evaluator m') = recovery (cm_evaluator m0)"
    using i dir by (auto simp: compute_inv_def severity_def recovery_def)
  moreover have "current (cm_evaluator m') < Emergency"
    using i by (cases "current (cm_evaluator m')") (simp_all add: compute_inv_def less_level_def)
  moreover have "warning_usage_pct m' = cpu_warning_pct cfg"
    using i by (simp add: compute_inv_def m0_def compute_monitor_new_def)
  ultimately show ?thesis
    using f s by (auto simp: compute_fresh_def compute_build_signal_def Let_def m0_def [symmetric])
qed

definition stat_files :: "string \<Rightarrow> file_system" where
  "stat_files content =
     \<lparr> read_to_string = (\<lambda>p. if p = ''/proc/stat'' then Some content else None),
       path_exists = (\<lambda>_. False), read_dir = (\<lambda>_. None) \<rparr>"

definition stat_tick :: "string \<Rightarrow> compute_env tick" where
  "stat_tick content =
     \<lparr> shutdown = False, env = (stat_files content, Some NullGpu), receiver_alive = True \<rparr>"

lemmas parse_number_simps = parse_u64_def parse_unsigned_def parse_digits_def is_digit_def
  digits_val_def digit_val_def

lemma stat_snapshots:
  "read_cpu_snapshot (stat_files ''cpu 100 0 50 800 50'') ''/proc/stat'' = Inr \<lparr> snap_total = 1000, snap_idle = 800 \<rparr>"
  "read_cpu_snapshot (stat_files ''cpu 100 0 50 860 0'') ''/proc/stat'' = Inr \<lparr> snap_total = 1010, snap_idle = 860 \<rparr>"
  by (simp_all add: read_cpu_snapshot_def stat_files_def str_lines_def split_whitespace_def is_ws_def
      parse_number_simps map_filter_def Let_def)

lemma stat_run_sends:
  "\<exists>l rec rs. snd (compute_run (compute_monitor_new compute_monitor_config_default 1000)
     [stat_tick ''cpu 100 0 50 800 50'', stat_tick ''cpu 100 0 50 860 0'']) =
   [ComputeGuidance l rec rs (cpu_usage 10 60) (Fin 0)]"
  by (simp add: compute_run_def compute_poll_def compute_read_once_def stat_tick_def compute_monitor_new_def
      stat_snapshots Let_def read_gpu_def compute_build_signal_def saturating_sub_def split: prod.splits)

lemma default_compute_wf: "well_formed (cm_evaluator (compute_monitor_new compute_monitor_config_default p))"
  using to_f64_int[of 70] to_f64_int[of 90] is_f64_max le_f64_max[of 90]
  by (simp add: compute_monitor_new_def compute_monitor_config_default_def evaluator_new_def well_formed_def
      ordered_up_def)

theorem compute_run_signals_sound_witness:
  "\<exists>l rec rs cpu gpu. snd (compute_run (compute_monitor_new compute_monitor_config_default 1000)
     [stat_tick ''cpu 100 0 50 800 50'', stat_tick ''cpu 100 0 50 860 0'']) =
   [ComputeGuidance l rec rs cpu gpu] \<and> l < Emergency \<and>
   severity (cm_evaluator (compute_monitor_new compute_monitor_config_default 1000)) (fp_max cpu gpu) \<le> l"
proof -
  obtain s where s: "snd (compute_run (compute_monitor_new compute_monitor_config_default 1000)
     [stat_tick ''cpu 100 0 50 800 50'', stat_tick ''cpu 100 0 50 860 0'']) = [s]"
    using stat_run_sends by blast
  then have "s \<in> set (snd (compute_run (compute_monitor_new compute_monitor_config_default 1000)
     [stat_tick ''cpu 100 0 50 800 50'', stat_tick ''cpu 100 0 50 860 0'']))" by simp
  from compute_run_signals_sound[OF this] default_compute_wf s show ?thesis by auto
qed

text \<open>The usage derived from two snapshots is a percentage whenever the idle time grew by no
  more than the total.\<close>

lemma cpu_usage_percentage:
  assumes "idle_delta \<le> total_delta"
  shows "fp_le (Fin 0) (cpu_usage total_delta idle_delta) \<and> fp_le (cpu_usage total_delta idle_delta) (Fin 100)"
  using cpu_usage_cases[of total_delta idle_delta] assms by auto

theorem cpu_usage_percentage_witness:
  "fp_le (Fin 0) (cpu_usage 200 50) \<and> fp_le (cpu_usage 200 50) (Fin 100)"
  by (rule cpu_usage_percentage) simp

lemma cpu_usage_wraps: "fp_lt (Fin 100) (cpu_usage 10 60)"
proof -
  have a: "f64_of_u64 (10 - 60) = Fin (2 ^ 64)" by code_simp
  have b: "f64_of_u64 10 = Fin 10" by code_simp
  have r60: "repr64 (2 ^ 60)" unfolding repr_fmt_def by (intro exI[of _ 1] exI[of _ 60]) simp
  have r64: "repr64 (2 ^ 64)" unfolding repr_fmt_def by (intro exI[of _ 1] exI[of _ 64]) simp
  define q where "q = rnd64 (2 ^ 64 / 10)"
  have q: "2 ^ 60 \<le> q" "q \<le> 2 ^ 64" unfolding q_def using r60 r64 by (auto intro!: rnd_ge_repr rnd_le_repr)
  have d: "div64 (Fin (2 ^ 64)) (Fin 10) = Fin q"
    unfolding q_def using to_f64_finite[of "2 ^ 64 / 10"] by simp
  have "mul64 (Fin q) (Fin 100) = Fin (rnd64 (q * 100))"
    using q by simp (intro to_f64_finite, simp)
  moreover have "2 ^ 60 \<le> rnd64 (q * 100)" using r60 q by (intro rnd_ge_repr) simp_all
  moreover have "cpu_usage 10 60 = mul64 (Fin q) (Fin 100)"
    unfolding cpu_usage_def a b d by simp
  ultimately show ?thesis by simp
qed

text \<open>When the idle counter grows by more than the total (an iowait counter that falls back),
  the unsigned difference wraps and the monitor reports a usage far above 100 percent.\<close>

lemma compute_usage_wraps:
  "\<exists>l rec rs cpu. snd (compute_run (compute_monitor_new compute_monitor_config_default 1000)
     [stat_tick ''cpu 100 0 50 800 50'', stat_tick ''cpu 100 0 50 860 0'']) =
   [ComputeGuidance l rec rs cpu (Fin 0)] \<and> fp_lt (Fin 100) cpu"
  using stat_run_sends cpu_usage_wraps by metis

text \<open>The recommendation never points at the more loaded side: a backend is recommended only
  when its own usage is below the warning threshold, or is the smaller of the two; with both
  sides loaded, or within ten points of each other, neither is preferred.\<close>

lemma recommendation_prefers_idle:
  assumes "cpu \<noteq> NaN" and "gpu \<noteq> NaN" and "w \<noteq> NaN"
  shows "case compute_recommendation cpu gpu w of (rec, rs) \<Rightarrow>
     (rec = Gpu \<longrightarrow> fp_lt gpu w \<and> fp_le gpu cpu) \<and>
     (rec = Cpu \<longrightarrow> fp_lt cpu w \<and> fp_lt cpu gpu) \<and>
     (rs = BothLoaded \<longleftrightarrow> fp_le w cpu \<and> fp_le w gpu)"
proof -
  have lt: "\<not> fp_le w x \<Longrightarrow> x \<noteq> NaN \<Longrightarrow> fp_lt x w" for x using fp_linear[of w x] assms(3) by blast
  have "fp_le w cpu \<Longrightarrow> \<not> fp_le w gpu \<Longrightarrow> fp_le gpu cpu"
    using lt[of gpu] assms(2) fp_lt_imp_le[of gpu w] fp_le_trans[of gpu w cpu] by blast
  moreover have "fp_le w gpu \<Longrightarrow> \<not> fp_le w cpu \<Longrightarrow> fp_lt cpu gpu"
    using lt[of cpu] assms(1) fp_lt_le_trans[of cpu w gpu] by blast
  moreover have "\<not> fp_lt cpu gpu \<Longrightarrow> fp_le gpu cpu" using assms(1,2) fp_not_lt by blast
  ultimately show ?thesis
    using lt[of gpu] lt[of cpu] assms
    by (auto simp: compute_recommendation_def split: bool.splits)
qed

theorem recommendation_prefers_idle_witness:
  "case compute_recommendation (Fin 95) (Fin 20) (Fin 70) of (rec, rs) \<Rightarrow>
     (rec = Gpu \<longrightarrow> fp_lt (Fin 20) (Fin 70) \<and> fp_le (Fin 20) (Fin 95)) \<and>
     (rec = Cpu \<longrightarrow> fp_lt (Fin 95) (Fin 70) \<and> fp_lt (Fin 95) (Fin 20)) \<and>
     (rs = BothLoaded \<longleftrightarrow> fp_le (Fin 70) (Fin 95) \<and> fp_le (Fin 70) (Fin 20))"
  by (rule recommendation_prefers_idle) simp_all

end
