(* ===== verification/Energy_Monitor.thy ===== *)
theory Energy_Monitor
  imports Monitor_Base
begin

text \<open>
  The energy monitor (\<^verbatim>\<open>src/monitor/energy.rs\<close>): battery discovery, the battery reading, the level
  by descending thresholds with a fixed margin of two points, and the forced reset to Normal
  while charging.
\<close>

section \<open>Definitions\<close>

record power_budgets =
  warning_mw :: u32
  critical_mw :: u32
  emergency_mw :: u32

record energy_monitor =
  em_poll_interval_ms :: u64
  en_evaluator :: threshold_evaluator
  em_ignore_when_charging :: bool
  budgets :: power_budgets
  battery_path :: "string option"
  last_charging :: bool

text \<open>The first entry of the directory whose type file says battery, in any case, and that has a
  capacity file.  A directory listing holds the paths of its readable entries.\<close>

definition is_battery :: "file_system \<Rightarrow> string \<Rightarrow> bool" where
  "is_battery fs path =
     (case read_to_string fs (path @ ''/type'') of
        Some device_type \<Rightarrow>
          map to_lower (trim device_type) = ''battery'' \<and> path_exists fs (path @ ''/capacity'')
      | None \<Rightarrow> False)"

definition find_battery_path :: "file_system \<Rightarrow> string \<Rightarrow> string option" where
  "find_battery_path fs base =
     (case read_dir fs base of None \<Rightarrow> None | Some entries \<Rightarrow> List.find (is_battery fs) entries)"

definition energy_monitor_new :: "file_system \<Rightarrow> energy_monitor_config \<Rightarrow> u64 \<Rightarrow> energy_monitor" where
  "energy_monitor_new fs cfg default_poll_ms =
     \<lparr> em_poll_interval_ms = (case en_poll_interval_ms cfg of Some p \<Rightarrow> p | None \<Rightarrow> default_poll_ms),
       en_evaluator = evaluator_new Descending
         \<lparr> warning = en_warning_pct cfg, critical = en_critical_pct cfg,
           emergency = en_emergency_pct cfg, hysteresis = Fin 2 \<rparr>,
       em_ignore_when_charging = ignore_when_charging cfg,
       budgets = \<lparr> warning_mw = warning_power_budget_mw cfg, critical_mw = critical_power_budget_mw cfg,
                   emergency_mw = emergency_power_budget_mw cfg \<rparr>,
       battery_path = find_battery_path fs ''/sys/class/power_supply'',
       last_charging = False \<rparr>"

definition evaluate_energy ::
  "energy_monitor \<Rightarrow> f64 option \<Rightarrow> bool \<Rightarrow> energy_monitor \<times> level option" where
  "evaluate_energy m0 battery_pct charging =
     (let m = m0\<lparr>last_charging := charging\<rparr> in
      if charging \<and> em_ignore_when_charging m then
        (if current (en_evaluator m) \<noteq> Normal
         then (m\<lparr>en_evaluator := fst (evaluate (en_evaluator m) (Fin 100))\<rparr>, Some Normal)
         else (m, None))
      else case battery_pct of
        Some pct \<Rightarrow> (case evaluate (en_evaluator m) pct of (ev, r) \<Rightarrow> (m\<lparr>en_evaluator := ev\<rparr>, r))
      | None \<Rightarrow> (m, None))"

definition energy_build_signal :: "energy_monitor \<Rightarrow> system_signal" where
  "energy_build_signal m =
     (case (case current (en_evaluator m) of
              Normal \<Rightarrow> if last_charging m then (Charging, 0) else (NoReason, 0)
            | Warning \<Rightarrow> (BatteryLow, warning_mw (budgets m))
            | Critical \<Rightarrow> (BatteryCritical, critical_mw (budgets m))
            | Emergency \<Rightarrow> (BatteryCritical, emergency_mw (budgets m))) of
        (reason, mw) \<Rightarrow> EnergyConstraint (current (en_evaluator m)) reason mw)"

definition battery_capacity :: "file_system \<Rightarrow> string \<Rightarrow> f64 option" where
  "battery_capacity fs path =
     (case read_to_string fs (path @ ''/capacity'') of Some s \<Rightarrow> parse_f64 (trim s) | None \<Rightarrow> None)"

definition battery_charging :: "file_system \<Rightarrow> string \<Rightarrow> bool" where
  "battery_charging fs path =
     (case read_to_string fs (path @ ''/status'') of
        Some s \<Rightarrow> (let status = map to_lower (trim s) in status = ''charging'' \<or> status = ''full'')
      | None \<Rightarrow> False)"

definition read_battery_state :: "file_system \<Rightarrow> string \<Rightarrow> f64 option \<times> bool \<times> u32 option" where
  "read_battery_state fs path =
     (battery_capacity fs path, battery_charging fs path,
      case read_to_string fs (path @ ''/power_now'') of
        Some s \<Rightarrow> map_option (\<lambda>uw. ucast (uw div 1000)) (parse_u64 (trim s))
      | None \<Rightarrow> None)"

definition energy_poll :: "file_system \<Rightarrow> energy_monitor \<Rightarrow> energy_monitor \<times> system_signal option" where
  "energy_poll fs m =
     (let (battery_pct, charging, power_mw) =
        (case battery_path m of
           Some path \<Rightarrow> read_battery_state fs path
         | None \<Rightarrow> (None, False, None));
        m' = fst (evaluate_energy m battery_pct charging)
      in (m', Some (energy_build_signal m')))"

definition energy_run :: "energy_monitor \<Rightarrow> file_system tick list \<Rightarrow> energy_monitor \<times> system_signal list" where
  "energy_run = poll_loop energy_poll"

definition energy_initial_signal :: "energy_monitor \<Rightarrow> system_signal option" where
  "energy_initial_signal m = Some (energy_build_signal m)"

section \<open>The monitor meets the contract\<close>

definition energy_inv :: "energy_monitor \<Rightarrow> energy_monitor \<Rightarrow> bool" where
  "energy_inv m0 m =
     (well_formed (en_evaluator m) \<and> direction (en_evaluator m) = direction (en_evaluator m0) \<and>
      thresholds (en_evaluator m) = thresholds (en_evaluator m0) \<and>
      em_ignore_when_charging m = em_ignore_when_charging m0 \<and> budgets m = budgets m0 \<and>
      battery_path m = battery_path m0)"

text \<open>When charging resets the level, and 100 percent is past the recovery point, a freshly polled
  monitor on charge is at Normal.\<close>

definition energy_fresh :: "energy_monitor \<Rightarrow> bool" where
  "energy_fresh m =
     (last_charging m \<and> em_ignore_when_charging m \<and> recovery (en_evaluator m) (Fin 100) = Normal \<longrightarrow>
      current (en_evaluator m) = Normal)"

lemma evaluate_energy_frame:
  "energy_inv m0 m \<Longrightarrow> energy_inv m0 (fst (evaluate_energy m pct ch))"
  by (auto simp: energy_inv_def evaluate_energy_def Let_def hev.eval_wf split: option.splits prod.splits)
    (metis fst_conv evaluate_frame hev.eval_wf)+

lemma level_le_Normal: "l \<le> Normal \<Longrightarrow> l = Normal"
  by (cases l) (simp_all add: less_eq_level_def)

lemma evaluate_full_resets:
  assumes "well_formed e" and "recovery e (Fin 100) = Normal"
  shows "current (fst (evaluate e (Fin 100))) = Normal"
  using hev.eval_bounded[of e "Fin 100"] assms level_le_Normal by simp

lemma evaluate_energy_charging:
  assumes "energy_inv m0 m" and "em_ignore_when_charging m0" and "recovery (en_evaluator m0) (Fin 100) = Normal"
  shows "current (en_evaluator (fst (evaluate_energy m pct True))) = Normal"
    and "last_charging (fst (evaluate_energy m pct True))"
proof -
  have "recovery (en_evaluator m) (Fin 100) = Normal"
    using assms by (simp add: energy_inv_def recovery_def)
  then show "current (en_evaluator (fst (evaluate_energy m pct True))) = Normal"
    using assms by (simp add: evaluate_energy_def Let_def evaluate_full_resets energy_inv_def)
  show "last_charging (fst (evaluate_energy m pct True))"
    using assms by (simp add: evaluate_energy_def Let_def energy_inv_def)
qed

interpretation energy: sensor_monitor energy_poll energy_build_signal "energy_inv m0" energy_fresh
  for m0
proof
  fix m :: energy_monitor and fs :: file_system and s :: system_signal
  show "energy_inv m0 m \<Longrightarrow> energy_inv m0 (fst (energy_poll fs m))"
    by (simp add: energy_poll_def Let_def evaluate_energy_frame split: prod.splits)
  show "snd (energy_poll fs m) = Some s \<Longrightarrow> s = energy_build_signal (fst (energy_poll fs m))"
    by (simp add: energy_poll_def Let_def split: prod.splits)
  assume "energy_inv m0 m"
  then have i: "energy_inv m m" by (simp add: energy_inv_def)
  have "energy_fresh (fst (evaluate_energy m pct ch))" for pct ch
  proof -
    have f: "energy_inv m (fst (evaluate_energy m pct ch))" using i by (rule evaluate_energy_frame)
    have l: "last_charging (fst (evaluate_energy m pct ch)) = ch"
      by (simp add: evaluate_energy_def Let_def split: option.splits prod.splits)
    show ?thesis
      unfolding energy_fresh_def l
    proof (intro impI)
      assume a0: "ch \<and> em_ignore_when_charging (fst (evaluate_energy m pct ch)) \<and>
        recovery (en_evaluator (fst (evaluate_energy m pct ch))) (Fin 100) = Normal"
      then have ch by simp
      have "recovery (en_evaluator (fst (evaluate_energy m pct ch))) = recovery (en_evaluator m)"
        using f by (auto simp: energy_inv_def recovery_def)
      then have "em_ignore_when_charging m" "recovery (en_evaluator m) (Fin 100) = Normal"
        using f a0 by (auto simp: energy_inv_def)
      then show "current (en_evaluator (fst (evaluate_energy m pct ch))) = Normal"
        using evaluate_energy_charging(1)[OF i] \<open>ch\<close> by simp
    qed
  qed
  then show "energy_fresh (fst (energy_poll fs m))"
    by (simp add: energy_poll_def Let_def split: prod.splits)
qed

section \<open>Properties\<close>

text \<open>The reason and the budget that go with a level.\<close>

fun energy_reason_ok :: "power_budgets \<Rightarrow> system_signal \<Rightarrow> bool" where
  "energy_reason_ok b (EnergyConstraint l r mw) =
     (case l of
        Normal \<Rightarrow> (r = Charging \<or> r = NoReason) \<and> mw = 0
      | Warning \<Rightarrow> r = BatteryLow \<and> mw = warning_mw b
      | Critical \<Rightarrow> r = BatteryCritical \<and> mw = critical_mw b
      | Emergency \<Rightarrow> r = BatteryCritical \<and> mw = emergency_mw b)"
| "energy_reason_ok b _ = False"

lemma energy_build_signal_ok: "energy_reason_ok (budgets m) (energy_build_signal m)"
  by (cases "current (en_evaluator m)") (simp_all add: energy_build_signal_def)

lemma energy_run_charging:
  assumes "energy_inv m0 m" and "battery_path m0 = Some path" and "em_ignore_when_charging m0"
    and "recovery (en_evaluator m0) (Fin 100) = Normal"
    and "list_all (\<lambda>t. battery_charging (env t) path) ts"
  shows "list_all (\<lambda>s. s = EnergyConstraint Normal Charging 0) (snd (energy_run m ts))"
  using assms(1,5)
proof (induction ts arbitrary: m)
  case (Cons t ts)
  define m' where "m' = fst (energy_poll (env t) m)"
  have i: "energy_inv m0 m'" unfolding m'_def using Cons.prems(1) by (rule energy.poll_inv)
  have p: "energy_poll (env t) m = (m', Some (energy_build_signal m'))"
    by (simp add: m'_def energy_poll_def Let_def split: prod.splits)
  have "battery_path m = Some path" using Cons.prems(1) assms(2) by (simp add: energy_inv_def)
  then have m': "m' = fst (evaluate_energy m (battery_capacity (env t) path) True)"
    using Cons.prems(2) by (simp add: m'_def energy_poll_def read_battery_state_def Let_def)
  have "energy_build_signal m' = EnergyConstraint Normal Charging 0"
    unfolding energy_build_signal_def m'
    using evaluate_energy_charging[OF Cons.prems(1) assms(3,4)] by simp
  then show ?case using Cons i p by (simp add: energy_run_def split: prod.splits)
qed (simp add: energy_run_def)

text \<open>C30: A battery on charge overrides any level, when the monitor is configured to ignore levels while
  charging, its thresholds are in order, and 100 percent is past the recovery threshold of the
  warning level: whatever level it had reached, a run of iterations that all find the battery
  charging sends only Normal signals with the reason Charging and no power budget.\<close>

theorem energy_charging_forces_normal:
  assumes "well_formed (en_evaluator m)" and "battery_path m = Some path" and "em_ignore_when_charging m"
    and "recovery (en_evaluator m) (Fin 100) = Normal"
    and "list_all (\<lambda>t. battery_charging (env t) path) ts"
  shows "list_all (\<lambda>s. s = EnergyConstraint Normal Charging 0) (snd (energy_run m ts))"
  by (rule energy_run_charging[OF _ assms(2-5)]) (simp add: energy_inv_def assms(1))

definition energy_example_files :: file_system where
  "energy_example_files =
     \<lparr> read_to_string = (\<lambda>p. if p = ''/b/status'' then Some ''Charging'' else if p = ''/b/capacity'' then Some ''3'' else None),
       path_exists = (\<lambda>_. False), read_dir = (\<lambda>_. None) \<rparr>"

definition energy_example :: "f64 \<Rightarrow> level \<Rightarrow> energy_monitor" where
  "energy_example w l =
     \<lparr> em_poll_interval_ms = 1000,
       en_evaluator = \<lparr> direction = Descending,
         thresholds = \<lparr> warning = w, critical = Fin 15, emergency = Fin 5, hysteresis = Fin 2 \<rparr>, current = l \<rparr>,
       em_ignore_when_charging = True,
       budgets = \<lparr> warning_mw = 3000, critical_mw = 1500, emergency_mw = 500 \<rparr>,
       battery_path = Some ''/b'', last_charging = False \<rparr>"

abbreviation "energy_example_tick \<equiv>
  \<lparr> shutdown = False, env = energy_example_files, receiver_alive = True \<rparr>"

lemma energy_example_charging: "battery_charging energy_example_files ''/b''"
  by code_simp

theorem energy_charging_forces_normal_witness:
  "snd (energy_run (energy_example (Fin 30) Emergency) [energy_example_tick]) = [EnergyConstraint Normal Charging 0]"
proof -
  let ?m = "energy_example (Fin 30) Emergency"
  have w: "well_formed (en_evaluator ?m)"
    using to_f64_int[of "-30"] to_f64_int[of "-15"] to_f64_int[of "-5"]
    by (simp add: energy_example_def well_formed_def ordered_up_def)
  have r: "recovery (en_evaluator ?m) (Fin 100) = Normal"
    using to_f64_int[of 32] to_f64_int[of 17] to_f64_int[of 7]
    by (simp add: energy_example_def recovery_def)
  have "list_all (\<lambda>s. s = EnergyConstraint Normal Charging 0) (snd (energy_run ?m [energy_example_tick]))"
    using energy_example_charging
    by (intro energy_charging_forces_normal[of _ "''/b''"] w r) (simp_all add: energy_example_def)
  moreover have "length (snd (energy_run ?m [energy_example_tick])) = 1"
    by (simp add: energy_run_def energy_poll_def Let_def split: prod.splits)
  ultimately show ?thesis by (auto simp: length_Suc_conv)
qed

text \<open>Every signal of a run carries the reason and the power budget of its level.\<close>

lemma energy_run_budgets:
  assumes "well_formed (en_evaluator m)"
  shows "list_all (energy_reason_ok (budgets m)) (snd (energy_run m ts))"
  unfolding list_all_iff
proof
  fix s assume "s \<in> set (snd (energy_run m ts))"
  moreover have "energy_inv m m" by (simp add: energy_inv_def assms)
  ultimately obtain m' where "energy_inv m m'" "s = energy_build_signal m'"
    using energy.run_signals[of m m s ts] unfolding energy_run_def by blast
  then show "energy_reason_ok (budgets m) s"
    using energy_build_signal_ok[of m'] by (simp add: energy_inv_def)
qed

theorem energy_run_budgets_witness:
  "list_all (energy_reason_ok (budgets (energy_example (Fin 30) Critical)))
     (snd (energy_run (energy_example (Fin 30) Critical) [energy_example_tick]))"
proof (rule energy_run_budgets)
  show "well_formed (en_evaluator (energy_example (Fin 30) Critical))"
    using to_f64_int[of "-30"] to_f64_int[of "-15"] to_f64_int[of "-5"]
    by (simp add: energy_example_def well_formed_def ordered_up_def)
qed

text \<open>The charging reset evaluates the value 100, so a warning threshold of 98 or more defeats
  it: the operation reports Normal while the monitor stays at Warning.\<close>

theorem charging_reset_incomplete:
  "case evaluate_energy (energy_example (Fin 99) Emergency) (Some (Fin 3)) True of
     (m', reported) \<Rightarrow> reported = Some Normal \<and> current (en_evaluator m') = Warning"
  using to_f64_int[of 101] to_f64_int[of 17] to_f64_int[of 7]
  by (simp add: energy_example_def evaluate_energy_def evaluate_def level_descending_def Let_def level_simps)

end
