(* ===== verification/External_Monitor.thy ===== *)
theory External_Monitor
  imports Monitor_Base "HOL-Library.Sublist"
begin

text \<open>
  The signal injection monitor (\<^verbatim>\<open>src/monitor/external.rs\<close>).  The JSON reader is the parameter
  \<^term>\<open>from_json\<close>; a connection is the sequence of what the reading loop meets: the shutdown flag
  after each line, the line or a read error, and whether the receiver still listens.
\<close>

section \<open>Definitions\<close>

datatype external_transport = UnixSocket string | Tcp string | Stdin

definition external_monitor_new :: "external_monitor_config \<Rightarrow> external_transport" where
  "external_monitor_new cfg =
     (let t = ext_transport cfg in
      if t = ''stdin'' \<or> t = ''-'' then Stdin
      else case strip_prefix ''unix:'' t of
        Some path \<Rightarrow> UnixSocket path
      | None \<Rightarrow>
          (case strip_prefix ''tcp:'' t of
             Some addr \<Rightarrow> Tcp addr
           | None \<Rightarrow> Stdin))"

record line_event =
  ev_shutdown :: bool
  ev_line :: "string res"
  ev_receiver :: bool

fun run_with_reader ::
  "(string \<Rightarrow> system_signal res) \<Rightarrow> line_event list \<Rightarrow> system_signal list" where
  "run_with_reader from_json [] = []"
| "run_with_reader from_json (ev # evs) =
     (if ev_shutdown ev then []
      else case ev_line ev of
        Inl e \<Rightarrow> []
      | Inr text0 \<Rightarrow>
          (let text = trim text0 in
           if text = [] then run_with_reader from_json evs
           else case from_json text of
             Inr signal \<Rightarrow> if ev_receiver ev then signal # run_with_reader from_json evs else []
           | Inl e \<Rightarrow> run_with_reader from_json evs))"

text \<open>One turn of the accept loop: the shutdown flag, then a connection (whose switch to blocking
  mode may fail), nothing yet, or an accept error.\<close>

datatype accept_result = Accepted bool "line_event list" | WouldBlock | AcceptErr string

fun accept_loop ::
  "(string \<Rightarrow> system_signal res) \<Rightarrow> (bool \<times> accept_result) list \<Rightarrow> system_signal list \<times> unit res" where
  "accept_loop from_json [] = ([], Inr ())"
| "accept_loop from_json ((sd, r) # rs) =
     (if sd then ([], Inr ())
      else case r of
        Accepted blocking_ok evs \<Rightarrow>
          if \<not> blocking_ok then ([], Inl ''set_nonblocking'')
          else apfst ((@) (run_with_reader from_json evs)) (accept_loop from_json rs)
      | WouldBlock \<Rightarrow> accept_loop from_json rs
      | AcceptErr e \<Rightarrow> ([], Inr ()))"

definition run_unix_socket ::
  "(string \<Rightarrow> system_signal res) \<Rightarrow> bool \<Rightarrow> (bool \<times> accept_result) list \<Rightarrow> system_signal list \<times> unit res" where
  "run_unix_socket from_json bind_ok rs =
     (if \<not> bind_ok then ([], Inl ''bind'') else accept_loop from_json rs)"

definition run_tcp_socket ::
  "(string \<Rightarrow> system_signal res) \<Rightarrow> bool \<Rightarrow> (bool \<times> accept_result) list \<Rightarrow> system_signal list \<times> unit res" where
  "run_tcp_socket from_json bind_ok rs =
     (if \<not> bind_ok then ([], Inl ''bind'') else accept_loop from_json rs)"

definition external_run ::
  "(string \<Rightarrow> system_signal res) \<Rightarrow> external_transport \<Rightarrow> bool \<Rightarrow> line_event list \<Rightarrow>
   (bool \<times> accept_result) list \<Rightarrow> system_signal list \<times> unit res" where
  "external_run from_json tr bind_ok evs rs =
     (case tr of
        Stdin \<Rightarrow> (run_with_reader from_json evs, Inr ())
      | UnixSocket path \<Rightarrow> run_unix_socket from_json bind_ok rs
      | Tcp addr \<Rightarrow> run_tcp_socket from_json bind_ok rs)"

definition external_initial_signal :: "external_transport \<Rightarrow> system_signal option" where
  "external_initial_signal m = None"

section \<open>Properties\<close>

text \<open>The signals a sequence of lines spells.\<close>

definition line_signal :: "(string \<Rightarrow> system_signal res) \<Rightarrow> line_event \<Rightarrow> system_signal option" where
  "line_signal from_json ev =
     (case ev_line ev of
        Inl e \<Rightarrow> None
      | Inr text \<Rightarrow>
          if trim text = [] then None
          else (case from_json (trim text) of Inr s \<Rightarrow> Some s | Inl e \<Rightarrow> None))"

definition spelled :: "(string \<Rightarrow> system_signal res) \<Rightarrow> line_event list \<Rightarrow> system_signal list" where
  "spelled from_json evs = List.map_filter (line_signal from_json) evs"

lemma spelled_simps [simp]:
  "spelled from_json [] = []"
  "spelled from_json (ev # evs) =
     (case line_signal from_json ev of None \<Rightarrow> spelled from_json evs | Some s \<Rightarrow> s # spelled from_json evs)"
  by (simp_all add: spelled_def map_filter_def split: option.splits)

definition undisturbed :: "line_event \<Rightarrow> bool" where
  "undisturbed ev = (\<not> ev_shutdown ev \<and> \<not> isl (ev_line ev) \<and> ev_receiver ev)"

lemma run_with_reader_prefix: "prefix (run_with_reader from_json evs) (spelled from_json evs)"
  by (induction evs) (auto simp: line_signal_def Let_def split: sum.splits)

lemma run_with_reader_all:
  "list_all undisturbed evs \<Longrightarrow> run_with_reader from_json evs = spelled from_json evs"
  by (induction evs) (auto simp: line_signal_def undisturbed_def Let_def split: sum.splits)

text \<open>The injection monitor invents, repeats and reorders nothing: what it forwards is a prefix
  of the signals its lines spell, and while nothing disturbs it (no shutdown, no read error, a
  receiver that listens) it is all of them; blank and malformed lines are skipped.\<close>

theorem external_forwards_lines:
  "prefix (run_with_reader from_json evs) (spelled from_json evs) \<and>
   (list_all undisturbed evs \<longrightarrow> run_with_reader from_json evs = spelled from_json evs)"
  using run_with_reader_prefix run_with_reader_all by blast

definition example_lines :: "line_event list" where
  "example_lines = map (\<lambda>l. \<lparr> ev_shutdown = False, ev_line = Inr l, ev_receiver = True \<rparr>)
     ['' a '', '''', ''junk'', ''b'']"

definition example_json :: "string \<Rightarrow> system_signal res" where
  "example_json t =
     (if t = ''a'' then Inr (EnergyConstraint Normal Charging 0)
      else if t = ''b'' then Inr (EnergyConstraint Warning BatteryLow 3000) else Inl ''bad'')"

theorem external_forwards_lines_witness:
  "run_with_reader example_json example_lines =
   [EnergyConstraint Normal Charging 0, EnergyConstraint Warning BatteryLow 3000]"
proof -
  have "list_all undisturbed example_lines" by (simp add: example_lines_def undisturbed_def)
  with external_forwards_lines[of example_json example_lines]
  have "run_with_reader example_json example_lines = spelled example_json example_lines" by blast
  also have "\<dots> = [EnergyConstraint Normal Charging 0, EnergyConstraint Warning BatteryLow 3000]"
    by (simp add: example_lines_def line_signal_def example_json_def trim_def trim_start_def trim_end_def is_ws_def)
  finally show ?thesis .
qed

end
