(* ===== verification/Clock.thy ===== *)
theory Clock
  imports Signal
begin

text \<open>
  Logical time (\<^verbatim>\<open>src/clock.rs\<close>).  A \<^verbatim>\<open>Duration\<close> is its number of nanoseconds, at most the number a
  64-bit count of seconds allows; a logical instant is the duration since the start of the
  process.
\<close>

section \<open>Durations\<close>

type_synonym duration = nat

definition NANOS_PER_SEC :: nat where
  "NANOS_PER_SEC = 1000000000"

definition DURATION_MAX :: duration where
  "DURATION_MAX = (2 ^ 64 - 1) * NANOS_PER_SEC + (NANOS_PER_SEC - 1)"

definition duration_checked_add :: "duration \<Rightarrow> duration \<Rightarrow> duration option" where
  "duration_checked_add a b = (if a + b \<le> DURATION_MAX then Some (a + b) else None)"

definition as_secs_f64 :: "duration \<Rightarrow> f64" where
  "as_secs_f64 d =
     add64 (to_f64 (of_nat (d div NANOS_PER_SEC)))
           (div64 (to_f64 (of_nat (d mod NANOS_PER_SEC))) (Fin 1000000000))"

definition as_secs_f32 :: "duration \<Rightarrow> f32" where
  "as_secs_f32 d =
     add32 (to_f32 (of_nat (d div NANOS_PER_SEC)))
           (div32 (to_f32 (of_nat (d mod NANOS_PER_SEC))) (Fin 1000000000))"

section \<open>Instants\<close>

datatype logical_instant = LogicalInstant (as_duration_since_start: duration)

definition LogicalInstant_ZERO :: logical_instant where
  "LogicalInstant_ZERO = LogicalInstant 0"

definition from_duration_since_start :: "duration \<Rightarrow> logical_instant" where
  "from_duration_since_start d = LogicalInstant d"

definition saturating_duration_since :: "logical_instant \<Rightarrow> logical_instant \<Rightarrow> duration" where
  "saturating_duration_since now earlier = as_duration_since_start now - as_duration_since_start earlier"

definition instant_checked_add :: "logical_instant \<Rightarrow> duration \<Rightarrow> logical_instant option" where
  "instant_checked_add i d = map_option LogicalInstant (duration_checked_add (as_duration_since_start i) d)"

text \<open>The addition operator panics where the checked one gives nothing.\<close>

definition instant_add :: "logical_instant \<Rightarrow> duration \<Rightarrow> logical_instant res" where
  "instant_add i d =
     (case instant_checked_add i d of
        Some r \<Rightarrow> Inr r
      | None \<Rightarrow> Inl ''overflow when adding durations'')"

definition elapsed_since :: "logical_instant \<Rightarrow> logical_instant \<Rightarrow> duration" where
  "elapsed_since now earlier = saturating_duration_since now earlier"

text \<open>The production clock measures from the instant it was created; the argument is the reading of
  the monotonic operating-system clock.\<close>

record system_clock =
  clock_start :: duration

definition system_clock_new :: "duration \<Rightarrow> system_clock" where
  "system_clock_new os_now = \<lparr> clock_start = os_now \<rparr>"

definition system_clock_now :: "duration \<Rightarrow> system_clock \<Rightarrow> logical_instant" where
  "system_clock_now os_now c = LogicalInstant (os_now - clock_start c)"

section \<open>The contract of a clock\<close>

text \<open>A clock never goes back as the world goes on; elapsed times then add up.\<close>

locale monotone_clock =
  fixes later :: "'w \<Rightarrow> 'w \<Rightarrow> bool"
    and now :: "'w \<Rightarrow> logical_instant"
  assumes now_mono: "later a b \<Longrightarrow> as_duration_since_start (now a) \<le> as_duration_since_start (now b)"
begin

lemma elapsed_adds:
  assumes "later a b" and "later b c"
  shows "elapsed_since (now c) (now a) = elapsed_since (now b) (now a) + elapsed_since (now c) (now b)"
  using now_mono[OF assms(1)] now_mono[OF assms(2)]
  by (simp add: elapsed_since_def saturating_duration_since_def)

lemma elapsed_backwards: "later a b \<Longrightarrow> elapsed_since (now a) (now b) = 0"
  using now_mono[of a b] by (simp add: elapsed_since_def saturating_duration_since_def)

end

interpretation system: monotone_clock "(\<le>)" "\<lambda>os_now. system_clock_now os_now c" for c
  by unfold_locales (simp add: system_clock_now_def diff_le_mono)

end
