(* ===== verification/Pipeline.thy ===== *)
theory Pipeline
  imports Signal
begin

text \<open>
  The policy pipeline (\<^verbatim>\<open>src/pipeline.rs\<close>): the sequence numbers of directives, the deduplicator,
  and the interface of a policy as the main loop uses it.
\<close>

section \<open>Sequence numbers\<close>

definition SEQ_COUNTER_init :: u64 where
  "SEQ_COUNTER_init = 1"

definition next_seq_id :: "u64 \<Rightarrow> u64 \<times> u64" where
  "next_seq_id counter = (counter + 1, counter)"

fun take_seq_ids :: "nat \<Rightarrow> u64 \<Rightarrow> u64 list" where
  "take_seq_ids 0 counter = []"
| "take_seq_ids (Suc n) counter =
     (case next_seq_id counter of (counter', i) \<Rightarrow> i # take_seq_ids n counter')"

section \<open>The deduplicator\<close>

text \<open>Commands compare as the derived equality does: budgets by floating-point equality.\<close>

fun command_eq :: "engine_command \<Rightarrow> engine_command \<Rightarrow> bool" where
  "command_eq (KvCompress a) (KvCompress b) = fp_eq a b"
| "command_eq (KvCompress a) _ = False"
| "command_eq _ (KvCompress b) = False"
| "command_eq a b = (a = b)"

definition commands_eq :: "engine_command list \<Rightarrow> engine_command list \<Rightarrow> bool" where
  "commands_eq = list_all2 command_eq"

record directive_deduplicator =
  last_commands :: "engine_command list option"
  last_sent_at :: "f64 option"
  cooldown_secs :: f64

definition dedup_with_cooldown :: "f64 \<Rightarrow> directive_deduplicator" where
  "dedup_with_cooldown c = \<lparr> last_commands = None, last_sent_at = None, cooldown_secs = c \<rparr>"

definition dedup_new :: directive_deduplicator where
  "dedup_new = dedup_with_cooldown (Fin 60)"

definition dedup_process ::
  "engine_directive \<Rightarrow> f64 \<Rightarrow> directive_deduplicator \<Rightarrow> directive_deduplicator \<times> engine_directive option" where
  "dedup_process d now_secs s =
     (let is_dup = (case last_commands s of Some c \<Rightarrow> commands_eq c (commands d) | None \<Rightarrow> False);
          cooldown_elapsed =
            (case last_sent_at s of Some t \<Rightarrow> fp_ge (sub64 now_secs t) (cooldown_secs s) | None \<Rightarrow> False)
      in if is_dup \<and> \<not> cooldown_elapsed then (s, None)
         else (s\<lparr>last_commands := Some (commands d), last_sent_at := Some now_secs\<rparr>, Some d))"

text \<open>A run: the directives that pass, with their times.\<close>

fun dedup_run ::
  "directive_deduplicator \<Rightarrow> (engine_directive \<times> f64) list \<Rightarrow>
   directive_deduplicator \<times> (engine_directive \<times> f64) list" where
  "dedup_run s [] = (s, [])"
| "dedup_run s ((d, t) # ds) =
     (case dedup_process d t s of
        (s', None) \<Rightarrow> dedup_run s' ds
      | (s', Some d') \<Rightarrow> apsnd ((#) (d', t)) (dedup_run s' ds))"

section \<open>The inspection helper\<close>

datatype record_entry = RecF32 string f32 | RecU64 string u64 | RecString string string

fun overrun_count :: "record_entry list \<Rightarrow> u64 \<Rightarrow> u64" where
  "overrun_count [] n = n"
| "overrun_count (RecU64 k v # es) n =
     overrun_count es (if k = ''observation_overrun_count'' then v else n)"
| "overrun_count (_ # es) n = overrun_count es n"

definition get_observation_overrun_count :: "record_entry list \<Rightarrow> u64" where
  "get_observation_overrun_count es = overrun_count es 0"

section \<open>The policy interface\<close>

text \<open>
  What the main loop relies on: a policy keeps its invariant through signals and engine
  messages, and a directive it returns has at least one command and only commands the engine
  accepts.  The state of a policy includes the sequence counter it draws from.  A signal comes
  with what the policy can see of the world while it decides, of a type of its own.
\<close>

definition command_ok :: "engine_command \<Rightarrow> bool" where
  "command_ok c = (case c of KvCompress b \<Rightarrow> is_finite b \<and> fp_gt b (Fin 0) \<and> fp_le b (Fin 1) | _ \<Rightarrow> True)"

definition directive_ok :: "engine_directive \<Rightarrow> bool" where
  "directive_ok d = (commands d \<noteq> [] \<and> list_all command_ok (commands d))"

datatype 'w policy_input = SignalIn 'w system_signal | MessageIn engine_message

fun policy_run ::
  "('w \<Rightarrow> system_signal \<Rightarrow> 'p \<Rightarrow> 'p \<times> engine_directive option) \<Rightarrow> (engine_message \<Rightarrow> 'p \<Rightarrow> 'p) \<Rightarrow>
   'p \<Rightarrow> 'w policy_input list \<Rightarrow> 'p \<times> engine_directive list" where
  "policy_run proc upd p [] = (p, [])"
| "policy_run proc upd p (MessageIn m # is) = policy_run proc upd (upd m p) is"
| "policy_run proc upd p (SignalIn w s # is) =
     (case proc w s p of
        (p', None) \<Rightarrow> policy_run proc upd p' is
      | (p', Some d) \<Rightarrow> apsnd ((#) d) (policy_run proc upd p' is))"

locale policy_strategy =
  fixes process_signal :: "'w \<Rightarrow> system_signal \<Rightarrow> 'p \<Rightarrow> 'p \<times> engine_directive option"
    and update_engine_state :: "engine_message \<Rightarrow> 'p \<Rightarrow> 'p"
    and inv :: "'p \<Rightarrow> bool"
  assumes process_inv: "inv p \<Longrightarrow> inv (fst (process_signal w s p))"
    and update_inv: "inv p \<Longrightarrow> inv (update_engine_state m p)"
    and process_ok: "inv p \<Longrightarrow> snd (process_signal w s p) = Some d \<Longrightarrow> directive_ok d"
begin

lemma policy_run_ok:
  assumes "inv p"
  shows "inv (fst (policy_run process_signal update_engine_state p is)) \<and>
    list_all directive_ok (snd (policy_run process_signal update_engine_state p is))"
  using assms
proof (induction "is" arbitrary: p)
  case (Cons i "is")
  show ?case
  proof (cases i)
    case (SignalIn w s)
    obtain p' r where r: "process_signal w s p = (p', r)" by (cases "process_signal w s p")
    have "inv p'" using process_inv[OF Cons.prems, of w s] r by simp
    then show ?thesis using Cons SignalIn r process_ok[OF Cons.prems, of w s] by (cases r) auto
  next
    case (MessageIn m)
    then show ?thesis using Cons update_inv[of p m] by simp
  qed
qed simp

end

section \<open>Facts\<close>

lemma command_eq_ok: "command_ok c \<Longrightarrow> command_eq c c"
  by (cases c) (auto simp: command_ok_def fp_eq_def)

lemma commands_eq_refl: "list_all command_ok cs \<Longrightarrow> commands_eq cs cs"
  unfolding commands_eq_def by (induction cs) (simp_all add: command_eq_ok)

lemma take_seq_ids_eq: "take_seq_ids n c = map (\<lambda>i. c + of_nat i) [0..<n]"
proof (induction n arbitrary: c)
  case (Suc n)
  have "[0..<Suc n] = 0 # map Suc [0..<n]" by (simp add: map_Suc_upt upt_conv_Cons del: upt_Suc)
  then show ?case using Suc by (simp add: next_seq_id_def comp_def algebra_simps del: upt_Suc)
qed simp

lemma distinct_seq_ids:
  assumes "n \<le> 2 ^ 64"
  shows "distinct (take_seq_ids n c)"
proof -
  have "inj_on (\<lambda>i. c + (of_nat i :: u64)) (set [0..<n])"
  proof (rule inj_onI)
    fix i j assume ij: "i \<in> set [0..<n]" "j \<in> set [0..<n]" and e: "c + (of_nat i :: u64) = c + of_nat j"
    have "unat (of_nat k :: u64) = k" if "k \<in> set [0..<n]" for k
      using that assms by (simp add: unsigned_of_nat take_bit_nat_eq_self)
    then show "i = j" using ij e by (metis add_left_cancel)
  qed
  then show ?thesis by (simp add: take_seq_ids_eq distinct_map)
qed

lemma dedup_run_keeps:
  "cooldown_secs (fst (dedup_run s ds)) = cooldown_secs s"
proof (induction s ds rule: dedup_run.induct)
  case (2 s d t ds)
  then show ?case
    by (cases "dedup_process d t s") (auto simp: dedup_process_def Let_def split: if_splits option.splits)
qed simp

text \<open>The invariant of a run: the state remembers the last emission.\<close>

definition remembers :: "(engine_directive \<times> f64) list \<Rightarrow> directive_deduplicator \<Rightarrow> bool" where
  "remembers em s =
     (if em = [] then last_commands s = None \<and> last_sent_at s = None
      else last_commands s = Some (commands (fst (last em))) \<and> last_sent_at s = Some (snd (last em)))"

definition spaced :: "f64 \<Rightarrow> engine_directive \<times> f64 \<Rightarrow> engine_directive \<times> f64 \<Rightarrow> bool" where
  "spaced c a b = (\<not> commands_eq (commands (fst a)) (commands (fst b)) \<or> fp_ge (sub64 (snd b) (snd a)) c)"

lemma dedup_step:
  assumes "remembers em s" and "successively (spaced (cooldown_secs s)) em"
    and "dedup_process d t s = (s', r)"
  shows "case r of
      None \<Rightarrow> s' = s \<and> em \<noteq> [] \<and> commands_eq (commands (fst (last em))) (commands d)
    | Some d' \<Rightarrow> d' = d \<and> remembers (em @ [(d, t)]) s' \<and> cooldown_secs s' = cooldown_secs s \<and>
        successively (spaced (cooldown_secs s)) (em @ [(d, t)])"
  using assms
  by (auto simp: dedup_process_def remembers_def spaced_def successively_append_iff Let_def
      split: if_splits option.splits)

lemma dedup_run_spaced:
  assumes "remembers em s" and "successively (spaced (cooldown_secs s)) em"
  shows "successively (spaced (cooldown_secs s)) (em @ snd (dedup_run s ds)) \<and>
     remembers (em @ snd (dedup_run s ds)) (fst (dedup_run s ds))"
  using assms
proof (induction ds arbitrary: em s)
  case (Cons x ds)
  obtain d t where x: "x = (d, t)" by (cases x)
  obtain s' r where r: "dedup_process d t s = (s', r)" by (cases "dedup_process d t s")
  note st = dedup_step[OF Cons.prems r]
  show ?case
  proof (cases r)
    case None
    then show ?thesis using Cons st x r by simp
  next
    case (Some d')
    then show ?thesis using Cons.IH[of "em @ [(d, t)]" s'] st x r by simp
  qed
qed simp

lemma dedup_run_latest:
  assumes "ds \<noteq> []" and "list_all (\<lambda>x. commands_eq (commands (fst x)) (commands (fst x))) ds"
    and "remembers em s" and "successively (spaced (cooldown_secs s)) em"
  shows "em @ snd (dedup_run s ds) \<noteq> [] \<and>
     commands_eq (commands (fst (last (em @ snd (dedup_run s ds))))) (commands (fst (last ds)))"
  using assms
proof (induction ds arbitrary: em s)
  case (Cons x ds)
  obtain d t where x: "x = (d, t)" by (cases x)
  obtain s' r where r: "dedup_process d t s = (s', r)" by (cases "dedup_process d t s")
  note st = dedup_step[OF Cons.prems(3,4) r]
  show ?case
  proof (cases "ds = []")
    case True
    then show ?thesis using st x r Cons.prems(2) by (cases r) auto
  next
    case False
    show ?thesis
    proof (cases r)
      case None
      then show ?thesis using Cons.IH[OF False, of em s] Cons.prems st x r False by simp
    next
      case (Some d')
      then show ?thesis using Cons.IH[OF False, of "em @ [(d, t)]" s'] Cons.prems st x r False by simp
    qed
  qed
qed simp

section \<open>Properties\<close>

text \<open>Repeated directives are spaced: of two consecutive directives the deduplicator lets through,
  the second has different commands or comes at least the cooldown after the first.\<close>

theorem dedup_emissions_spaced:
  "successively (spaced c) (snd (dedup_run (dedup_with_cooldown c) ds))"
  using dedup_run_spaced[of "[]" "dedup_with_cooldown c" ds]
  by (simp add: remembers_def dedup_with_cooldown_def)

text \<open>C9: Deduplication loses no decision: after any sequence of directives whose commands are
  comparable, the last one let through carries the commands of the latest one decided.\<close>

theorem dedup_latest_decision_sent:
  assumes "ds \<noteq> []" and "list_all (\<lambda>x. list_all command_ok (commands (fst x))) ds"
  shows "snd (dedup_run (dedup_with_cooldown c) ds) \<noteq> [] \<and>
     commands_eq (commands (fst (last (snd (dedup_run (dedup_with_cooldown c) ds))))) (commands (fst (last ds)))"
proof -
  have "list_all (\<lambda>x. commands_eq (commands (fst x)) (commands (fst x))) ds"
    using assms(2) by (simp add: list_all_iff commands_eq_refl)
  from dedup_run_latest[OF assms(1) this, of "[]" "dedup_with_cooldown c"] show ?thesis
    by (simp add: remembers_def dedup_with_cooldown_def)
qed

definition example_directives :: "(engine_directive \<times> f64) list" where
  "example_directives =
     [(\<lparr> seq_id = 1, commands = [KvCompress (Fin (1/2))] \<rparr>, Fin 0),
      (\<lparr> seq_id = 2, commands = [KvCompress (Fin (1/2))] \<rparr>, Fin 1),
      (\<lparr> seq_id = 3, commands = [RestoreDefaults] \<rparr>, Fin 2)]"

theorem dedup_latest_decision_sent_witness:
  "snd (dedup_run dedup_new example_directives) \<noteq> [] \<and>
   commands_eq (commands (fst (last (snd (dedup_run dedup_new example_directives))))) [RestoreDefaults]"
  using dedup_latest_decision_sent[of example_directives "Fin 60"]
  by (simp add: dedup_new_def example_directives_def command_ok_def)

end
