(* ===== verification/Policy_State.thy ===== *)
theory Policy_State
  imports Monitor_Base
begin

text \<open>
  The policy state (\<^verbatim>\<open>src/policy/common/state.rs\<close>): the last readings and the pressure vector
  derived from them, the tracker of the time between tokens, and the trigger flags with their
  two-threshold hysteresis.
\<close>

section \<open>Definitions\<close>

record pressure6d =
  p_gpu :: f32
  p_cpu :: f32
  p_memory :: f32
  p_thermal :: f32
  p_latency :: f32
  p_main_app :: f32

definition pressure_array :: "pressure6d \<Rightarrow> f32 list" where
  "pressure_array p = [p_gpu p, p_cpu p, p_memory p, p_thermal p, p_latency p, p_main_app p]"

record signal_state =
  cpu_pct :: f64
  gpu_pct :: f64
  mem_available :: u64
  mem_total :: u64
  temp_mc :: i32
  throttling :: bool

definition signal_state_default :: signal_state where
  "signal_state_default =
     \<lparr> cpu_pct = Fin 0, gpu_pct = Fin 0, mem_available = 0, mem_total = 0, temp_mc = 0, throttling = False \<rparr>"

definition update_compute :: "f64 \<Rightarrow> f64 \<Rightarrow> signal_state \<Rightarrow> signal_state" where
  "update_compute cpu gpu s = s\<lparr>cpu_pct := cpu, gpu_pct := gpu\<rparr>"

definition update_memory :: "u64 \<Rightarrow> u64 \<Rightarrow> signal_state \<Rightarrow> signal_state" where
  "update_memory available tot s = s\<lparr>mem_available := available, mem_total := tot\<rparr>"

definition update_thermal :: "i32 \<Rightarrow> bool \<Rightarrow> signal_state \<Rightarrow> signal_state" where
  "update_thermal t th s = s\<lparr>temp_mc := t, throttling := th\<rparr>"

definition pressure_with_thermal :: "signal_state \<Rightarrow> f32 \<Rightarrow> f32 \<Rightarrow> f64 option \<Rightarrow> pressure6d" where
  "pressure_with_thermal s safe_c critical_c latency_ratio =
     (let mem_pressure =
            (if 0 < mem_total s
             then sub32 (Fin 1) (div32 (f32_of_u64 (mem_available s)) (f32_of_u64 (mem_total s)))
             else Fin 0);
          temp_c = div32 (f32_of_i32 (temp_mc s)) (Fin 1000);
          temp_range = sub32 critical_c safe_c;
          thermal =
            (if fp_gt temp_range (Fin 0)
             then fp_clamp (div32 (sub32 temp_c safe_c) temp_range) (Fin 0) (Fin 1)
             else Fin 0)
      in \<lparr> p_gpu = fp_clamp (div32 (f32_of_f64 (gpu_pct s)) (Fin 100)) (Fin 0) (Fin 1),
           p_cpu = fp_clamp (div32 (f32_of_f64 (cpu_pct s)) (Fin 100)) (Fin 0) (Fin 1),
           p_memory = fp_clamp mem_pressure (Fin 0) (Fin 1),
           p_thermal = thermal,
           p_latency = f32_of_f64 (case latency_ratio of Some r \<Rightarrow> r | None \<Rightarrow> Fin 0),
           p_main_app = Fin 0 \<rparr>)"

record trigger_state =
  tbt_degraded :: bool
  mem_low :: bool
  temp_high :: bool

record tbt_tracker =
  ewma :: f64
  baseline :: "f64 option"
  warmup_count :: u32
  warmup_target :: u32

definition tbt_tracker_new :: "u32 \<Rightarrow> tbt_tracker" where
  "tbt_tracker_new target = \<lparr> ewma = Fin 0, baseline = None, warmup_count = 0, warmup_target = target \<rparr>"

definition observe :: "f64 \<Rightarrow> tbt_tracker \<Rightarrow> tbt_tracker" where
  "observe tbt t0 =
     (let t1 = t0\<lparr>ewma := (if warmup_count t0 = 0 then tbt
                           else add64 (mul64 (Fin (7/8)) (ewma t0)) (mul64 (Fin (1/8)) tbt))\<rparr>;
          t2 = t1\<lparr>warmup_count := warmup_count t1 + 1\<rparr>
      in if baseline t2 = None \<and> warmup_target t2 \<le> warmup_count t2
         then t2\<lparr>baseline := Some (ewma t2)\<rparr> else t2)"

definition degradation_ratio :: "tbt_tracker \<Rightarrow> f64 option" where
  "degradation_ratio t =
     map_option (\<lambda>b. if fp_gt b (Fin 0) then div64 (sub64 (ewma t) b) b else Fin 0) (baseline t)"

record trigger_engine =
  trig_config :: trigger_config
  tbt :: tbt_tracker
  trigger :: trigger_state

definition trigger_engine_new :: "trigger_config \<Rightarrow> trigger_engine" where
  "trigger_engine_new cfg =
     \<lparr> trig_config = cfg, tbt = tbt_tracker_new (tbt_warmup_tokens cfg),
       trigger = \<lparr> tbt_degraded = False, mem_low = False, temp_high = False \<rparr> \<rparr>"

definition update_tbt_ms :: "f64 \<Rightarrow> trigger_engine \<Rightarrow> trigger_engine" where
  "update_tbt_ms ms e =
     (if \<not> is_finite ms \<or> fp_le ms (Fin 0) then e
      else
        (let e1 = e\<lparr>tbt := observe ms (tbt e)\<rparr> in
         case degradation_ratio (tbt e1) of
           None \<Rightarrow> e1
         | Some ratio \<Rightarrow>
             if tbt_degraded (trigger e1) then
               (if fp_lt ratio (tbt_exit (trig_config e1))
                then e1\<lparr>trigger := (trigger e1)\<lparr>tbt_degraded := False\<rparr>\<rparr> else e1)
             else if fp_gt ratio (tbt_enter (trig_config e1))
                  then e1\<lparr>trigger := (trigger e1)\<lparr>tbt_degraded := True\<rparr>\<rparr> else e1))"

definition update_mem :: "f64 \<Rightarrow> trigger_engine \<Rightarrow> trigger_engine" where
  "update_mem pressure e =
     (if mem_low (trigger e) then
        (if fp_lt pressure (mem_exit (trig_config e))
         then e\<lparr>trigger := (trigger e)\<lparr>mem_low := False\<rparr>\<rparr> else e)
      else if fp_gt pressure (mem_enter (trig_config e))
           then e\<lparr>trigger := (trigger e)\<lparr>mem_low := True\<rparr>\<rparr> else e)"

definition update_temp :: "f64 \<Rightarrow> trigger_engine \<Rightarrow> trigger_engine" where
  "update_temp normalized e =
     (if temp_high (trigger e) then
        (if fp_lt normalized (temp_exit (trig_config e))
         then e\<lparr>trigger := (trigger e)\<lparr>temp_high := False\<rparr>\<rparr> else e)
      else if fp_gt normalized (temp_enter (trig_config e))
           then e\<lparr>trigger := (trigger e)\<lparr>temp_high := True\<rparr>\<rparr> else e)"

definition tbt_degradation_ratio :: "trigger_engine \<Rightarrow> f64 option" where
  "tbt_degradation_ratio e = degradation_ratio (tbt e)"

section \<open>The contract of a two-threshold flag\<close>

text \<open>
  A flag that is raised above the entry threshold and lowered below the exit threshold.  What a
  run does to it depends on the last value outside the band alone.
\<close>

locale latch =
  fixes upd :: "f64 \<Rightarrow> 'e \<Rightarrow> 'e"
    and flag :: "'e \<Rightarrow> bool"
    and enter :: "'e \<Rightarrow> f64"
    and exit :: "'e \<Rightarrow> f64"
  assumes flag_upd: "flag (upd x e) = (if flag e then \<not> fp_lt x (exit e) else fp_gt x (enter e))"
    and enter_upd: "enter (upd x e) = enter e"
    and exit_upd: "exit (upd x e) = exit e"
begin

lemma frame_run: "enter (fold upd xs e) = enter e \<and> exit (fold upd xs e) = exit e"
  by (induction xs arbitrary: e) (simp_all add: enter_upd exit_upd)

lemma flag_run:
  assumes "fp_le (exit e) (enter e)"
  shows "flag (fold upd xs e) =
    (case filter (\<lambda>x. fp_gt x (enter e) \<or> fp_lt x (exit e)) xs of
       [] \<Rightarrow> flag e
     | ds \<Rightarrow> fp_gt (last ds) (enter e))"
proof (induction xs rule: rev_induct)
  case (snoc x xs)
  have "fp_gt x (enter e) \<Longrightarrow> \<not> fp_lt x (exit e)"
    using assms fp_le_lt_trans fp_lt_irrefl fp_lt_imp_le fp_lt_le_trans by meson
  moreover have "flag (fold upd (xs @ [x]) e) =
      (if flag (fold upd xs e) then \<not> fp_lt x (exit e) else fp_gt x (enter e))"
    by (simp add: flag_upd frame_run)
  ultimately show ?case using snoc by (auto split: list.splits if_splits)
qed simp

end

lemma update_mem_simps [simp]:
  "trig_config (update_mem x e) = trig_config e"
  "mem_low (trigger (update_mem x e)) =
     (if mem_low (trigger e) then \<not> fp_lt x (mem_exit (trig_config e)) else fp_gt x (mem_enter (trig_config e)))"
  "temp_high (trigger (update_mem x e)) = temp_high (trigger e)"
  "tbt (update_mem x e) = tbt e"
  by (simp_all add: update_mem_def)

lemma update_temp_simps [simp]:
  "trig_config (update_temp x e) = trig_config e"
  "temp_high (trigger (update_temp x e)) =
     (if temp_high (trigger e) then \<not> fp_lt x (temp_exit (trig_config e)) else fp_gt x (temp_enter (trig_config e)))"
  "mem_low (trigger (update_temp x e)) = mem_low (trigger e)"
  "tbt (update_temp x e) = tbt e"
  by (simp_all add: update_temp_def)

interpretation mem_latch: latch update_mem "\<lambda>e. mem_low (trigger e)"
    "\<lambda>e. mem_enter (trig_config e)" "\<lambda>e. mem_exit (trig_config e)"
  by unfold_locales simp_all

interpretation temp_latch: latch update_temp "\<lambda>e. temp_high (trigger e)"
    "\<lambda>e. temp_enter (trig_config e)" "\<lambda>e. temp_exit (trig_config e)"
  by unfold_locales simp_all

section \<open>The tracker\<close>

lemma baseline_observe:
  "baseline (observe x t) =
    (if baseline t = None \<and> warmup_target t \<le> warmup_count t + 1 then Some (ewma (observe x t)) else baseline t)"
  by (simp add: observe_def Let_def)

lemma observe_keeps_baseline: "baseline t = Some b \<Longrightarrow> baseline (fold observe xs t) = Some b"
proof (induction xs arbitrary: t)
  case (Cons x xs)
  then have "baseline (observe x t) = Some b" by (simp add: observe_def Let_def)
  then show ?case using Cons.IH by simp
qed simp

lemma warmup_target_run [simp]: "warmup_target (fold observe xs t) = warmup_target t"
  by (induction xs arbitrary: t) (simp_all add: observe_def Let_def)

lemma warmup_count_run: "warmup_count (fold observe xs t) = warmup_count t + of_nat (length xs)"
  by (induction xs arbitrary: t) (simp_all add: observe_def Let_def)

lemma unat_of_nat_u32: "n < 2 ^ 32 \<Longrightarrow> unat (of_nat n :: u32) = n"
  by (simp add: unsigned_of_nat take_bit_nat_eq_self)

lemma unat_u32_less: "unat (w :: u32) < 2 ^ 32"
  using unsigned_less[of w] by simp

lemma baseline_warmup:
  assumes "length xs < max 1 (unat w)"
  shows "baseline (fold observe xs (tbt_tracker_new w)) = None"
  using assms
proof (induction xs rule: rev_induct)
  case (snoc x xs)
  let ?t = "fold observe xs (tbt_tracker_new w)"
  have lt: "Suc (length xs) < unat w" using snoc.prems by simp
  have "baseline ?t = None" using snoc by simp
  moreover have "\<not> w \<le> warmup_count ?t + 1"
  proof -
    have "unat (of_nat (Suc (length xs)) :: u32) = Suc (length xs)"
      using lt unat_u32_less[of w] by (intro unat_of_nat_u32) linarith
    moreover have "warmup_count ?t + 1 = of_nat (Suc (length xs))"
      by (simp add: warmup_count_run tbt_tracker_new_def)
    ultimately show ?thesis using lt by (simp only: word_le_nat_alt not_le)
  qed
  moreover have "warmup_target ?t = w" by (simp add: tbt_tracker_new_def)
  ultimately show ?case by (simp add: baseline_observe)
qed (simp add: tbt_tracker_new_def)

lemma baseline_latched:
  assumes "max 1 (unat w) \<le> length xs"
  shows "baseline (fold observe xs (tbt_tracker_new w)) =
    Some (ewma (fold observe (take (max 1 (unat w)) xs) (tbt_tracker_new w)))"
proof -
  define n where "n = max 1 (unat w)"
  have "0 < n" by (simp add: n_def)
  then obtain k where k: "n = Suc k" using gr0_implies_Suc by blast
  have kl: "k < length xs" using assms k by (simp only: n_def [symmetric])
  let ?t = "fold observe (take k xs) (tbt_tracker_new w)"
  have tk: "take n xs = take k xs @ [xs ! k]" using kl k by (simp add: take_Suc_conv_app_nth)
  have none: "baseline ?t = None" using baseline_warmup[of "take k xs" w] kl k n_def by simp
  have "w \<le> warmup_count ?t + 1"
  proof -
    have "warmup_count ?t + 1 = of_nat n" using kl k by (simp add: warmup_count_run tbt_tracker_new_def)
    moreover have "unat (of_nat n :: u32) = n"
      using unat_u32_less[of w] by (intro unat_of_nat_u32) (simp add: n_def)
    ultimately show ?thesis by (simp add: word_le_nat_alt n_def)
  qed
  moreover have "warmup_target ?t = w" by (simp add: tbt_tracker_new_def)
  ultimately have b: "baseline (observe (xs ! k) ?t) = Some (ewma (observe (xs ! k) ?t))"
    using none by (simp add: baseline_observe)
  have "fold observe xs (tbt_tracker_new w) = fold observe (drop n xs) (observe (xs ! k) ?t)"
  proof -
    have "fold observe xs (tbt_tracker_new w) = fold observe (take n xs @ drop n xs) (tbt_tracker_new w)"
      by (simp only: append_take_drop_id)
    then show ?thesis by (simp only: tk fold_append fold_simps comp_apply)
  qed
  then show ?thesis using observe_keeps_baseline[OF b] unfolding n_def [symmetric] tk by simp
qed

section \<open>The pressures\<close>

definition unit_or_NaN :: "f32 \<Rightarrow> bool" where
  "unit_or_NaN v = (v = NaN \<or> fp_le (Fin 0) v \<and> fp_le v (Fin 1))"

lemma clamp_unit: "unit_or_NaN (fp_clamp v (Fin 0) (Fin 1))"
  using fp_clamp_bounds[of "Fin 0" "Fin 1" v] by (cases "v = NaN") (simp_all add: unit_or_NaN_def)

lemma to_f32_finite:
  assumes "\<bar>x\<bar> \<le> 2 ^ 100"
  shows "to_f32 x = Fin (rnd32 x)"
proof -
  have r: "repr32 (2 ^ 100)" unfolding repr_fmt_def by (intro exI[of _ 1] exI[of _ 100]) simp
  have "rnd32 x \<le> 2 ^ 100" using r assms by (intro rnd_le_repr) auto
  moreover have "- (2 ^ 100) \<le> rnd32 x" using r assms by (intro rnd_ge_repr) auto
  moreover have "(2 :: rat) ^ 100 < 2 powi 128" by simp
  ultimately show ?thesis by (simp add: to_fmt_def Let_def)
qed

lemma f32_of_u64_Fin:
  "\<exists>r. f32_of_u64 w = Fin r \<and> 0 \<le> r \<and> r \<le> 2 ^ 64 \<and> (w \<noteq> 0 \<longrightarrow> 1 \<le> r)"
proof -
  define n where "n = uint w"
  have n: "0 \<le> n" "n < 2 ^ 64" using uint_u64[of w] by (simp_all add: n_def)
  have r64: "repr32 (2 ^ 64)" unfolding repr_fmt_def by (intro exI[of _ 1] exI[of _ 64]) simp
  have r1: "repr32 1" using repr_int[of 1 24 "-149"] by simp
  have q: "0 \<le> (of_int n :: rat)" "(of_int n :: rat) \<le> of_int (2 ^ 64)" using n by (simp_all only: of_int_0_le_iff of_int_le_iff)
  have "\<bar>of_int n :: rat\<bar> \<le> of_int (2 ^ 64)" using q by simp
  also have "\<dots> \<le> 2 ^ 100" by simp
  finally have f: "f32_of_u64 w = Fin (rnd32 (of_int n))" unfolding f32_of_u64_def n_def by (rule to_f32_finite)
  have "1 \<le> rnd32 (of_int n)" if "w \<noteq> 0"
  proof (rule rnd_ge_repr[OF r1])
    have "1 \<le> n" using that n(1) by (simp add: n_def uint_0_iff order_less_le int_one_le_iff_zero_less)
    then show "1 \<le> (of_int n :: rat)" by (simp only: of_int_1_le_iff)
  qed simp
  moreover have "0 \<le> rnd32 (of_int n)" using q(1) by (rule rnd_nonneg)
  moreover have "rnd32 (of_int n) \<le> 2 ^ 64" using r64 q(2) by (intro rnd_le_repr) simp_all
  ultimately show ?thesis using f by blast
qed

lemma mem_share_finite:
  assumes "0 < t"
  shows "sub32 (Fin 1) (div32 (f32_of_u64 a) (f32_of_u64 t)) \<noteq> NaN"
proof -
  obtain x y where x: "f32_of_u64 a = Fin x" and y: "f32_of_u64 t = Fin y" "1 \<le> y"
    using f32_of_u64_Fin[of a] f32_of_u64_Fin[of t] assms by (auto simp: word_gt_0)
  have "div32 (Fin x) (Fin y) \<noteq> NaN" using y by simp
  then show ?thesis unfolding x y by (cases "div32 (Fin x) (Fin y)") (simp_all add: fp_sub_def)
qed

section \<open>Properties\<close>

text \<open>C40: The pressure vector is normalised: whatever the readings, the GPU, CPU, memory and thermal
  components lie in the unit interval (or are a NaN handed through), and the memory component is
  never a NaN.\<close>

theorem pressures_in_unit_interval:
  "let p = pressure_with_thermal s safe crit lat in
   list_all unit_or_NaN [p_gpu p, p_cpu p, p_memory p, p_thermal p] \<and> p_memory p \<noteq> NaN"
proof -
  have "fp_clamp m (Fin 0) (Fin 1) \<noteq> NaN" if "m \<noteq> NaN" for m
    using that by (intro fp_clamp_not_NaN) simp_all
  moreover have "unit_or_NaN (Fin 0)" by (simp add: unit_or_NaN_def)
  ultimately show ?thesis
    using clamp_unit mem_share_finite[of "mem_total s" "mem_available s"]
    by (simp add: pressure_with_thermal_def Let_def)
qed

text \<open>C38: The memory trigger after a run of pressures is decided by the last pressure outside the
  band between the exit and the entry threshold: raised when it was above the entry threshold,
  lowered when it was below the exit threshold, and unchanged when there was none.\<close>

theorem mem_trigger_last_crossing:
  assumes "fp_le (mem_exit (trig_config e)) (mem_enter (trig_config e))"
  shows "mem_low (trigger (fold update_mem xs e)) =
    (case filter (\<lambda>x. fp_gt x (mem_enter (trig_config e)) \<or> fp_lt x (mem_exit (trig_config e))) xs of
       [] \<Rightarrow> mem_low (trigger e)
     | ds \<Rightarrow> fp_gt (last ds) (mem_enter (trig_config e)))"
  using assms by (rule mem_latch.flag_run)

definition example_trigger :: trigger_config where
  "example_trigger =
     \<lparr> tbt_enter = Fin 1, tbt_exit = Fin (1/2), tbt_warmup_tokens = 2, mem_enter = Fin (3/4),
       mem_exit = Fin (1/2), temp_enter = Fin (3/4), temp_exit = Fin (1/2) \<rparr>"

theorem mem_trigger_last_crossing_witness:
  "mem_low (trigger (fold update_mem [Fin (7/8), Fin (5/8), Fin (1/4), Fin (5/8)] (trigger_engine_new example_trigger))) = False"
  by (subst mem_trigger_last_crossing) (simp_all add: trigger_engine_new_def example_trigger_def)

text \<open>The baseline of the time between tokens is taken once: none before the warm-up count is
  reached (at least one observation), afterwards for ever the average at that moment, whatever is
  observed later.\<close>

theorem tbt_baseline_latched:
  "baseline (fold observe xs (tbt_tracker_new w)) =
    (if length xs < max 1 (unat w) then None
     else Some (ewma (fold observe (take (max 1 (unat w)) xs) (tbt_tracker_new w))))"
  using baseline_warmup[of xs w] baseline_latched[of w xs] by (simp add: not_less)

end
