(* ===== verification/Lua_Host.thy ===== *)
theory Lua_Host
  imports Clock Pipeline Policy_State Gpu_Provider
begin

text \<open>
  What the manager gives to a policy script and takes from it: the context table
  (\<^verbatim>\<open>src/lua/context.rs\<close>), the built-in decider (\<^verbatim>\<open>src/lua/fallback.rs\<close>), the reading of the
  actions a script returns and the helper functions of the \<^verbatim>\<open>sys\<close> table
  (\<^verbatim>\<open>src/lua_policy.rs\<close>).  The Lua virtual machine is not part of the repository: the
  conversions of its values to strings and floats are parameters.
\<close>

section \<open>The context table\<close>

datatype ctx_value =
    CFloat fp
  | CInt u64
  | CBool bool
  | CStr string
  | CTable "(string \<times> ctx_value) list"

fun phase_name :: "phase \<Rightarrow> string" where
  "phase_name PhaseIdle = ''idle''"
| "phase_name PhasePrefill = ''prefill''"
| "phase_name PhaseDecode = ''decode''"

fun state_name :: "engine_state \<Rightarrow> string" where
  "state_name EngineIdle = ''idle''"
| "state_name EngineRunning = ''running''"
| "state_name EngineSuspended = ''suspended''"

definition engine_table :: "engine_status option \<Rightarrow> ctx_value" where
  "engine_table engine =
     (case engine of
        Some st \<Rightarrow> CTable
          ([(''seen'', CBool True),
            (''kv_cache_bytes'', CInt (kv_cache_bytes st)),
            (''kv_cache_budget_bytes'', CInt (kv_cache_budget_bytes st)),
            (''kv_cache_tokens'', CInt (kv_cache_tokens st)),
            (''tbt_ms'', CFloat (tbt_ms st)),
            (''phase'', CStr (phase_name (status_phase st))),
            (''state'', CStr (state_name (status_state st)))] @
           (if 0 < kv_cache_budget_bytes st
            then [(''kv_fill'', CFloat (div64 (f64_of_u64 (kv_cache_bytes st)) (f64_of_u64 (kv_cache_budget_bytes st))))]
            else []))
      | None \<Rightarrow> CTable [(''seen'', CBool False)])"

definition build_ctx ::
  "pressure6d \<Rightarrow> trigger_state \<Rightarrow> signal_state \<Rightarrow> engine_status option \<Rightarrow> ctx_value" where
  "build_ctx p t s engine = CTable
     [(''pressure'', CTable
         [(''gpu'', CFloat (p_gpu p)), (''cpu'', CFloat (p_cpu p)), (''memory'', CFloat (p_memory p)),
          (''thermal'', CFloat (p_thermal p)), (''latency'', CFloat (p_latency p)),
          (''main_app'', CFloat (p_main_app p))]),
      (''trigger'', CTable
         [(''tbt_degraded'', CBool (tbt_degraded t)), (''mem_low'', CBool (mem_low t)),
          (''temp_high'', CBool (temp_high t))]),
      (''engine'', engine_table engine),
      (''signal'', CTable
         [(''memory'', CTable [(''available'', CInt (mem_available s)), (''total'', CInt (mem_total s))]),
          (''compute'', CTable [(''cpu_pct'', CFloat (cpu_pct s)), (''gpu_pct'', CFloat (gpu_pct s))]),
          (''thermal'', CTable
             [(''temp_c'', CFloat (div64 (f64_of_i32 (temp_mc s)) (Fin 1000))),
              (''throttling'', CBool (throttling s))])])]"

text \<open>Looking a path of keys up in a context, as the script does.\<close>

fun ctx_get :: "ctx_value \<Rightarrow> string list \<Rightarrow> ctx_value option" where
  "ctx_get v [] = Some v"
| "ctx_get (CTable kvs) (k # ks) =
     (case map_of kvs k of None \<Rightarrow> None | Some v \<Rightarrow> ctx_get v ks)"
| "ctx_get v (k # ks) = None"

section \<open>The built-in decider\<close>

definition fallback_decide :: "system_signal \<Rightarrow> engine_command list" where
  "fallback_decide signal =
     (case signal of
        MemoryPressure l a t r \<Rightarrow>
          (case l of
             Normal \<Rightarrow> [RestoreDefaults]
           | Warning \<Rightarrow> [KvCompress (to_f32 (85/100))]
           | Critical \<Rightarrow> [KvCompress (to_f32 (50/100))]
           | Emergency \<Rightarrow> [KvCompress (to_f32 (25/100))])
      | ThermalAlert _ _ _ _ \<Rightarrow> []
      | ComputeGuidance _ _ _ _ _ \<Rightarrow> []
      | EnergyConstraint _ _ _ \<Rightarrow> [])"

section \<open>Actions\<close>

text \<open>A value of the virtual machine: a table is its field access (which may raise) and its array
  part.\<close>

datatype lua_value =
    LNil
  | LBool bool
  | LInteger i64
  | LNumber f64
  | LString string
  | LTable "string \<Rightarrow> string + lua_value" "lua_value list"
  | LOther

text \<open>The conversions of the virtual machine and the largest yield interval of the protocol.\<close>

record lua_conv =
  as_string :: "lua_value \<Rightarrow> string res"
  as_f32 :: "lua_value \<Rightarrow> f32 res"
  GPU_YIELD_EVERY_MAX :: u32

definition yield_every :: "lua_value \<Rightarrow> u32 option" where
  "yield_every v =
     (case v of
        LInteger i \<Rightarrow> if 0 \<le> sint i \<and> sint i < 2 ^ 32 then Some (word_of_int (sint i)) else None
      | LNumber n \<Rightarrow>
          (case n of
             Fin x \<Rightarrow> if x = of_int \<lfloor>x\<rfloor> \<and> 0 \<le> x \<and> x \<le> 2 ^ 32 - 1 then Some (u32_of_f64 n) else None
           | _ \<Rightarrow> None)
      | _ \<Rightarrow> None)"

definition parse_single_action ::
  "lua_conv \<Rightarrow> (string \<Rightarrow> string + lua_value) \<Rightarrow> engine_command res" where
  "parse_single_action cv entry =
     (case entry ''type'' of
        Inl e \<Rightarrow> Inl e
      | Inr ty \<Rightarrow>
     (case as_string cv ty of
        Inl e \<Rightarrow> Inl e
      | Inr action_type \<Rightarrow>
          if action_type = ''kv.compress'' then
            (case entry ''budget'' of
               Inl e \<Rightarrow> Inl e
             | Inr bv \<Rightarrow>
                 (case as_f32 cv bv of
                    Inl e \<Rightarrow> Inl e
                  | Inr b \<Rightarrow>
                      if \<not> (is_finite b \<and> fp_gt b (Fin 0) \<and> fp_le b (Fin 1))
                      then Inl ''kv.compress budget must be finite and in (0.0, 1.0]''
                      else Inr (KvCompress b)))
          else if action_type = ''restore_defaults'' then Inr RestoreDefaults
          else if action_type = ''suspend'' then Inr Suspend
          else if action_type = ''resume'' then Inr Resume
          else if action_type = ''gpu.yield'' then
            (case entry ''every'' of
               Inl e \<Rightarrow> Inl e
             | Inr v \<Rightarrow>
                 (case yield_every v of
                    Some every \<Rightarrow>
                      if every \<le> GPU_YIELD_EVERY_MAX cv then Inr (GpuYield every)
                      else Inl ''gpu.yield every must be an integer in range''
                  | None \<Rightarrow> Inl ''gpu.yield every must be an integer in range''))
          else if action_type = ''gpu.offload'' then
            (case entry ''on'' of
               Inl e \<Rightarrow> Inl e
             | Inr (LBool on) \<Rightarrow> Inr (GpuOffload on)
             | Inr _ \<Rightarrow> Inl ''gpu.offload on must be a boolean'')
          else Inl (''unknown action type '' @ action_type)))"

definition parse_entry :: "lua_conv \<Rightarrow> lua_value \<Rightarrow> engine_command res" where
  "parse_entry cv v =
     (case v of LTable f _ \<Rightarrow> parse_single_action cv f | _ \<Rightarrow> Inl ''error converting Lua value to table'')"

fun parse_entries :: "lua_conv \<Rightarrow> lua_value list \<Rightarrow> u64 \<Rightarrow> engine_command list \<times> u64" where
  "parse_entries cv [] dropped = ([], dropped)"
| "parse_entries cv (v # vs) dropped =
     (case parse_entry cv v of
        Inr cmd \<Rightarrow> apfst ((#) cmd) (parse_entries cv vs dropped)
      | Inl e \<Rightarrow> parse_entries cv vs (dropped + 1))"

definition parse_actions :: "lua_conv \<Rightarrow> lua_value \<Rightarrow> u64 \<Rightarrow> engine_command list \<times> u64" where
  "parse_actions cv value dropped =
     (case value of
        LNil \<Rightarrow> ([], dropped)
      | LTable f seq \<Rightarrow>
          if (case f ''type'' of Inr LNil \<Rightarrow> False | Inr _ \<Rightarrow> True | Inl e \<Rightarrow> False) then
            (case parse_single_action cv f of
               Inr cmd \<Rightarrow> ([cmd], dropped)
             | Inl e \<Rightarrow> ([], dropped + 1))
          else parse_entries cv seq dropped
      | _ \<Rightarrow> ([], dropped + 1))"

section \<open>The helper functions of a script\<close>

definition sys_read :: "file_system \<Rightarrow> string \<Rightarrow> string" where
  "sys_read fs path = (case read_to_string fs path of Some s \<Rightarrow> trim s | None \<Rightarrow> [])"

definition parse_meminfo_value :: "string \<Rightarrow> u64" where
  "parse_meminfo_value s =
     (case split_whitespace s of
        [] \<Rightarrow> 0
      | v # _ \<Rightarrow> (case parse_u64 v of Some n \<Rightarrow> n | None \<Rightarrow> 0))"

fun scan_sys_meminfo :: "string list \<Rightarrow> u64 \<times> u64 \<times> u64 \<Rightarrow> u64 \<times> u64 \<times> u64" where
  "scan_sys_meminfo [] acc = acc"
| "scan_sys_meminfo (line # ls) (tot, available, free) =
     (case strip_prefix ''MemTotal:'' line of
        Some rest \<Rightarrow> scan_sys_meminfo ls (parse_meminfo_value rest, available, free)
      | None \<Rightarrow>
     (case strip_prefix ''MemAvailable:'' line of
        Some rest \<Rightarrow> scan_sys_meminfo ls (tot, parse_meminfo_value rest, free)
      | None \<Rightarrow>
     (case strip_prefix ''MemFree:'' line of
        Some rest \<Rightarrow> scan_sys_meminfo ls (tot, available, parse_meminfo_value rest)
      | None \<Rightarrow> scan_sys_meminfo ls (tot, available, free))))"

definition read_meminfo :: "file_system \<Rightarrow> u64 \<times> u64 \<times> u64" where
  "read_meminfo fs =
     (case read_to_string fs ''/proc/meminfo'' of
        None \<Rightarrow> (0, 0, 0)
      | Some content \<Rightarrow> scan_sys_meminfo (str_lines content) (0, 0, 0))"

text \<open>The table the script gets, by its fields.\<close>

definition sys_meminfo :: "file_system \<Rightarrow> (string \<times> u64) list" where
  "sys_meminfo fs =
     (case read_meminfo fs of
        (tot, available, free) \<Rightarrow> [(''total'', tot), (''available'', available), (''free'', free)])"

definition sys_thermal :: "file_system \<Rightarrow> u32 \<Rightarrow> f64" where
  "sys_thermal fs zone =
     (case read_to_string fs (''/sys/class/thermal/thermal_zone'' @ show_nat (unat zone) @ ''/temp'') of
        None \<Rightarrow> Fin (- 1)
      | Some s \<Rightarrow> (case parse_f64 (trim s) of Some mc \<Rightarrow> div64 mc (Fin 1000) | None \<Rightarrow> Fin (- 1)))"

text \<open>\<^verbatim>\<open>f64::round\<close>: to the nearest integer, halves away from zero.\<close>

fun fp_round :: "f64 \<Rightarrow> f64" where
  "fp_round (Fin x) = Fin (if 0 \<le> x then of_int \<lfloor>x + 1/2\<rfloor> else of_int \<lceil>x - 1/2\<rceil>)"
| "fp_round v = v"

definition sys_gpu_busy :: "file_system \<Rightarrow> gpu_provider option \<Rightarrow> i64" where
  "sys_gpu_busy fs provider =
     (case Option.bind provider (util_pct fs) of
        Some v \<Rightarrow> i64_of_f64 (fp_round v)
      | None \<Rightarrow> - 1)"

definition sys_gpu_freq :: "file_system \<Rightarrow> gpu_provider option \<Rightarrow> i64" where
  "sys_gpu_freq fs provider =
     (case Option.bind provider (freq_hz fs) of Some v \<Rightarrow> v | None \<Rightarrow> - 1)"

definition parse_i64 :: "string \<Rightarrow> i64 option" where
  "parse_i64 s =
     (case s of
        c # r \<Rightarrow>
          if c = CHR ''-''
          then (case parse_digits r of
                  None \<Rightarrow> None
                | Some n \<Rightarrow> if n \<le> 2 ^ 63 then Some (- of_nat n) else None)
          else map_option of_nat (parse_unsigned (2 ^ 63) s)
      | [] \<Rightarrow> None)"

definition sys_cpu_freq :: "file_system \<Rightarrow> u32 \<Rightarrow> i64" where
  "sys_cpu_freq fs cpu =
     (case read_to_string fs (''/sys/devices/system/cpu/cpu'' @ show_nat (unat cpu) @ ''/cpufreq/scaling_cur_freq'') of
        None \<Rightarrow> - 1
      | Some s \<Rightarrow> (case parse_i64 (trim s) of Some v \<Rightarrow> v | None \<Rightarrow> - 1))"

definition frame_of_line :: "string \<Rightarrow> u64 option" where
  "frame_of_line line =
     (case find_sub ''frame='' line of
        None \<Rightarrow> None
      | Some i \<Rightarrow> parse_u64 (takeWhile is_digit (drop (i + 6) line)))"

fun find_map :: "('a \<Rightarrow> 'b option) \<Rightarrow> 'a list \<Rightarrow> 'b option" where
  "find_map f [] = None"
| "find_map f (x # xs) = (case f x of Some y \<Rightarrow> Some y | None \<Rightarrow> find_map f xs)"

lemma find_sub_bound: "find_sub p s = Some i \<Longrightarrow> i + length p \<le> length s"
proof (induction s arbitrary: i)
  case (Cons c s)
  show ?case
  proof (cases "strip_prefix p (c # s)")
    case None
    then show ?thesis using Cons by auto
  next
    case (Some r)
    then show ?thesis using Cons.prems strip_prefix_length[OF Some] by simp
  qed
qed (simp split: if_splits)

function find_frame :: "string \<Rightarrow> string \<Rightarrow> u64 option" where
  "find_frame marker text =
     (case find_sub marker text of
        None \<Rightarrow> None
      | Some pos \<Rightarrow>
          (case find_map frame_of_line (take 5 (str_lines (drop pos text))) of
             Some f \<Rightarrow> Some f
           | None \<Rightarrow> if marker = [] then None else find_frame marker (drop (pos + length marker) text)))"
  by pat_completeness auto
termination
proof (relation "measure (\<lambda>(m, t). length t)")
  fix marker t :: string and pos
  assume f: "find_sub marker t = Some pos" and m: "marker \<noteq> []"
  have "pos + length marker \<le> length t" using f by (rule find_sub_bound)
  moreover have "0 < length marker" using m by simp
  ultimately have "length t - (pos + length marker) < length t" by linarith
  then show "((marker, drop (pos + length marker) t), marker, t) \<in> measure (\<lambda>(m, t). length t)"
    by simp
qed simp

declare find_frame.simps [simp del]

record fps_state =
  prev_frame :: u64
  prev_time :: duration
  fps_initialized :: bool

definition fps_state_new :: "duration \<Rightarrow> fps_state" where
  "fps_state_new now = \<lparr> prev_frame = 0, prev_time = now, fps_initialized = False \<rparr>"

definition foreground_fps ::
  "string option \<Rightarrow> duration \<Rightarrow> string \<Rightarrow> fps_state \<Rightarrow> fps_state \<times> f32 option" where
  "foreground_fps dumpsys now pkg st =
     (case dumpsys of
        None \<Rightarrow> (st, None)
      | Some text \<Rightarrow>
          (case find_frame (''SurfaceView['' @ pkg) text of
             None \<Rightarrow> (st, None)
           | Some cur_frame \<Rightarrow>
               if \<not> fps_initialized st
               then (st\<lparr>prev_frame := cur_frame, prev_time := now, fps_initialized := True\<rparr>, None)
               else
                 (let dt = as_secs_f32 (now - prev_time st) in
                  if fp_lt dt (to_f32 (1/10)) then (st, None)
                  else (st\<lparr>prev_frame := cur_frame, prev_time := now\<rparr>,
                        Some (div32 (f32_of_u64 (saturating_sub cur_frame (prev_frame st))) dt)))))"

section \<open>What a script can see\<close>

text \<open>
  A script runs with the helper functions above and the \<^verbatim>\<open>io\<close> library, so what it does depends on the
  world at that moment: the files, the GPU provider that the manager shares with the compute monitor
  (nothing when its lock is poisoned), the output of \<^verbatim>\<open>dumpsys\<close>, the time, and whatever else may
  differ from call to call (the output of a command it starts, the seed of its random numbers).
\<close>

record host_view =
  hv_files :: file_system
  hv_gpu :: "gpu_provider option"
  hv_dumpsys :: "string option"
  hv_now :: duration
  hv_other :: string

text \<open>The provider captured by the helpers of a policy: the null provider of its own, or the shared one.\<close>

datatype gpu_handle = SharedNull | SharedProvider

definition seen_through :: "gpu_handle \<Rightarrow> host_view \<Rightarrow> host_view" where
  "seen_through g h = (case g of SharedNull \<Rightarrow> h\<lparr>hv_gpu := Some NullGpu\<rparr> | SharedProvider \<Rightarrow> h)"

text \<open>The clock a policy is given; it only keeps it.\<close>

datatype policy_clock = SystemClock | VirtualClockHandle

section \<open>Facts about actions\<close>

lemma parse_single_action_ok: "parse_single_action cv f = Inr c \<Longrightarrow> command_ok c"
  by (auto simp: parse_single_action_def command_ok_def
      split: sum.splits if_splits option.splits lua_value.splits)

lemma parse_entries_ok: "list_all command_ok (fst (parse_entries cv vs n))"
proof (induction vs arbitrary: n)
  case (Cons v vs)
  then show ?case
    by (auto simp: parse_entry_def parse_single_action_ok split: sum.splits lua_value.splits)
qed simp

lemma parse_actions_ok: "list_all command_ok (fst (parse_actions cv v n))"
  by (auto simp: parse_actions_def parse_entries_ok parse_single_action_ok split: lua_value.splits sum.splits)

text \<open>Every entry of an array is accounted for: it became a command or was counted as dropped.\<close>

lemma parse_entries_count:
  "snd (parse_entries cv vs n) + of_nat (length (fst (parse_entries cv vs n))) = n + of_nat (length vs)"
proof (induction vs arbitrary: n)
  case (Cons v vs)
  then show ?case by (cases "parse_entry cv v") (simp_all add: algebra_simps)
qed simp

lemma fallback_budget_ok: "0 < x \<Longrightarrow> x \<le> 1 \<Longrightarrow> 1/8 \<le> x \<Longrightarrow> command_ok (KvCompress (to_f32 x))"
proof -
  assume x: "x \<le> 1" "1/8 \<le> x"
  have r: "repr32 (1/8)" "repr32 1"
    unfolding repr_fmt_def by (intro exI[of _ 1] exI[of _ "-3"], simp) (intro exI[of _ 1] exI[of _ 0], simp)
  have "1/8 \<le> rnd32 x" "rnd32 x \<le> 1"
    using rnd_ge_repr[OF r(1) x(2)] rnd_le_repr[OF r(2) x(1)] by simp_all
  moreover have "to_f32 x = Fin (rnd32 x)" using x by (intro to_f32_finite) simp
  ultimately show ?thesis by (simp add: command_ok_def)
qed

lemma fallback_ok: "list_all command_ok (fallback_decide s)"
proof -
  have "command_ok (KvCompress (to_f32 (85/100)))" "command_ok (KvCompress (to_f32 (50/100)))"
    "command_ok (KvCompress (to_f32 (25/100)))" by (rule fallback_budget_ok; simp)+
  then show ?thesis
    by (simp add: fallback_decide_def command_ok_def [of RestoreDefaults] split: system_signal.splits level.splits)
qed

section \<open>Properties\<close>

text \<open>C25: No script can make the manager send a command the engine cannot read: every command taken
  from the value a script returns has a finite budget in the half-open unit interval, whatever
  the conversions of the virtual machine give, and every entry of an array of actions either
  becomes a command or is counted as dropped.\<close>

theorem parsed_actions_valid:
  "list_all command_ok (fst (parse_actions cv v n)) \<and>
   snd (parse_entries cv vs n) + of_nat (length (fst (parse_entries cv vs n))) = n + of_nat (length vs)"
  using parse_actions_ok parse_entries_count by blast

text \<open>A script that has seen no heartbeat can tell: the engine table says so and offers no fill
  ratio; after a heartbeat the ratio is there exactly when the budget is known, and it is then a
  finite number that is not negative.\<close>

lemma engine_table_fill:
  "case engine of
     None \<Rightarrow> ctx_get (engine_table engine) [''seen''] = Some (CBool False) \<and>
             ctx_get (engine_table engine) [''kv_fill''] = None
   | Some st \<Rightarrow> ctx_get (engine_table engine) [''seen''] = Some (CBool True) \<and>
       (case ctx_get (engine_table engine) [''kv_fill''] of
          None \<Rightarrow> kv_cache_budget_bytes st = 0
        | Some v \<Rightarrow> (\<exists>r \<ge> 0. v = CFloat (Fin r)) \<and> kv_cache_budget_bytes st \<noteq> 0)"
proof (cases engine)
  case (Some st)
  have "\<exists>r \<ge> 0. div64 (f64_of_u64 (kv_cache_bytes st)) (f64_of_u64 (kv_cache_budget_bytes st)) = Fin r"
    if "kv_cache_budget_bytes st \<noteq> 0"
    using div64_u64[OF that] by blast
  then show ?thesis using Some by (simp add: engine_table_def word_gt_0)
qed (simp add: engine_table_def)

end
