(* ===== verification/Lua_Policy.thy ===== *)
theory Lua_Policy
  imports Lua_Host "HOL-Library.Sublist"
begin

text \<open>
  The scripted policy (\<^verbatim>\<open>src/lua_policy.rs\<close>).  The virtual machine is the parameter
  \<^term>\<open>M\<close>: a state and the calls the policy makes on it, each of which may fail, and what a call does
  depends on what the script sees of the world at that call.  The theorems hold for every machine
  and every sequence of views, so for every script.
\<close>

section \<open>Definitions\<close>

record 'vm lua_machine =
  vm_fresh :: "host_view \<Rightarrow> 'vm"
  vm_register :: "'vm \<Rightarrow> string + 'vm"
  vm_exec :: "host_view \<Rightarrow> string \<Rightarrow> string \<Rightarrow> 'vm \<Rightarrow> string + 'vm"
  vm_decide_is_function :: "'vm \<Rightarrow> string + bool"
  vm_meta :: "'vm \<Rightarrow> (string \<times> string) option"
  vm_decide :: "host_view \<Rightarrow> ctx_value \<Rightarrow> 'vm \<Rightarrow> 'vm \<times> (string + lua_value)"
  vm_conv :: lua_conv

definition FALLBACK_ERROR_THRESHOLD :: u32 where
  "FALLBACK_ERROR_THRESHOLD = 3"

record 'vm lua_policy =
  lua :: 'vm
  script_path :: string
  policy_meta :: "(string \<times> string) option"
  signal_state :: signal_state
  trigger_engine :: trigger_engine
  engine_state :: "engine_status option"
  adaptation_config :: adaptation_config
  clock :: policy_clock
  gpu_provider :: gpu_handle
  consecutive_errors :: u32
  permanent_fallback :: bool
  dropped_actions :: u64

definition load_script :: "'vm lua_machine \<Rightarrow> host_view \<Rightarrow> string \<Rightarrow> 'vm \<Rightarrow> string + 'vm" where
  "load_script M h path vm =
     (case read_to_string (hv_files h) path of
        None \<Rightarrow> Inl (''Failed to read Lua script '' @ path)
      | Some script \<Rightarrow>
          (case vm_exec M h path script vm of
             Inl e \<Rightarrow> Inl (''Failed to evaluate Lua script '' @ path)
           | Inr vm' \<Rightarrow>
               (case vm_decide_is_function M vm' of
                  Inl e \<Rightarrow> Inl e
                | Inr is_fn \<Rightarrow>
                    if \<not> is_fn then Inl (''Lua script '' @ path @ '' must define a global decide'')
                    else Inr vm')))"

text \<open>A new machine with the helpers and the script loaded.  The helpers capture the provider: whenever
  the machine runs, it sees the world through the handle of the policy.\<close>

definition fresh_vm :: "'vm lua_machine \<Rightarrow> gpu_handle \<Rightarrow> host_view \<Rightarrow> string \<Rightarrow> string + 'vm" where
  "fresh_vm M g h path =
     (case vm_register M (vm_fresh M h) of
        Inl e \<Rightarrow> Inl (''Failed to register sys helpers: '' @ e)
      | Inr vm \<Rightarrow> load_script M (seen_through g h) path vm)"

definition new_with_gpu ::
  "'vm lua_machine \<Rightarrow> host_view \<Rightarrow> string \<Rightarrow> adaptation_config \<Rightarrow> policy_clock \<Rightarrow> gpu_handle \<Rightarrow>
   string + 'vm lua_policy" where
  "new_with_gpu M h path cfg clk g =
     (case fresh_vm M g h path of
        Inl e \<Rightarrow> Inl e
      | Inr vm \<Rightarrow> Inr
          \<lparr> lua = vm, script_path = path, policy_meta = vm_meta M vm,
            signal_state = signal_state_default,
            trigger_engine = trigger_engine_new (trigger_cfg cfg), engine_state = None,
            adaptation_config = cfg, clock = clk, gpu_provider = g,
            consecutive_errors = 0, permanent_fallback = False, dropped_actions = 0 \<rparr>)"

definition lua_policy_new ::
  "'vm lua_machine \<Rightarrow> host_view \<Rightarrow> string \<Rightarrow> adaptation_config \<Rightarrow> policy_clock \<Rightarrow> string + 'vm lua_policy" where
  "lua_policy_new M h path cfg clk = new_with_gpu M h path cfg clk SharedNull"

definition with_system_clock ::
  "'vm lua_machine \<Rightarrow> host_view \<Rightarrow> string \<Rightarrow> adaptation_config \<Rightarrow> string + 'vm lua_policy" where
  "with_system_clock M h path cfg = lua_policy_new M h path cfg SystemClock"

definition with_system_clock_and_gpu ::
  "'vm lua_machine \<Rightarrow> host_view \<Rightarrow> string \<Rightarrow> adaptation_config \<Rightarrow> gpu_handle \<Rightarrow> string + 'vm lua_policy" where
  "with_system_clock_and_gpu M h path cfg g = new_with_gpu M h path cfg SystemClock g"

text \<open>\<^verbatim>\<open>POLICY_META\<close>: a table with a name and a version, or nothing.\<close>

definition log_policy_meta ::
  "('vm \<Rightarrow> 't option) \<Rightarrow> ('t \<Rightarrow> string \<Rightarrow> string option) \<Rightarrow> 'vm \<Rightarrow> (string \<times> string) option" where
  "log_policy_meta global_table get vm =
     (case global_table vm of
        None \<Rightarrow> None
      | Some t \<Rightarrow>
          (case get t ''name'' of
             None \<Rightarrow> None
           | Some name \<Rightarrow> map_option (Pair name) (get t ''version'')))"

definition pressure :: "'vm lua_policy \<Rightarrow> pressure6d" where
  "pressure p =
     pressure_with_thermal (signal_state p) (temp_safe_c (adaptation_config p))
       (temp_critical_c (adaptation_config p)) (tbt_degradation_ratio (trigger_engine p))"

definition call_decide ::
  "'vm lua_machine \<Rightarrow> host_view \<Rightarrow> system_signal \<Rightarrow> 'vm lua_policy \<Rightarrow> 'vm lua_policy \<times> engine_command list" where
  "call_decide M h signal p =
     (if permanent_fallback p then (p, fallback_decide signal)
      else
        (let ctx = build_ctx (pressure p) (trigger (trigger_engine p)) (signal_state p) (engine_state p) in
         case vm_decide M (seen_through (gpu_provider p) h) ctx (lua p) of
           (vm', Inr value) \<Rightarrow>
             (case parse_actions (vm_conv M) value (dropped_actions p) of
                (cmds, dropped) \<Rightarrow>
                  (p\<lparr>lua := vm', dropped_actions := dropped, consecutive_errors := 0\<rparr>, cmds))
         | (vm', Inl e) \<Rightarrow>
             (let p1 = p\<lparr>lua := vm', consecutive_errors := consecutive_errors p + 1\<rparr>;
                  p2 = (if FALLBACK_ERROR_THRESHOLD \<le> consecutive_errors p1
                        then p1\<lparr>permanent_fallback := True\<rparr> else p1)
              in (p2, fallback_decide signal))))"

text \<open>The update of the readings and triggers at the head of \<^verbatim>\<open>process_signal\<close>.\<close>

definition absorb :: "system_signal \<Rightarrow> 'vm lua_policy \<Rightarrow> 'vm lua_policy" where
  "absorb signal p =
     (case signal of
        MemoryPressure l available_bytes total_bytes r \<Rightarrow>
          (let p1 = p\<lparr>signal_state := update_memory available_bytes total_bytes (signal_state p)\<rparr>;
               x = (if 0 < total_bytes
                    then sub64 (Fin 1) (div64 (f64_of_u64 available_bytes) (f64_of_u64 total_bytes))
                    else Fin 0)
           in p1\<lparr>trigger_engine := update_mem x (trigger_engine p1)\<rparr>)
      | ComputeGuidance l b rs cpu gpu \<Rightarrow>
          p\<lparr>signal_state := update_compute cpu gpu (signal_state p)\<rparr>
      | ThermalAlert l temperature_mc throttling_active r \<Rightarrow>
          (let p1 = p\<lparr>signal_state := update_thermal temperature_mc throttling_active (signal_state p)\<rparr>;
               normalized = f64_of_f32 (p_thermal (pressure p1))
           in p1\<lparr>trigger_engine := update_temp normalized (trigger_engine p1)\<rparr>)
      | EnergyConstraint l rs b \<Rightarrow> p)"

definition process_signal ::
  "'vm lua_machine \<Rightarrow> host_view \<Rightarrow> system_signal \<Rightarrow> 'vm lua_policy \<times> u64 \<Rightarrow>
   ('vm lua_policy \<times> u64) \<times> engine_directive option" where
  "process_signal M h signal pc =
     (case pc of (p, counter) \<Rightarrow>
      case call_decide M h signal (absorb signal p) of
        (p', cmds) \<Rightarrow>
          if cmds = [] then ((p', counter), None)
          else (case next_seq_id counter of
                  (counter', i) \<Rightarrow> ((p', counter'), Some \<lparr> seq_id = i, commands = cmds \<rparr>)))"

definition update_engine_state ::
  "engine_message \<Rightarrow> 'vm lua_policy \<times> u64 \<Rightarrow> 'vm lua_policy \<times> u64" where
  "update_engine_state msg pc =
     (case pc of (p, counter) \<Rightarrow>
      case msg of
        Heartbeat status \<Rightarrow>
          (p\<lparr>trigger_engine := update_tbt_ms (f64_of_f32 (tbt_ms status)) (trigger_engine p),
             engine_state := Some status\<rparr>, counter)
      | Response r \<Rightarrow> (p, counter))"

definition mode :: "'vm lua_policy \<Rightarrow> operating_mode" where
  "mode p =
     (let t = trigger (trigger_engine p) in
      if mem_low t then ModeCritical
      else if temp_high t \<or> tbt_degraded t then ModeWarning
      else ModeNormal)"

definition inspect_state :: "'vm lua_policy \<Rightarrow> record_entry list" where
  "inspect_state p =
     (let q = pressure p in
      [RecF32 ''pressure_gpu'' (p_gpu q), RecF32 ''pressure_cpu'' (p_cpu q),
       RecF32 ''pressure_memory'' (p_memory q), RecF32 ''pressure_thermal'' (p_thermal q),
       RecF32 ''pressure_latency'' (p_latency q), RecU64 ''dropped_actions'' (dropped_actions p)] @
      (case policy_meta p of
         Some (name, version) \<Rightarrow> [RecString ''policy_name'' name, RecString ''policy_version'' version]
       | None \<Rightarrow> []))"

definition reload_script ::
  "'vm lua_machine \<Rightarrow> host_view \<Rightarrow> string \<Rightarrow> 'vm lua_policy \<Rightarrow> 'vm lua_policy \<times> unit res" where
  "reload_script M h path p =
     (case fresh_vm M (gpu_provider p) h path of
        Inl e \<Rightarrow> (p, Inl e)
      | Inr vm \<Rightarrow>
          (p\<lparr>policy_meta := vm_meta M vm, lua := vm, script_path := path,
             consecutive_errors := 0, permanent_fallback := False\<rparr>, Inr ()))"

section \<open>The invariant of the error counter\<close>

definition lua_inv :: "'vm lua_policy \<times> u64 \<Rightarrow> bool" where
  "lua_inv pc = (let p = fst pc in
     unat (consecutive_errors p) \<le> 3 \<and> (permanent_fallback p \<longleftrightarrow> unat (consecutive_errors p) = 3))"

definition vm_fails :: "'vm lua_machine \<Rightarrow> host_view \<Rightarrow> 'vm lua_policy \<Rightarrow> bool" where
  "vm_fails M h p =
     isl (snd (vm_decide M (seen_through (gpu_provider p) h) (build_ctx (pressure p) (trigger (trigger_engine p)) (signal_state p) (engine_state p)) (lua p)))"

lemma absorb_frame [simp]:
  "consecutive_errors (absorb s p) = consecutive_errors p"
  "permanent_fallback (absorb s p) = permanent_fallback p"
  by (simp_all add: absorb_def Let_def split: system_signal.splits)

lemma unat_u32_Suc: "unat (n :: u32) < 3 \<Longrightarrow> unat (n + 1) = Suc (unat n)"
proof -
  assume "unat n < 3"
  then have "n = of_nat (unat n)" "unat n = 0 \<or> unat n = 1 \<or> unat n = 2" by (simp, linarith)
  then consider "n = 0" | "n = 1" | "n = 2" by fastforce
  then show ?thesis by cases simp_all
qed

lemma call_decide_errors:
  assumes "lua_inv (p, c)"
  shows "unat (consecutive_errors (fst (call_decide M h s p))) =
      (if permanent_fallback p then unat (consecutive_errors p)
       else if vm_fails M h p then Suc (unat (consecutive_errors p)) else 0)"
    and "permanent_fallback (fst (call_decide M h s p)) =
      (permanent_fallback p \<or> vm_fails M h p \<and> unat (consecutive_errors p) = 2)"
proof -
  have lt: "unat (consecutive_errors p) < 3" if "\<not> permanent_fallback p"
    using assms that by (auto simp: lua_inv_def)
  show "unat (consecutive_errors (fst (call_decide M h s p))) =
      (if permanent_fallback p then unat (consecutive_errors p)
       else if vm_fails M h p then Suc (unat (consecutive_errors p)) else 0)"
    using lt unat_u32_Suc
    by (auto simp: call_decide_def vm_fails_def Let_def split: sum.splits prod.splits)
  show "permanent_fallback (fst (call_decide M h s p)) =
      (permanent_fallback p \<or> vm_fails M h p \<and> unat (consecutive_errors p) = 2)"
    using lt unat_u32_Suc
    by (auto simp: call_decide_def vm_fails_def Let_def FALLBACK_ERROR_THRESHOLD_def word_le_nat_alt
        split: sum.splits prod.splits)
qed

lemma call_decide_inv: "lua_inv (p, c) \<Longrightarrow> lua_inv (fst (call_decide M h s p), c')"
  using call_decide_errors[of p c M h s] by (auto simp: lua_inv_def Let_def)

lemma call_decide_commands: "list_all command_ok (snd (call_decide M h s p))"
  using parse_actions_ok fallback_ok
  by (auto simp: call_decide_def Let_def split: sum.splits prod.splits) (metis fst_conv)+

lemma process_signal_fst: "fst (fst (process_signal M h s (p, c))) = fst (call_decide M h s (absorb s p))"
  by (simp add: process_signal_def next_seq_id_def split: prod.splits)

interpretation lua_pol: policy_strategy "process_signal M" update_engine_state lua_inv for M :: "'vm lua_machine"
proof
  fix pc :: "'vm lua_policy \<times> u64" and h :: host_view and s :: system_signal and m :: engine_message and d
  obtain p c where pc: "pc = (p, c)" by (cases pc)
  have a: "lua_inv (absorb s p, c) = lua_inv (p, c)" by (simp add: lua_inv_def)
  show "lua_inv pc \<Longrightarrow> lua_inv (fst (process_signal M h s pc))"
    using call_decide_inv[of "absorb s p" c M h s "snd (fst (process_signal M h s (p, c)))"] a pc
    by (metis prod.collapse process_signal_fst)
  show "lua_inv pc \<Longrightarrow> lua_inv (update_engine_state m pc)"
    by (auto simp: pc update_engine_state_def lua_inv_def split: engine_message.splits)
  show "snd (process_signal M h s pc) = Some d \<Longrightarrow> directive_ok d"
    using call_decide_commands[of M h s "absorb s p"]
    by (auto simp: pc process_signal_def next_seq_id_def directive_ok_def split: prod.splits if_splits)
qed

section \<open>The fallback latch\<close>

text \<open>A run over signals, each with what the script sees while it decides, and the outcomes of the calls
  of the machine in it: a failure is true.  No call is made once the fallback is latched.\<close>

fun signal_run ::
  "'vm lua_machine \<Rightarrow> 'vm lua_policy \<times> u64 \<Rightarrow> (host_view \<times> system_signal) list \<Rightarrow>
   ('vm lua_policy \<times> u64) \<times> engine_directive list" where
  "signal_run M pc [] = (pc, [])"
| "signal_run M pc ((h, s) # ss) =
     (case process_signal M h s pc of
        (pc', None) \<Rightarrow> signal_run M pc' ss
      | (pc', Some d) \<Rightarrow> apsnd ((#) d) (signal_run M pc' ss))"

fun vm_outcomes :: "'vm lua_machine \<Rightarrow> 'vm lua_policy \<times> u64 \<Rightarrow> (host_view \<times> system_signal) list \<Rightarrow> bool list" where
  "vm_outcomes M pc [] = []"
| "vm_outcomes M pc ((h, s) # ss) =
     (let p1 = absorb s (fst pc) in
      if permanent_fallback p1 then []
      else vm_fails M h p1 # vm_outcomes M (fst (process_signal M h s pc)) ss)"

lemma signal_run_Cons:
  "fst (signal_run M pc ((h, s) # ss)) = fst (signal_run M (fst (process_signal M h s pc)) ss)"
  by (cases "process_signal M h s pc"; cases "snd (process_signal M h s pc)") auto

lemma signal_run_policy_run:
  "signal_run M pc ss = policy_run (process_signal M) update_engine_state pc (map (\<lambda>(h, s). SignalIn h s) ss)"
  by (induction ss arbitrary: pc) (auto split: prod.splits option.splits)

lemma latched_run:
  assumes "lua_inv pc" and "permanent_fallback (fst pc)"
  shows "permanent_fallback (fst (fst (signal_run M pc ss)))"
  using assms
proof (induction ss arbitrary: pc)
  case (Cons hs ss)
  obtain p c h s where pc: "pc = (p, c)" and hs: "hs = (h, s)" by (cases pc; cases hs)
  have "lua_inv (absorb s p, c)" using Cons.prems pc by (simp add: lua_inv_def)
  then have "permanent_fallback (fst (fst (process_signal M h s pc)))"
    using call_decide_errors(2)[of "absorb s p" c M h s] Cons.prems by (simp add: pc process_signal_fst)
  then show ?case using Cons.IH lua_pol.process_inv[OF Cons.prems(1)] signal_run_Cons unfolding hs by metis
qed simp

lemma suffix_TTT_False: "suffix [True, True, True] (xs @ False # ys) = suffix [True, True, True] ys"
proof -
  have "prefix [True, True, True] (r @ False # z) = prefix [True, True, True] r" for r z :: "bool list"
    by (cases r; cases "tl r"; cases "tl (tl r)") auto
  from this[of "rev ys" "rev xs"] show ?thesis by (simp add: suffix_to_prefix)
qed

lemma latch_exact:
  assumes "lua_inv pc" and "\<not> permanent_fallback (fst pc)"
  shows "permanent_fallback (fst (fst (signal_run M pc ss))) \<longleftrightarrow>
    suffix [True, True, True] (replicate (unat (consecutive_errors (fst pc))) True @ vm_outcomes M pc ss)"
  using assms
proof (induction ss arbitrary: pc)
  case Nil
  then have "unat (consecutive_errors (fst pc)) < 3" by (auto simp: lua_inv_def Let_def)
  then have "\<not> suffix [True, True, True] (replicate (unat (consecutive_errors (fst pc))) True)"
    using suffix_length_le by fastforce
  then show ?case using Nil by simp
next
  case (Cons hs ss)
  obtain p c h s where pc: "pc = (p, c)" and hs: "hs = (h, s)" by (cases pc; cases hs)
  define k where "k = unat (consecutive_errors p)"
  let ?p1 = "absorb s p" and ?pc' = "fst (process_signal M h s pc)"
  have i1: "lua_inv (?p1, c)" using Cons.prems pc by (simp add: lua_inv_def)
  have i': "lua_inv ?pc'" using Cons.prems(1) by (rule lua_pol.process_inv)
  have np: "\<not> permanent_fallback ?p1" using Cons.prems(2) pc by simp
  have e: "unat (consecutive_errors (fst ?pc')) = (if vm_fails M h ?p1 then Suc k else 0)"
    "permanent_fallback (fst ?pc') = (vm_fails M h ?p1 \<and> k = 2)"
    using call_decide_errors[OF i1, of M h s] np by (simp_all add: pc process_signal_fst k_def)
  have o: "vm_outcomes M pc ((h, s) # ss) = vm_fails M h ?p1 # vm_outcomes M ?pc' ss"
    using np by (simp add: pc)
  show ?case
  proof (cases "permanent_fallback (fst ?pc')")
    case True
    then have f: "vm_fails M h ?p1" "k = 2" using e by simp_all
    have "vm_outcomes M ?pc' ss = []" using True by (cases ss; cases "hd ss") simp_all
    moreover have "permanent_fallback (fst (fst (signal_run M pc ((h, s) # ss))))"
      using latched_run[OF i' True] signal_run_Cons[of M pc h s ss] by simp
    ultimately show ?thesis using f o by (simp add: pc hs k_def [symmetric] numeral_2_eq_2)
  next
    case False
    note ih = Cons.IH[OF i' False, folded signal_run_Cons hs]
    show ?thesis
    proof (cases "vm_fails M h ?p1")
      case True
      then show ?thesis using ih e o by (simp add: pc hs k_def [symmetric] replicate_app_Cons_same)
    next
      case False
      then show ?thesis using ih e o suffix_TTT_False by (simp add: pc hs k_def [symmetric])
    qed
  qed
qed

lemma fallback_commands:
  assumes "permanent_fallback p \<or> vm_fails M h (absorb s p)"
  shows "snd (call_decide M h s (absorb s p)) = fallback_decide s"
  using assms by (auto simp: call_decide_def vm_fails_def Let_def split: sum.splits prod.splits)

section \<open>What a policy sees through its handles\<close>

text \<open>The same policy with another clock and provider, and views of the world that no call of the script can
  tell apart.\<close>

definition with_handles :: "policy_clock \<Rightarrow> gpu_handle \<Rightarrow> 'vm lua_policy \<times> u64 \<Rightarrow> 'vm lua_policy \<times> u64" where
  "with_handles c g pc = ((fst pc)\<lparr>clock := c, gpu_provider := g\<rparr>, snd pc)"

definition looks_same :: "'vm lua_machine \<Rightarrow> host_view \<Rightarrow> host_view \<Rightarrow> bool" where
  "looks_same M h h' = (\<forall>ctx vm. vm_decide M h ctx vm = vm_decide M h' ctx vm)"

lemma looks_same_refl [simp]: "looks_same M h h"
  by (simp add: looks_same_def)

lemma absorb_handles: "absorb s (p\<lparr>clock := c, gpu_provider := g\<rparr>) = (absorb s p)\<lparr>clock := c, gpu_provider := g\<rparr>"
  by (simp add: absorb_def pressure_def Let_def split: system_signal.splits)

lemma absorb_keeps_provider [simp]: "gpu_provider (absorb s p) = gpu_provider p"
  by (simp add: absorb_def Let_def split: system_signal.splits)

lemma call_decide_keeps_provider: "gpu_provider (fst (call_decide M h s p)) = gpu_provider p"
  by (simp add: call_decide_def Let_def split: prod.splits sum.splits)

lemma call_decide_handles:
  assumes "looks_same M (seen_through (gpu_provider p) h) (seen_through g h')"
  shows "call_decide M h' s (p\<lparr>clock := c, gpu_provider := g\<rparr>) =
    apfst (\<lambda>q. q\<lparr>clock := c, gpu_provider := g\<rparr>) (call_decide M h s p)"
proof -
  have "vm_decide M (seen_through g h') ctx vm = vm_decide M (seen_through (gpu_provider p) h) ctx vm" for ctx vm
    using assms by (simp add: looks_same_def)
  then show ?thesis
    by (simp add: call_decide_def pressure_def Let_def split: prod.splits sum.splits)
qed

text \<open>Such policies decide alike on such views, and stay the same but for their handles.\<close>

lemma process_signal_handles:
  assumes "looks_same M (seen_through (gpu_provider (fst pc)) h) (seen_through g h')"
  shows "process_signal M h' s (with_handles c g pc) = apfst (with_handles c g) (process_signal M h s pc)"
  using call_decide_handles[of M "absorb s (fst pc)" h g h' s c] assms
  by (simp add: process_signal_def with_handles_def absorb_handles next_seq_id_def split: prod.splits)

lemma process_signal_keeps_provider:
  "gpu_provider (fst (fst (process_signal M h s pc))) = gpu_provider (fst pc)"
proof (cases pc)
  case (Pair p n)
  then show ?thesis using call_decide_keeps_provider[of M h s "absorb s p"]
    by (cases "call_decide M h s (absorb s p)") (simp add: process_signal_def next_seq_id_def)
qed

lemma update_engine_state_handles:
  "update_engine_state m (with_handles c g pc) = with_handles c g (update_engine_state m pc)"
  "gpu_provider (fst (update_engine_state m pc)) = gpu_provider (fst pc)"
  by (simp_all add: update_engine_state_def with_handles_def split: prod.splits engine_message.splits)

section \<open>Properties\<close>

text \<open>C15: Whatever the script does and sees, a policy that starts in a consistent state stays in one through
  any sequence of signals and engine messages, and every directive it produces has at least one
  command and only commands the engine can read.\<close>

theorem lua_policy_directives_valid:
  assumes "lua_inv pc"
  shows "lua_inv (fst (policy_run (process_signal M) update_engine_state pc is)) \<and> list_all directive_ok (snd (policy_run (process_signal M) update_engine_state pc is))"
  using assms by (rule lua_pol.policy_run_ok)

text \<open>C3: The built-in decider takes over for good exactly when the machine fails three times in a
  row: after any run from a fresh policy the fallback is latched if and only if the last three
  calls of the machine failed (no call is made after that).\<close>

theorem fallback_latch_exact:
  assumes "lua_inv pc" and "consecutive_errors (fst pc) = 0"
  shows "permanent_fallback (fst (fst (signal_run M pc ss))) \<longleftrightarrow>
     suffix [True, True, True] (vm_outcomes M pc ss)"
proof -
  have "\<not> permanent_fallback (fst pc)" using assms by (simp add: lua_inv_def)
  from latch_exact[OF assms(1) this] show ?thesis using assms(2) by simp
qed

text \<open>C26: With a machine that fails on every call, whatever it sees, the policy still decides: it sends
  exactly the directives of the built-in decider, in order.\<close>

theorem broken_machine_falls_back:
  assumes "\<forall>h ctx vm. isl (snd (vm_decide M h ctx vm))"
  shows "map commands (snd (signal_run M pc ss)) = filter (\<lambda>cs. cs \<noteq> []) (map (fallback_decide \<circ> snd) ss)"
proof (induction ss arbitrary: pc)
  case (Cons hs ss)
  obtain p c h s where pc: "pc = (p, c)" and hs: "hs = (h, s)" by (cases pc; cases hs)
  have "vm_fails M h (absorb s p)" using assms by (simp add: vm_fails_def)
  then have f: "snd (call_decide M h s (absorb s p)) = fallback_decide s" by (intro fallback_commands) simp
  obtain q cs where q: "call_decide M h s (absorb s p) = (q, cs)" by (cases "call_decide M h s (absorb s p)")
  show ?case using Cons.IH f q by (simp add: pc hs process_signal_def next_seq_id_def)
qed simp

text \<open>Reloading is all or nothing: when the new script does not load the running policy is
  unchanged; when it does, the readings, triggers and counters of dropped actions are kept and a
  latched fallback is released.\<close>

lemma reload_all_or_nothing:
  "case reload_script M h path p of
     (p', Inl e) \<Rightarrow> p' = p
   | (p', Inr _) \<Rightarrow>
       lua_inv (p', c) \<and> \<not> permanent_fallback p' \<and> script_path p' = path \<and>
       signal_state p' = signal_state p \<and> trigger_engine p' = trigger_engine p \<and>
       engine_state p' = engine_state p \<and> gpu_provider p' = gpu_provider p \<and> dropped_actions p' = dropped_actions p \<and> mode p' = mode p"
  by (simp add: reload_script_def lua_inv_def mode_def split: sum.splits)

section \<open>A concrete machine\<close>

text \<open>A world, with one file that exists everywhere.\<close>

definition example_host :: host_view where
  "example_host =
     \<lparr> hv_files = \<lparr> read_to_string = (\<lambda>p. Some ''decide''), path_exists = (\<lambda>_. False), read_dir = (\<lambda>_. None) \<rparr>,
       hv_gpu = Some NullGpu, hv_dumpsys = None, hv_now = 0, hv_other = [] \<rparr>"

text \<open>A machine whose state counts its calls: it fails on all calls but every fourth, where it asks
  for a suspension, or for a restoration when the shared GPU provider is not there.\<close>

definition example_conv :: lua_conv where
  "example_conv =
     \<lparr> as_string = (\<lambda>v. case v of LString s \<Rightarrow> Inr s | _ \<Rightarrow> Inl ''not a string''),
       as_f32 = (\<lambda>v. case v of LNumber x \<Rightarrow> Inr (f32_of_f64 x) | _ \<Rightarrow> Inl ''not a number''),
       GPU_YIELD_EVERY_MAX = 64 \<rparr>"

definition example_machine :: "nat lua_machine" where
  "example_machine =
     \<lparr> vm_fresh = (\<lambda>h. 0), vm_register = Inr, vm_exec = (\<lambda>h path script vm. Inr vm),
       vm_decide_is_function = (\<lambda>vm. Inr True), vm_meta = (\<lambda>vm. None),
       vm_decide = (\<lambda>h ctx vm. (Suc vm,
          if vm mod 4 = 3
          then Inr (LTable (\<lambda>k. Inr (if k = ''type''
            then LString (if hv_gpu h = None then ''restore_defaults'' else ''suspend'') else LNil)) [])
          else Inl ''error'')),
       vm_conv = example_conv \<rparr>"

definition broken_machine :: "nat lua_machine" where
  "broken_machine = example_machine\<lparr>vm_decide := (\<lambda>h ctx vm. (vm, Inl ''error''))\<rparr>"

definition example_policy :: "nat lua_policy" where
  "example_policy =
     \<lparr> lua = 2, script_path = ''policy.lua'', policy_meta = None, signal_state = signal_state_default,
       trigger_engine = trigger_engine_new example_trigger, engine_state = None,
       adaptation_config = adaptation_config_default, clock = SystemClock, gpu_provider = SharedProvider,
       consecutive_errors = 0, permanent_fallback = False, dropped_actions = 0 \<rparr>"

lemma example_policy_inv: "lua_inv (example_policy, 1)"
  by (simp add: lua_inv_def example_policy_def)

abbreviation "charging_signal \<equiv> EnergyConstraint Normal Charging 0"

theorem lua_policy_directives_valid_witness:
  "list_all directive_ok (snd (policy_run (process_signal example_machine) update_engine_state (example_policy, 1)
     [SignalIn example_host charging_signal, SignalIn example_host charging_signal]))"
  using lua_policy_directives_valid[OF example_policy_inv] by blast

abbreviation "seen_charging \<equiv> (example_host, charging_signal)"

theorem fallback_latch_exact_witness:
  "\<not> permanent_fallback (fst (fst (signal_run example_machine (example_policy, 1)
     [seen_charging, seen_charging, seen_charging, seen_charging])))"
proof -
  have o: "vm_outcomes example_machine (example_policy, 1)
      [seen_charging, seen_charging, seen_charging, seen_charging] = [True, False, True, True]"
    by (simp add: example_policy_def example_machine_def example_conv_def example_host_def seen_through_def
        vm_fails_def process_signal_def
        call_decide_def absorb_def fallback_decide_def parse_actions_def parse_single_action_def
        FALLBACK_ERROR_THRESHOLD_def next_seq_id_def Let_def word_le_nat_alt)
  have z: "consecutive_errors (fst (example_policy, 1)) = 0" by (simp add: example_policy_def)
  show ?thesis
    unfolding fallback_latch_exact[OF example_policy_inv z] o by (simp add: suffix_def)
qed

theorem broken_machine_falls_back_witness:
  "map commands (snd (signal_run broken_machine (example_policy, 1)
     [(example_host, MemoryPressure Normal 4 8 0), seen_charging])) = [[RestoreDefaults]]"
  by (subst broken_machine_falls_back)
    (simp_all add: broken_machine_def example_machine_def fallback_decide_def)

end
