(* ===== verification/Channel.thy ===== *)
theory Channel
  imports Signal "HOL-Library.Sublist"
begin

text \<open>
  The link to the engine: the Unix-socket and TCP channels (\<^verbatim>\<open>src/channel/unix_socket.rs\<close>,
  \<^verbatim>\<open>src/channel/tcp.rs\<close>), which share one connection state machine, and the one-way Unix-socket
  emitter (\<^verbatim>\<open>src/emitter/unix_socket.rs\<close>).  Sockets are outside the repository: each operation
  takes what the calls it makes on them return.  JSON is a parameter.  A connection holds the
  bytes written to it and the inbox its reader thread fills; the thread's pushes are steps of
  their own, so every interleaving is covered.
\<close>

section \<open>Framing\<close>

definition to_be_bytes :: "u32 \<Rightarrow> u8 list" where
  "to_be_bytes n = map (\<lambda>k. of_nat (unat n div 256 ^ k mod 256)) [3, 2, 1, 0]"

definition from_be_bytes :: "u8 list \<Rightarrow> u32" where
  "from_be_bytes bs = of_nat (foldl (\<lambda>a b. 256 * a + unat b) 0 bs)"

definition MAX_PAYLOAD_SIZE :: u32 where
  "MAX_PAYLOAD_SIZE = 64 * 1024"

definition read_exact :: "nat \<Rightarrow> u8 list \<Rightarrow> (u8 list \<times> u8 list) res" where
  "read_exact n bs = (if n \<le> length bs then Inr (take n bs, drop n bs) else Inl ''failed to fill whole buffer'')"

definition read_engine_message :: "(u8 list \<Rightarrow> 'm res) \<Rightarrow> u8 list \<Rightarrow> ('m \<times> u8 list) res" where
  "read_engine_message from_json stream =
     (case read_exact 4 stream of
        Inl e \<Rightarrow> Inl e
      | Inr (len_buf, rest) \<Rightarrow>
          (let payload_len = from_be_bytes len_buf in
           if MAX_PAYLOAD_SIZE < payload_len then Inl ''payload length exceeds MAX_PAYLOAD_SIZE''
           else case read_exact (unat payload_len) rest of
             Inl e \<Rightarrow> Inl e
           | Inr (json_buf, rest') \<Rightarrow>
               (case from_json json_buf of Inl e \<Rightarrow> Inl e | Inr msg \<Rightarrow> Inr (msg, rest'))))"

lemma read_engine_message_consumes:
  "read_engine_message from_json s = Inr (m, r) \<Longrightarrow> length r < length s"
  by (auto simp: read_engine_message_def read_exact_def Let_def split: sum.splits if_splits intro!: diff_less)

text \<open>The loop of the reader thread over the bytes the peer sends until it closes: the messages it
  pushes, in order, while the receiver takes them.\<close>

function reader_loop :: "(u8 list \<Rightarrow> 'm res) \<Rightarrow> u8 list \<Rightarrow> 'm list" where
  "reader_loop from_json stream =
     (case read_engine_message from_json stream of
        Inl e \<Rightarrow> []
      | Inr (msg, rest) \<Rightarrow> msg # reader_loop from_json rest)"
  by pat_completeness auto
termination
  by (relation "measure (\<lambda>(f, s). length s)") (auto dest: read_engine_message_consumes)

declare reader_loop.simps [simp del]

definition frame :: "u8 list \<Rightarrow> u8 list" where
  "frame json = to_be_bytes (of_nat (length json)) @ json"

section \<open>The connection state machine\<close>

datatype outgoing = OutSignal system_signal | OutMessage manager_message

record connection =
  written :: "u8 list"
  inbox :: "engine_message list"
  reader_exited :: bool

datatype connection_state = Listening | Connected connection | Disconnected

text \<open>A non-blocking accept: a stream, which can be cloned or not, nothing waiting, or an error.\<close>

datatype accept_outcome = Accepted bool | NoneWaiting | AcceptError

definition inbox_capacity :: nat where
  "inbox_capacity = 64"

definition transition_to_connected :: "bool \<Rightarrow> connection_state" where
  "transition_to_connected clone_ok =
     (if \<not> clone_ok then Disconnected
      else Connected \<lparr> written = [], inbox = [], reader_exited = False \<rparr>)"

text \<open>One turn of the wait: the shutdown flag, what accept returns, whether the timeout has passed.\<close>

fun wait_for_client :: "(bool \<times> accept_outcome \<times> bool) list \<Rightarrow> connection_state \<Rightarrow> connection_state \<times> bool" where
  "wait_for_client [] st = (st, False)"
| "wait_for_client ((sd, acc, timed_out) # turns) st =
     (if sd then (st, False)
      else case acc of
        Accepted clone_ok \<Rightarrow> (transition_to_connected clone_ok, True)
      | NoneWaiting \<Rightarrow> if timed_out then (st, False) else wait_for_client turns st
      | AcceptError \<Rightarrow> (st, False))"

definition ensure_connected :: "accept_outcome \<Rightarrow> connection_state \<Rightarrow> connection_state" where
  "ensure_connected acc st =
     (case st of
        Disconnected \<Rightarrow>
          (case acc of
             Accepted clone_ok \<Rightarrow> transition_to_connected clone_ok
           | NoneWaiting \<Rightarrow> st
           | AcceptError \<Rightarrow> st)
      | _ \<Rightarrow> st)"

text \<open>Writing one message; the result of the socket calls is \<^term>\<open>write_ok\<close>.\<close>

definition write_message ::
  "(outgoing \<Rightarrow> u8 list res) \<Rightarrow> bool \<Rightarrow> outgoing \<Rightarrow> connection_state \<Rightarrow> connection_state \<times> unit res" where
  "write_message to_json write_ok msg st =
     (case st of
        Connected c \<Rightarrow>
          (case to_json msg of
             Inl e \<Rightarrow> (st, Inl e)
           | Inr json \<Rightarrow>
               if write_ok then (Connected (c\<lparr>written := written c @ frame json\<rparr>), Inr ())
               else (st, Inl ''write error''))
      | _ \<Rightarrow> (st, Inl ''No client connected''))"

definition emit_out ::
  "(outgoing \<Rightarrow> u8 list res) \<Rightarrow> accept_outcome \<Rightarrow> bool \<Rightarrow> outgoing \<Rightarrow> connection_state \<Rightarrow>
   connection_state \<times> unit res" where
  "emit_out to_json acc write_ok msg st =
     (let st1 = ensure_connected acc st in
      case st1 of
        Connected c \<Rightarrow>
          (case write_message to_json write_ok msg st1 of
             (st2, Inl e) \<Rightarrow> (Disconnected, Inr ())
           | (st2, Inr _) \<Rightarrow> (st2, Inr ()))
      | _ \<Rightarrow> (st1, Inr ()))"

definition emit :: "(outgoing \<Rightarrow> u8 list res) \<Rightarrow> accept_outcome \<Rightarrow> bool \<Rightarrow> system_signal \<Rightarrow>
   connection_state \<Rightarrow> connection_state \<times> unit res" where
  "emit to_json acc write_ok signal = emit_out to_json acc write_ok (OutSignal signal)"

definition emit_directive :: "(outgoing \<Rightarrow> u8 list res) \<Rightarrow> accept_outcome \<Rightarrow> bool \<Rightarrow> engine_directive \<Rightarrow>
   connection_state \<Rightarrow> connection_state \<times> unit res" where
  "emit_directive to_json acc write_ok d = emit_out to_json acc write_ok (OutMessage (Directive d))"

fun emit_initial :: "(outgoing \<Rightarrow> u8 list res) \<Rightarrow> (accept_outcome \<times> bool \<times> system_signal) list \<Rightarrow>
   connection_state \<Rightarrow> connection_state \<times> unit res" where
  "emit_initial to_json [] st = (st, Inr ())"
| "emit_initial to_json ((acc, write_ok, signal) # rest) st =
     (case emit to_json acc write_ok signal st of
        (st', Inl e) \<Rightarrow> (st', Inl e)
      | (st', Inr _) \<Rightarrow> emit_initial to_json rest st')"

definition try_recv :: "connection_state \<Rightarrow> connection_state \<times> engine_message option res" where
  "try_recv st =
     (case st of
        Connected c \<Rightarrow>
          (case inbox c of
             m # ms \<Rightarrow> (Connected (c\<lparr>inbox := ms\<rparr>), Inr (Some m))
           | [] \<Rightarrow> if reader_exited c then (Disconnected, Inr None) else (st, Inr None))
      | _ \<Rightarrow> (st, Inr None))"

definition is_connected :: "connection_state \<Rightarrow> bool" where
  "is_connected st = (case st of Connected c \<Rightarrow> True | _ \<Rightarrow> False)"

text \<open>The reader thread: a push waits for room in the bounded inbox; an error ends the thread.\<close>

definition reader_push :: "engine_message \<Rightarrow> connection_state \<Rightarrow> connection_state" where
  "reader_push m st =
     (case st of
        Connected c \<Rightarrow>
          if \<not> reader_exited c \<and> length (inbox c) < inbox_capacity
          then Connected (c\<lparr>inbox := inbox c @ [m]\<rparr>) else st
      | _ \<Rightarrow> st)"

definition reader_exit :: "connection_state \<Rightarrow> connection_state" where
  "reader_exit st = (case st of Connected c \<Rightarrow> Connected (c\<lparr>reader_exited := True\<rparr>) | _ \<Rightarrow> st)"

section \<open>The two transports\<close>

record unix_socket_channel =
  socket_path :: string
  unix_state :: connection_state

definition unix_channel_new :: "bool \<Rightarrow> string \<Rightarrow> unix_socket_channel res" where
  "unix_channel_new bind_ok path =
     (if \<not> bind_ok then Inl ''bind'' else Inr \<lparr> socket_path = path, unix_state = Listening \<rparr>)"

definition unix_emit where
  "unix_emit to_json acc write_ok s ch =
     (case emit to_json acc write_ok s (unix_state ch) of (st, r) \<Rightarrow> (ch\<lparr>unix_state := st\<rparr>, r))"

definition unix_emit_directive where
  "unix_emit_directive to_json acc write_ok d ch =
     (case emit_directive to_json acc write_ok d (unix_state ch) of (st, r) \<Rightarrow> (ch\<lparr>unix_state := st\<rparr>, r))"

definition unix_try_recv where
  "unix_try_recv ch = (case try_recv (unix_state ch) of (st, r) \<Rightarrow> (ch\<lparr>unix_state := st\<rparr>, r))"

definition unix_is_connected where
  "unix_is_connected ch = is_connected (unix_state ch)"

record tcp_channel =
  addr :: string
  tcp_state :: connection_state

definition tcp_channel_new :: "bool \<Rightarrow> string \<Rightarrow> tcp_channel res" where
  "tcp_channel_new bind_ok a =
     (if \<not> bind_ok then Inl ''bind'' else Inr \<lparr> addr = a, tcp_state = Listening \<rparr>)"

definition tcp_wait_for_client where
  "tcp_wait_for_client turns ch =
     (case wait_for_client turns (tcp_state ch) of (st, r) \<Rightarrow> (ch\<lparr>tcp_state := st\<rparr>, r))"

definition tcp_ensure_connected where
  "tcp_ensure_connected acc ch = ch\<lparr>tcp_state := ensure_connected acc (tcp_state ch)\<rparr>"

definition tcp_transition_to_connected where
  "tcp_transition_to_connected clone_ok ch = ch\<lparr>tcp_state := transition_to_connected clone_ok\<rparr>"

definition tcp_write_message where
  "tcp_write_message to_json write_ok msg ch =
     (case write_message to_json write_ok msg (tcp_state ch) of (st, r) \<Rightarrow> (ch\<lparr>tcp_state := st\<rparr>, r))"

definition tcp_emit where
  "tcp_emit to_json acc write_ok s ch =
     (case emit to_json acc write_ok s (tcp_state ch) of (st, r) \<Rightarrow> (ch\<lparr>tcp_state := st\<rparr>, r))"

definition tcp_emit_initial where
  "tcp_emit_initial to_json rest ch =
     (case emit_initial to_json rest (tcp_state ch) of (st, r) \<Rightarrow> (ch\<lparr>tcp_state := st\<rparr>, r))"

definition tcp_emit_directive where
  "tcp_emit_directive to_json acc write_ok d ch =
     (case emit_directive to_json acc write_ok d (tcp_state ch) of (st, r) \<Rightarrow> (ch\<lparr>tcp_state := st\<rparr>, r))"

definition tcp_try_recv where
  "tcp_try_recv ch = (case try_recv (tcp_state ch) of (st, r) \<Rightarrow> (ch\<lparr>tcp_state := st\<rparr>, r))"

definition tcp_is_connected where
  "tcp_is_connected ch = is_connected (tcp_state ch)"

definition tcp_read_engine_message where
  "tcp_read_engine_message = read_engine_message"

definition tcp_reader_loop where
  "tcp_reader_loop = reader_loop"

section \<open>The one-way emitter\<close>

text \<open>Its state is the client, the bytes written to it, when there is one.\<close>

fun emitter_wait_for_client :: "(bool \<times> accept_outcome \<times> bool) list \<Rightarrow> u8 list option \<Rightarrow> u8 list option \<times> bool" where
  "emitter_wait_for_client [] cl = (cl, False)"
| "emitter_wait_for_client ((sd, acc, timed_out) # turns) cl =
     (if sd then (cl, False)
      else case acc of
        Accepted _ \<Rightarrow> (Some [], True)
      | NoneWaiting \<Rightarrow> if timed_out then (cl, False) else emitter_wait_for_client turns cl
      | AcceptError \<Rightarrow> (cl, False))"

definition try_accept_client :: "accept_outcome \<Rightarrow> u8 list option \<Rightarrow> u8 list option \<times> bool" where
  "try_accept_client acc cl =
     (case cl of
        Some w \<Rightarrow> (cl, True)
      | None \<Rightarrow> (case acc of Accepted _ \<Rightarrow> (Some [], True) | _ \<Rightarrow> (None, False)))"

definition emitter_write :: "(outgoing \<Rightarrow> u8 list res) \<Rightarrow> bool \<Rightarrow> outgoing \<Rightarrow> u8 list option \<Rightarrow> u8 list option \<times> unit res" where
  "emitter_write to_json write_ok msg cl =
     (case cl of
        None \<Rightarrow> (cl, Inl ''No client connected'')
      | Some w \<Rightarrow>
          (case to_json msg of
             Inl e \<Rightarrow> (cl, Inl e)
           | Inr json \<Rightarrow> if write_ok then (Some (w @ frame json), Inr ()) else (cl, Inl ''write error'')))"

definition emitter_emit_out ::
  "(outgoing \<Rightarrow> u8 list res) \<Rightarrow> accept_outcome \<Rightarrow> bool \<Rightarrow> outgoing \<Rightarrow> u8 list option \<Rightarrow> u8 list option \<times> unit res" where
  "emitter_emit_out to_json acc write_ok msg cl =
     (case try_accept_client acc cl of
        (cl1, False) \<Rightarrow> (cl1, Inr ())
      | (cl1, True) \<Rightarrow>
          (case emitter_write to_json write_ok msg cl1 of
             (cl2, Inr _) \<Rightarrow> (cl2, Inr ())
           | (cl2, Inl e) \<Rightarrow> (None, Inr ())))"

definition emitter_emit where
  "emitter_emit to_json acc write_ok signal = emitter_emit_out to_json acc write_ok (OutSignal signal)"

definition emitter_emit_directive where
  "emitter_emit_directive to_json acc write_ok d = emitter_emit_out to_json acc write_ok (OutMessage (Directive d))"

section \<open>Framing facts\<close>

lemma to_be_bytes_length [simp]: "length (to_be_bytes n) = 4"
  by (simp add: to_be_bytes_def)

lemma be_bytes_roundtrip: "from_be_bytes (to_be_bytes n) = n"
proof -
  have b: "unat (of_nat (x mod 256) :: u8) = x mod 256" for x :: nat
    by (simp add: unsigned_of_nat take_bit_nat_eq_self)
  have "unat n < 2 ^ 32" using unsigned_less[of n] by simp
  then have "unat n div 16777216 < 256" by simp
  then have m: "unat n div 16777216 mod 256 = unat n div 16777216"
    "unat (of_nat (unat n div 16777216) :: u8) = unat n div 16777216"
    by (simp_all add: unsigned_of_nat take_bit_nat_eq_self)
  have "256 * (256 * (256 * (x div 16777216) + x div 65536 mod 256) + x div 256 mod 256) + x mod 256 = x" for x :: nat
  proof -
    have d: "x div 65536 = x div 256 div 256" "x div 16777216 = x div 65536 div 256"
      by (simp_all add: div_mult2_eq [symmetric])
    have "256 * (x div 16777216) + x div 65536 mod 256 = x div 65536" unfolding d(2) by simp
    moreover have "256 * (x div 65536) + x div 256 mod 256 = x div 256" unfolding d(1) by simp
    ultimately show ?thesis by simp
  qed
  then have "foldl (\<lambda>a b. 256 * a + unat b) 0 (to_be_bytes n) = unat n"
    by (simp add: to_be_bytes_def b m power_numeral_reduce)
  then show ?thesis by (simp add: from_be_bytes_def)
qed

lemma read_frame:
  assumes "length json \<le> unat MAX_PAYLOAD_SIZE" and "from_json json = Inr m"
  shows "read_engine_message from_json (frame json @ rest) = Inr (m, rest)"
proof -
  have lt: "length json < 2 ^ 32" using assms(1) by (simp add: MAX_PAYLOAD_SIZE_def)
  then have u: "unat (of_nat (length json) :: u32) = length json"
    by (simp add: unsigned_of_nat take_bit_nat_eq_self)
  have "\<not> MAX_PAYLOAD_SIZE < of_nat (length json)"
    using assms(1) u by (simp add: word_less_nat_alt)
  then show ?thesis
    using u assms(2) by (simp add: read_engine_message_def read_exact_def frame_def be_bytes_roundtrip Let_def)
qed

definition sendable :: "(outgoing \<Rightarrow> u8 list res) \<Rightarrow> (u8 list \<Rightarrow> outgoing res) \<Rightarrow> outgoing \<Rightarrow> bool" where
  "sendable to_json from_json m =
     (case to_json m of
        Inl e \<Rightarrow> False
      | Inr json \<Rightarrow> length json \<le> unat MAX_PAYLOAD_SIZE \<and> from_json json = Inr m)"

definition frame_of :: "(outgoing \<Rightarrow> u8 list res) \<Rightarrow> outgoing \<Rightarrow> u8 list" where
  "frame_of to_json m = (case to_json m of Inl e \<Rightarrow> [] | Inr json \<Rightarrow> frame json)"

lemma reader_loop_frames:
  assumes "list_all (\<lambda>(m, json). length json \<le> unat MAX_PAYLOAD_SIZE \<and> from_json json = Inr m) ms"
  shows "reader_loop from_json (concat (map (\<lambda>x. frame (snd x)) ms) @ rest) = map fst ms @ reader_loop from_json rest"
  using assms
proof (induction ms)
  case (Cons mj ms)
  obtain m json where mj: "mj = (m, json)" by (cases mj)
  have "read_engine_message from_json (frame json @ concat (map (\<lambda>x. frame (snd x)) ms) @ rest) =
      Inr (m, concat (map (\<lambda>x. frame (snd x)) ms) @ rest)"
    using Cons.prems mj by (intro read_frame) auto
  then show ?case
    using Cons mj by (subst reader_loop.simps) simp
qed simp

lemma reader_loop_short: "length bs < 4 \<Longrightarrow> reader_loop from_json bs = []"
  by (subst reader_loop.simps) (simp add: read_engine_message_def read_exact_def)

lemma reader_loop_truncated:
  assumes "strict_prefix part (frame json)" and "length json \<le> unat MAX_PAYLOAD_SIZE"
  shows "reader_loop from_json part = []"
proof (cases "length part < 4")
  case False
  from assms(1) obtain z where z: "frame json = part @ z" "z \<noteq> []" by (auto simp: strict_prefix_def prefix_def)
  have lt: "length json < 2 ^ 32" using assms(2) by (simp add: MAX_PAYLOAD_SIZE_def)
  then have u: "unat (of_nat (length json) :: u32) = length json"
    by (simp add: unsigned_of_nat take_bit_nat_eq_self)
  have "take 4 part = take 4 (frame json)" using z False by simp
  then have t: "take 4 part = to_be_bytes (of_nat (length json))" by (simp add: frame_def)
  have "length part < length (frame json)" using z by simp
  then have "\<not> length json \<le> length part - 4" using False by (simp add: frame_def)
  then have "isl (read_engine_message from_json part)"
    using False by (simp add: read_engine_message_def read_exact_def t be_bytes_roundtrip u Let_def)
  then show ?thesis by (subst reader_loop.simps) (auto split: sum.splits)
qed (simp add: reader_loop_short)

section \<open>Steps of a channel\<close>

text \<open>
  The history of a channel: what the manager emitted on the current connection, what the reader
  thread pushed on it and what the manager took from it.  The step relation covers every
  operation of the manager and of the reader thread, in any order and with any outcome of the
  socket calls.
\<close>

record history =
  emitted :: "outgoing list"
  pushed :: "engine_message list"
  taken :: "engine_message list"

definition no_history :: history where
  "no_history = \<lparr> emitted = [], pushed = [], taken = [] \<rparr>"

inductive chan_step ::
  "(outgoing \<Rightarrow> u8 list res) \<Rightarrow> connection_state \<times> history \<Rightarrow> connection_state \<times> history \<Rightarrow> bool"
  for to_json where
  wait: "chan_step to_json (Listening, h) (fst (wait_for_client turns Listening), no_history)"
| emit_dead: "ensure_connected acc st = st \<Longrightarrow> \<not> is_connected st \<Longrightarrow>
     chan_step to_json (st, h) (fst (emit_out to_json acc w m st), h)"
| emit_new: "st = Disconnected \<Longrightarrow> ensure_connected acc st = Connected c \<Longrightarrow>
     chan_step to_json (st, h) (fst (emit_out to_json acc w m st), no_history\<lparr>emitted := [m]\<rparr>)"
| emit_live: "st = Connected c \<Longrightarrow>
     chan_step to_json (st, h) (fst (emit_out to_json acc w m st), h\<lparr>emitted := emitted h @ [m]\<rparr>)"
| recv: "try_recv st = (st', Inr r) \<Longrightarrow>
     chan_step to_json (st, h)
       (st', h\<lparr>taken := taken h @ (case r of Some x \<Rightarrow> [x] | None \<Rightarrow> [])\<rparr>)"
| push: "st = Connected c \<Longrightarrow> \<not> reader_exited c \<Longrightarrow> length (inbox c) < inbox_capacity \<Longrightarrow>
     chan_step to_json (st, h) (reader_push x st, h\<lparr>pushed := pushed h @ [x]\<rparr>)"
| exit: "chan_step to_json (st, h) (reader_exit st, h)"

inductive chan_reachable :: "(outgoing \<Rightarrow> u8 list res) \<Rightarrow> connection_state \<times> history \<Rightarrow> bool"
  for to_json where
  start: "chan_reachable to_json (Listening, no_history)"
| step: "chan_reachable to_json s \<Longrightarrow> chan_step to_json s t \<Longrightarrow> chan_reachable to_json t"

text \<open>On a live connection the bytes are the frames of what was emitted, in order, and what was
  pushed is what was taken followed by the inbox, which never exceeds its capacity.\<close>

definition chan_inv :: "(outgoing \<Rightarrow> u8 list res) \<Rightarrow> connection_state \<times> history \<Rightarrow> bool" where
  "chan_inv to_json s =
     (case s of
        (Connected c, h) \<Rightarrow>
          written c = concat (map (frame_of to_json) (emitted h)) \<and>
          list_all (\<lambda>m. \<not> isl (to_json m)) (emitted h) \<and>
          pushed h = taken h @ inbox c \<and> length (inbox c) \<le> inbox_capacity
      | _ \<Rightarrow> True)"

lemma wait_for_client_cases:
  "fst (wait_for_client turns st) \<in> {st, Disconnected, Connected \<lparr> written = [], inbox = [], reader_exited = False \<rparr>}"
  by (induction turns st rule: wait_for_client.induct)
    (auto simp: transition_to_connected_def split: accept_outcome.splits)

lemma emit_out_connected:
  "emit_out to_json acc w m (Connected c) =
     (case to_json m of
        Inr json \<Rightarrow> if w then (Connected (c\<lparr>written := written c @ frame json\<rparr>), Inr ()) else (Disconnected, Inr ())
      | Inl e \<Rightarrow> (Disconnected, Inr ()))"
  by (simp add: emit_out_def ensure_connected_def write_message_def Let_def split: sum.splits)

lemma emit_out_via_connect:
  "ensure_connected acc st = Connected c \<Longrightarrow> emit_out to_json acc w m st = emit_out to_json acc w m (Connected c)"
  by (simp add: emit_out_def ensure_connected_def split: connection_state.splits)

lemma chan_step_inv: "chan_step to_json s t \<Longrightarrow> chan_inv to_json s \<Longrightarrow> chan_inv to_json t"
proof (induction rule: chan_step.induct)
  case (wait h turns)
  then show ?case using wait_for_client_cases[of turns Listening]
    by (auto simp: chan_inv_def no_history_def inbox_capacity_def)
next
  case (emit_dead acc st h w m)
  then show ?case
    by (auto simp: chan_inv_def emit_out_def is_connected_def split: connection_state.splits)
next
  case (emit_new st acc c h w m)
  then have "c = \<lparr> written = [], inbox = [], reader_exited = False \<rparr>"
    by (auto simp: ensure_connected_def transition_to_connected_def split: accept_outcome.splits if_splits)
  then show ?case
    using emit_out_via_connect[OF emit_new(2)]
    by (auto simp: emit_out_connected chan_inv_def no_history_def frame_of_def inbox_capacity_def split: sum.splits)
next
  case (emit_live st c h acc w m)
  then show ?case by (auto simp: emit_out_connected chan_inv_def frame_of_def split: sum.splits)
next
  case (recv st st' r h)
  then show ?case
    by (auto simp: try_recv_def chan_inv_def split: connection_state.splits list.splits if_splits option.splits)
next
  case (push st c h x)
  then show ?case by (auto simp: reader_push_def chan_inv_def)
next
  case (exit st h)
  then show ?case by (auto simp: reader_exit_def chan_inv_def split: connection_state.splits)
qed

lemma chan_reachable_inv: "chan_reachable to_json s \<Longrightarrow> chan_inv to_json s"
proof (induction rule: chan_reachable.induct)
  case start
  show ?case by (simp add: chan_inv_def)
qed (rule chan_step_inv)

section \<open>The interface of an engine channel\<close>

text \<open>
  What the main loop relies on: emitting never fails, receiving never fails, a message received
  was in the inbox, and emitting on a live connection that accepts the bytes keeps it live.
\<close>

locale engine_channel =
  fixes send :: "accept_outcome \<Rightarrow> bool \<Rightarrow> engine_directive \<Rightarrow> 'c \<Rightarrow> 'c \<times> unit res"
    and recv :: "'c \<Rightarrow> 'c \<times> engine_message option res"
    and live :: "'c \<Rightarrow> bool"
    and pending :: "'c \<Rightarrow> engine_message list"
  assumes send_ok: "snd (send acc w d c) = Inr ()"
    and recv_ok: "\<not> isl (snd (recv c))"
    and recv_some: "live c \<Longrightarrow> pending c = m # ms \<Longrightarrow> snd (recv c) = Inr (Some m) \<and> live (fst (recv c)) \<and> pending (fst (recv c)) = ms"
    and recv_none: "pending c = [] \<Longrightarrow> snd (recv c) = Inr None \<and> pending (fst (recv c)) = []"
    and pending_live: "pending c \<noteq> [] \<Longrightarrow> live c"
begin

text \<open>The receive loop of the main thread: take messages until there is none.\<close>

fun drain :: "nat \<Rightarrow> 'c \<Rightarrow> 'c \<times> engine_message list" where
  "drain 0 c = (c, [])"
| "drain (Suc n) c =
     (case recv c of
        (c', Inr (Some m)) \<Rightarrow> apsnd ((#) m) (drain n c')
      | (c', _) \<Rightarrow> (c', []))"

lemma drain_all: "length (pending c) < n \<Longrightarrow> snd (drain n c) = pending c \<and> pending (fst (drain n c)) = []"
proof (induction n arbitrary: c)
  case (Suc n)
  show ?case
  proof (cases "pending c")
    case Nil
    then show ?thesis using recv_none[OF Nil] by (cases "recv c") auto
  next
    case (Cons m ms)
    have "live c" using Cons pending_live by simp
    from recv_some[OF this Cons] show ?thesis
      using Suc Cons by (cases "recv c") auto
  qed
qed simp

end

fun pending_of :: "connection_state \<Rightarrow> engine_message list" where
  "pending_of (Connected c) = inbox c"
| "pending_of _ = []"

lemma emit_directive_ok: "snd (emit_directive to_json acc w d st) = Inr ()"
  by (simp add: emit_directive_def emit_out_def Let_def split: connection_state.splits prod.splits sum.splits)

lemma try_recv_cases:
  "snd (try_recv st) = Inr (case pending_of st of m # ms \<Rightarrow> Some m | [] \<Rightarrow> None)"
  "pending_of (fst (try_recv st)) = tl (pending_of st)"
  "pending_of st \<noteq> [] \<Longrightarrow> is_connected (fst (try_recv st))"
  by (cases st; auto simp: try_recv_def is_connected_def split: list.splits)+

lemma pending_connected: "pending_of st \<noteq> [] \<Longrightarrow> is_connected st"
  by (cases st) (simp_all add: is_connected_def)

interpretation unix_chan: engine_channel "unix_emit_directive to_json" unix_try_recv unix_is_connected
    "\<lambda>ch. pending_of (unix_state ch)" for to_json
  by unfold_locales
    (simp_all add: unix_emit_directive_def unix_try_recv_def unix_is_connected_def emit_directive_ok
      try_recv_cases pending_connected split_beta)

interpretation tcp_chan: engine_channel "tcp_emit_directive to_json" tcp_try_recv tcp_is_connected
    "\<lambda>ch. pending_of (tcp_state ch)" for to_json
  by unfold_locales
    (simp_all add: tcp_emit_directive_def tcp_try_recv_def tcp_is_connected_def emit_directive_ok
      try_recv_cases pending_connected split_beta)

section \<open>Properties\<close>

text \<open>C14: Framing is a round trip: the reader recovers exactly the messages that were framed, in
  order, for any JSON encoding that reads back and fits the payload limit, and a connection cut in
  the middle of a frame loses that frame only.\<close>

theorem reader_recovers_frames:
  assumes "list_all (\<lambda>(m, json). length json \<le> unat MAX_PAYLOAD_SIZE \<and> from_json json = Inr m) ms"
    and "strict_prefix part (frame json)" and "length json \<le> unat MAX_PAYLOAD_SIZE"
  shows "reader_loop from_json (concat (map (\<lambda>x. frame (snd x)) ms) @ part) = map fst ms"
  using reader_loop_frames[OF assms(1), of part] reader_loop_truncated[OF assms(2,3)] by simp

theorem reader_recovers_frames_witness:
  "reader_loop (\<lambda>bs. Inr bs) (concat (map (\<lambda>x. frame (snd x)) [([1, 2], [1, 2 :: u8]), ([], [])]) @ [0, 0, 0])
   = [[1, 2], []]"
proof -
  have "strict_prefix [0, 0, 0] (frame [7, 7, 7 :: u8])"
    by (simp add: frame_def to_be_bytes_def)
  from reader_recovers_frames[of "\<lambda>bs. Inr bs" "[([1, 2], [1, 2]), ([], [])]", OF _ this] show ?thesis
    by (simp add: MAX_PAYLOAD_SIZE_def)
qed

text \<open>C4: In every interleaving of the manager with the reader thread, and whatever the socket calls
  return, the bytes on a live connection are the frames of what was emitted on it, in order and
  complete; the messages the manager took are a prefix of those the reader pushed, and the inbox
  stays within its capacity.\<close>

theorem channel_integrity:
  assumes "chan_reachable to_json (Connected c, h)"
  shows "written c = concat (map (frame_of to_json) (emitted h)) \<and>
     prefix (taken h) (pushed h) \<and> length (inbox c) \<le> inbox_capacity"
  using chan_reachable_inv[OF assms] by (auto simp: chan_inv_def)

definition example_encoder :: "outgoing \<Rightarrow> u8 list res" where
  "example_encoder m = Inr [42]"

abbreviation "example_directive \<equiv> Directive \<lparr> seq_id = 1, commands = [RestoreDefaults] \<rparr>"

lemma example_chan_reachable:
  "chan_reachable example_encoder
     (Connected \<lparr> written = frame [42], inbox = [], reader_exited = False \<rparr>,
      no_history\<lparr>emitted := [OutMessage example_directive]\<rparr>)"
proof -
  let ?c = "\<lparr> written = [], inbox = [], reader_exited = False \<rparr>"
  have w: "chan_step example_encoder (Listening, no_history) (Connected ?c, no_history)"
    using chan_step.wait[of example_encoder no_history "[(False, Accepted True, False)]"]
    by (simp add: transition_to_connected_def)
  have e: "chan_step example_encoder (Connected ?c, no_history)
      (Connected \<lparr> written = frame [42], inbox = [], reader_exited = False \<rparr>,
       no_history\<lparr>emitted := [OutMessage example_directive]\<rparr>)"
    using chan_step.emit_live[OF refl, of example_encoder ?c no_history NoneWaiting True "OutMessage example_directive"]
    by (simp add: emit_out_connected example_encoder_def no_history_def)
  show ?thesis using chan_reachable.start w e by (blast intro: chan_reachable.step)
qed

theorem channel_integrity_witness:
  "frame [42] = concat (map (frame_of example_encoder) [OutMessage example_directive])"
  using channel_integrity[OF example_chan_reachable] by simp

text \<open>A client that comes late is never served: when the wait for a client ends without one the
  channel is still listening, and from there every emission, with a client waiting or not, drops
  its message, reports success and leaves the channel listening.\<close>

lemma late_client_never_accepted:
  assumes "list_all (\<lambda>(sd, acc, to). \<not> (\<exists>ok. acc = Accepted ok)) turns"
  shows "wait_for_client turns Listening = (Listening, False) \<and>
     fold (\<lambda>(acc, w, m) st. fst (emit_out to_json acc w m st)) ops Listening = Listening \<and>
     snd (emit_out to_json acc w m Listening) = Inr ()"
proof -
  have "wait_for_client turns Listening = (Listening, False)"
    using assms by (induction turns) (auto split: accept_outcome.splits)
  moreover have "fold (\<lambda>(acc, w, m) st. fst (emit_out to_json acc w m st)) ops Listening = Listening"
    by (induction ops) (auto simp: emit_out_def ensure_connected_def)
  ultimately show ?thesis by (simp add: emit_out_def ensure_connected_def)
qed

theorem late_client_never_accepted_witness:
  "fold (\<lambda>(acc, w, m) st. fst (emit_out example_encoder acc w m st))
     [(Accepted True, True, OutMessage example_directive)]
     (fst (wait_for_client [(False, NoneWaiting, True)] Listening)) = Listening"
  using late_client_never_accepted[of "[(False, NoneWaiting, True)]" example_encoder
      "[(Accepted True, True, OutMessage example_directive)]"]
  by simp

text \<open>After a lost connection the next emission that finds a waiting client connects to it and
  delivers its message as the first of the new connection.\<close>

lemma reconnect_delivers:
  assumes "to_json m = Inr json"
  shows "emit_out to_json (Accepted True) True m Disconnected =
     (Connected \<lparr> written = frame json, inbox = [], reader_exited = False \<rparr>, Inr ())"
  using assms
  by (simp add: emit_out_def ensure_connected_def transition_to_connected_def write_message_def)

theorem reconnect_delivers_witness:
  "emit_out example_encoder (Accepted True) True (OutMessage example_directive) Disconnected =
     (Connected \<lparr> written = frame [42], inbox = [], reader_exited = False \<rparr>, Inr ())"
  by (rule reconnect_delivers) (simp add: example_encoder_def)

end
