(* ===== verification/Controller.thy ===== *)
theory Controller
  imports Pipeline "HOL-Library.Sublist"
begin

text \<open>
  What a manager promises, whoever drives it: a sequential controller that feeds signals, engine
  messages and reloads to a policy and passes the decisions through the deduplicator
  (\<^verbatim>\<open>src/pipeline.rs\<close>).  The manager process and the simulator refine it; what holds of the controller
  for every policy is proved here once.
\<close>

section \<open>The controller\<close>

text \<open>A reload comes with what it reads, a signal with what the policy sees while it decides.\<close>

datatype ('r, 'w) control_input = Reload 'r | Message engine_message | Signal 'w system_signal f64

fun control_run ::
  "('w \<Rightarrow> system_signal \<Rightarrow> 'p \<Rightarrow> 'p \<times> engine_directive option) \<Rightarrow> (engine_message \<Rightarrow> 'p \<Rightarrow> 'p) \<Rightarrow> ('r \<Rightarrow> 'p \<Rightarrow> 'p) \<Rightarrow>
   'p \<times> directive_deduplicator \<Rightarrow> ('r, 'w) control_input list \<Rightarrow>
   ('p \<times> directive_deduplicator) \<times> (engine_directive \<times> f64) list" where
  "control_run proc upd rel (p, d) [] = ((p, d), [])"
| "control_run proc upd rel (p, d) (Reload x # ins) = control_run proc upd rel (rel x p, d) ins"
| "control_run proc upd rel (p, d) (Message m # ins) = control_run proc upd rel (upd m p, d) ins"
| "control_run proc upd rel (p, d) (Signal w s t # ins) =
     (case proc w s p of
        (p', None) \<Rightarrow> control_run proc upd rel (p', d) ins
      | (p', Some x) \<Rightarrow>
          (case dedup_process x t d of
             (d', None) \<Rightarrow> control_run proc upd rel (p', d') ins
           | (d', Some y) \<Rightarrow> apsnd ((#) (y, t)) (control_run proc upd rel (p', d') ins)))"

fun signals_in :: "('r, 'w) control_input list \<Rightarrow> system_signal list" where
  "signals_in [] = []"
| "signals_in (Signal w s t # ins) = s # signals_in ins"
| "signals_in (_ # ins) = signals_in ins"

fun views_in :: "('r, 'w) control_input list \<Rightarrow> 'w list" where
  "views_in [] = []"
| "views_in (Signal w s t # ins) = w # views_in ins"
| "views_in (_ # ins) = views_in ins"

lemma signals_in_append [simp]: "signals_in (xs @ ys) = signals_in xs @ signals_in ys"
  by (induction xs rule: signals_in.induct) simp_all

lemma views_in_append [simp]: "views_in (xs @ ys) = views_in xs @ views_in ys"
  by (induction xs rule: views_in.induct) simp_all

lemma control_run_Nil [simp]: "control_run proc upd rel s [] = (s, [])"
  by (cases s) simp

lemma control_run_append:
  "control_run proc upd rel s (xs @ ys) =
   (case control_run proc upd rel s xs of
      (s', out) \<Rightarrow> apsnd ((@) out) (control_run proc upd rel s' ys))"
  by (induction proc upd rel s xs rule: control_run.induct)
    (auto simp: apsnd_def map_prod_def split: prod.splits option.splits)

lemma control_run_trans:
  "control_run proc upd rel a xs = (b, out) \<Longrightarrow> control_run proc upd rel b ys = (c, out') \<Longrightarrow>
   control_run proc upd rel a (xs @ ys) = (c, out @ out')"
  by (simp add: control_run_append)

lemma control_run_messages:
  "control_run proc upd rel (p, d) (map Message ms) = ((fold upd ms p, d), [])"
  by (induction ms arbitrary: p) simp_all

text \<open>Two controllers that are fed alike: the same messages and signals at the same times, without
  reloads, the views of each signal related.  When the policies decide alike on related views, the
  controllers send the same.\<close>

fun same_feed :: "('w \<Rightarrow> 'v \<Rightarrow> bool) \<Rightarrow> ('r, 'w) control_input \<Rightarrow> ('q, 'v) control_input \<Rightarrow> bool" where
  "same_feed L (Message m) (Message m') = (m = m')"
| "same_feed L (Signal w s t) (Signal v s' t') = (s = s' \<and> t = t' \<and> L w v)"
| "same_feed L _ _ = False"

lemma control_run_alike:
  assumes "list_all2 (same_feed L) ins ins'" and "R p q"
    and "\<And>w v s p q. L w v \<Longrightarrow> R p q \<Longrightarrow>
      R (fst (proc w s p)) (fst (proc' v s q)) \<and> snd (proc w s p) = snd (proc' v s q)"
    and "\<And>m p q. R p q \<Longrightarrow> R (upd m p) (upd' m q)"
    and "control_run proc upd rel (p, d) ins = ((p', d'), out)"
  shows "\<exists>q'. control_run proc' upd' rel' (q, d) ins' = ((q', d'), out) \<and> R p' q'"
  using assms(1,2,5)
proof (induction arbitrary: p q d out rule: list_all2_induct)
  case (Cons i ins i' ins')
  show ?case
  proof (cases i)
    case (Message m)
    then have "i' = Message m" using Cons.hyps(1) by (cases i') auto
    then show ?thesis using Cons.IH[OF assms(4)[OF Cons.prems(1)], of m d out] Cons.prems(2) Message by simp
  next
    case (Signal w s t)
    then obtain v where i': "i' = Signal v s t" "L w v" using Cons.hyps(1) by (cases i') auto
    obtain p1 r where r: "proc w s p = (p1, r)" by (cases "proc w s p")
    obtain q1 where q1: "proc' v s q = (q1, r)" "R p1 q1"
      using assms(3)[OF i'(2) Cons.prems(1), of s] r by (cases "proc' v s q") auto
    show ?thesis
    proof (cases r)
      case None
      then show ?thesis using Cons.IH[OF q1(2), of d out] Cons.prems(2) Signal i' r q1 by simp
    next
      case (Some x)
      obtain d1 y where y: "dedup_process x t d = (d1, y)" by (cases "dedup_process x t d")
      obtain o1 where o1: "control_run proc upd rel (p1, d1) ins = ((p', d'), o1)"
        "out = (case y of Some z \<Rightarrow> (z, t) # o1 | None \<Rightarrow> o1)"
        using Cons.prems(2) Signal r Some y
        by (cases y; cases "control_run proc upd rel (p1, d1) ins") auto
      obtain q' where "control_run proc' upd' rel' (q1, d1) ins' = ((q', d'), o1)" "R p' q'"
        using Cons.IH[OF q1(2) o1(1)] by blast
      then show ?thesis using Signal i' q1 Some y o1(2) by (cases y) auto
    qed
  qed (use Cons.hyps(1) in simp)
qed simp

section \<open>Decisions and what is sent\<close>

text \<open>The controller in two stages: what the policy decides, then what the deduplicator lets through.\<close>

fun decide_run ::
  "('w \<Rightarrow> system_signal \<Rightarrow> 'p \<Rightarrow> 'p \<times> engine_directive option) \<Rightarrow> (engine_message \<Rightarrow> 'p \<Rightarrow> 'p) \<Rightarrow> ('r \<Rightarrow> 'p \<Rightarrow> 'p) \<Rightarrow>
   'p \<Rightarrow> ('r, 'w) control_input list \<Rightarrow> 'p \<times> (engine_directive \<times> f64) list" where
  "decide_run proc upd rel p [] = (p, [])"
| "decide_run proc upd rel p (Reload x # ins) = decide_run proc upd rel (rel x p) ins"
| "decide_run proc upd rel p (Message m # ins) = decide_run proc upd rel (upd m p) ins"
| "decide_run proc upd rel p (Signal w s t # ins) =
     (case proc w s p of
        (p', None) \<Rightarrow> decide_run proc upd rel p' ins
      | (p', Some x) \<Rightarrow> apsnd ((#) (x, t)) (decide_run proc upd rel p' ins))"

lemma control_run_stages:
  "control_run proc upd rel (p, d) ins =
   (case decide_run proc upd rel p ins of
      (p', ds) \<Rightarrow> (case dedup_run d ds of (d', out) \<Rightarrow> ((p', d'), out)))"
proof (induction ins arbitrary: p d)
  case (Cons i ins)
  show ?case
  proof (cases i)
    case (Signal w s t)
    obtain p' r where r: "proc w s p = (p', r)" by (cases "proc w s p")
    show ?thesis
    proof (cases r)
      case (Some x)
      obtain d' y where y: "dedup_process x t d = (d', y)" by (cases "dedup_process x t d")
      then show ?thesis using Cons Signal r Some by (cases y) (auto split: prod.splits)
    qed (use Cons Signal r in simp)
  qed (use Cons in simp_all)
qed simp

lemma decide_run_length: "length (snd (decide_run proc upd rel p ins)) \<le> length (signals_in ins)"
  by (induction proc upd rel p ins rule: decide_run.induct) (auto simp: le_SucI split: prod.splits option.splits)

lemma dedup_run_subseq: "subseq (snd (dedup_run s ds)) ds"
proof (induction s ds rule: dedup_run.induct)
  case (2 s d t ds)
  obtain s' r where r: "dedup_process d t s = (s', r)" by (cases "dedup_process d t s")
  have "r = None \<or> r = Some d" using r by (auto simp: dedup_process_def Let_def split: if_splits)
  then show ?case using 2 r by auto
qed simp

lemma distinct_subseq: "subseq xs ys \<Longrightarrow> distinct ys \<Longrightarrow> distinct xs"
  by (auto simp: subseq_conv_nths distinct_nthsI)

section \<open>Policies the controller can drive\<close>

locale reloadable_policy = policy_strategy +
  fixes reload :: "'r \<Rightarrow> 'p \<Rightarrow> 'p"
  assumes reload_inv: "inv p \<Longrightarrow> inv (reload x p)"
begin

lemma decide_run_ok:
  assumes "inv p"
  shows "inv (fst (decide_run process_signal update_engine_state reload p ins)) \<and>
    list_all (\<lambda>x. directive_ok (fst x)) (snd (decide_run process_signal update_engine_state reload p ins))"
  using assms
proof (induction ins arbitrary: p)
  case (Cons i ins)
  show ?case
  proof (cases i)
    case (Signal w s t)
    obtain p' r where r: "process_signal w s p = (p', r)" by (cases "process_signal w s p")
    have "inv p'" using process_inv[OF Cons.prems, of w s] r by simp
    then show ?thesis using Cons Signal r process_ok[OF Cons.prems, of w s] by (cases r) auto
  qed (use Cons update_inv reload_inv in simp_all)
qed simp

text \<open>What the controller sends is what the engine accepts, spaced by the cooldown, at most one directive
  per signal.\<close>

lemma control_run_sound:
  assumes "inv p" and "control_run process_signal update_engine_state reload (p, dedup_with_cooldown c) ins = (s', out)"
  shows "list_all (\<lambda>x. directive_ok (fst x)) out" and "successively (spaced c) out"
    and "length out \<le> length (signals_in ins)"
proof -
  obtain p' ds where ds: "decide_run process_signal update_engine_state reload p ins = (p', ds)"
    by (cases "decide_run process_signal update_engine_state reload p ins")
  have out: "out = snd (dedup_run (dedup_with_cooldown c) ds)"
    using assms(2) by (auto simp: control_run_stages ds split: prod.splits)
  have sub: "subseq out ds" unfolding out by (rule dedup_run_subseq)
  note ok = decide_run_ok[OF assms(1), of ins, unfolded ds fst_conv snd_conv]
  show "list_all (\<lambda>x. directive_ok (fst x)) out" using ok list_emb_set[OF sub] by (auto simp: list_all_iff)
  show "successively (spaced c) out" unfolding out by (rule dedup_emissions_spaced)
  show "length out \<le> length (signals_in ins)"
    using list_emb_length[OF sub] decide_run_length[of process_signal update_engine_state reload p ins]
    by (simp add: ds)
qed

lemma control_run_keeps_inv:
  assumes "inv p" and "control_run process_signal update_engine_state reload (p, d) ins = (s', out)"
  shows "inv (fst s')"
  using assms(2) decide_run_ok[OF assms(1), of ins] by (auto simp: control_run_stages split: prod.splits)

end

text \<open>A policy that numbers its directives.\<close>

locale numbered_policy = reloadable_policy +
  fixes number_of :: "'p \<Rightarrow> u64"
  assumes numbers_decision: "process_signal w s p = (p', Some d) \<Longrightarrow> seq_id d = number_of p \<and> number_of p' = number_of p + 1"
    and keeps_number: "process_signal w s p = (p', None) \<Longrightarrow> number_of p' = number_of p"
    and update_number: "number_of (update_engine_state m p) = number_of p"
    and reload_number: "number_of (reload x p) = number_of p"
begin

lemma decide_run_numbers:
  "map (\<lambda>x. seq_id (fst x)) (snd (decide_run process_signal update_engine_state reload p ins)) =
   take_seq_ids (length (snd (decide_run process_signal update_engine_state reload p ins))) (number_of p)"
proof (induction ins arbitrary: p)
  case (Cons i ins)
  show ?case
  proof (cases i)
    case (Signal w s t)
    obtain p' r where r: "process_signal w s p = (p', r)" by (cases "process_signal w s p")
    then show ?thesis using Cons[of p'] Signal keeps_number[of w s p p'] numbers_decision[of w s p p']
      by (cases r) (auto simp: next_seq_id_def)
  qed (use Cons in \<open>simp_all add: update_number reload_number\<close>)
qed simp

lemma control_run_distinct:
  assumes "control_run process_signal update_engine_state reload (p, d) ins = (s', out)"
    and "length (signals_in ins) \<le> 2 ^ 64"
  shows "distinct (map (\<lambda>x. seq_id (fst x)) out)"
proof -
  obtain p' ds where ds: "decide_run process_signal update_engine_state reload p ins = (p', ds)"
    by (cases "decide_run process_signal update_engine_state reload p ins")
  have out: "out = snd (dedup_run d ds)"
    using assms(1) by (auto simp: control_run_stages ds split: prod.splits)
  have "length ds \<le> 2 ^ 64"
    using decide_run_length[of process_signal update_engine_state reload p ins] assms(2) by (simp add: ds)
  then have "distinct (map (\<lambda>x. seq_id (fst x)) ds)"
    using decide_run_numbers[of p ins] by (simp add: ds distinct_seq_ids)
  then show ?thesis unfolding out
    by (rule distinct_subseq[OF subseq_map[OF dedup_run_subseq]])
qed

end

section \<open>Machines that refine the controller\<close>

text \<open>A machine with steps, a control state and a log of what it took in and sent: every step extends the
  log as the controller would.\<close>

locale controlled =
  fixes step :: "'s \<Rightarrow> 's \<Rightarrow> bool"
    and control :: "'s \<Rightarrow> 'p \<times> directive_deduplicator"
    and logged :: "'s \<Rightarrow> ('r, 'w) control_input list \<Rightarrow> (engine_directive \<times> f64) list \<Rightarrow> bool"
    and run :: "'p \<times> directive_deduplicator \<Rightarrow> ('r, 'w) control_input list \<Rightarrow>
      ('p \<times> directive_deduplicator) \<times> (engine_directive \<times> f64) list"
  assumes run_trans: "run x xs = (y, os) \<Longrightarrow> run y ys = (z, os') \<Longrightarrow> run x (xs @ ys) = (z, os @ os')"
    and run_Nil: "run x [] = (x, [])"
    and step_refines: "step a b \<Longrightarrow> logged a ins out \<Longrightarrow>
      \<exists>ins' out'. logged b (ins @ ins') (out @ out') \<and> run (control a) ins' = (control b, out')"
begin

lemma steps_refine:
  assumes "step\<^sup>*\<^sup>* a b" and "logged a ins out"
  shows "\<exists>ins' out'. logged b (ins @ ins') (out @ out') \<and> run (control a) ins' = (control b, out')"
  using assms
proof (induction rule: rtranclp_induct)
  case base
  then show ?case using run_Nil by (intro exI[of _ "[]"]) simp
next
  case (step b c)
  then obtain xs o1 where xs: "logged b (ins @ xs) (out @ o1)" "run (control a) xs = (control b, o1)" by blast
  obtain ys o2 where ys: "logged c ((ins @ xs) @ ys) ((out @ o1) @ o2)" "run (control b) ys = (control c, o2)"
    using step_refines[OF step.hyps(2) xs(1)] by blast
  show ?case using ys(1) run_trans[OF xs(2) ys(2)] by (intro exI[of _ "xs @ ys"] exI[of _ "o1 @ o2"]) simp
qed

lemma replays:
  assumes "step\<^sup>*\<^sup>* a b" and "logged a [] []"
  shows "\<exists>ins out. logged b ins out \<and> run (control a) ins = (control b, out)"
  using steps_refine[OF assms] by simp

end

end
