(* ===== verification/Manager.thy ===== *)
theory Manager
  imports Memory_Monitor Thermal_Monitor Compute_Monitor Energy_Monitor
    External_Monitor Lua_Policy Channel Controller
begin

text \<open>
  The manager process (\<^verbatim>\<open>src/main.rs\<close>): the choice of the transport, the set of monitors, the
  creation of the policy and the main loop.  One iteration of the loop is driven by what it
  meets: the signals of the operating system, the files a reload reads, what the engine reader
  pushed since the last iteration, the next signal of a monitor, the time and the outcome of the
  socket calls.
\<close>

section \<open>Transports\<close>

datatype transport_handle =
    UnixHandle unix_socket_channel
  | TcpHandle tcp_channel
  | EmitterOnly

definition is_bidirectional :: "transport_handle \<Rightarrow> bool" where
  "is_bidirectional t = (case t of EmitterOnly \<Rightarrow> False | _ \<Rightarrow> True)"

definition transport_name :: "transport_handle \<Rightarrow> string" where
  "transport_name t =
     (case t of UnixHandle _ \<Rightarrow> ''UnixSocketChannel'' | TcpHandle _ \<Rightarrow> ''TcpChannel'' | EmitterOnly \<Rightarrow> ''DbusEmitter'')"

definition try_recv_engine_message :: "transport_handle \<Rightarrow> transport_handle \<times> engine_message option" where
  "try_recv_engine_message t =
     (case t of
        UnixHandle ch \<Rightarrow>
          (case unix_try_recv ch of (ch', r) \<Rightarrow> (UnixHandle ch', case r of Inr m \<Rightarrow> m | Inl e \<Rightarrow> None))
      | TcpHandle ch \<Rightarrow>
          (case tcp_try_recv ch of (ch', r) \<Rightarrow> (TcpHandle ch', case r of Inr m \<Rightarrow> m | Inl e \<Rightarrow> None))
      | EmitterOnly \<Rightarrow> (EmitterOnly, None))"

definition send_directive ::
  "(outgoing \<Rightarrow> u8 list res) \<Rightarrow> accept_outcome \<Rightarrow> bool \<Rightarrow> engine_directive \<Rightarrow> transport_handle \<Rightarrow>
   transport_handle \<times> unit res" where
  "send_directive to_json acc w d t =
     (case t of
        UnixHandle ch \<Rightarrow> apfst UnixHandle (unix_emit_directive to_json acc w d ch)
      | TcpHandle ch \<Rightarrow> apfst TcpHandle (tcp_emit_directive to_json acc w d ch)
      | EmitterOnly \<Rightarrow> (EmitterOnly, Inr ()))"

text \<open>The transport named on the command line: binding may fail, waiting for a client is a sequence
  of turns.\<close>

definition create_transport ::
  "string \<Rightarrow> bool \<Rightarrow> (bool \<times> accept_outcome \<times> bool) list \<Rightarrow> bool \<Rightarrow> bool \<Rightarrow> transport_handle res" where
  "create_transport transport bind_ok turns shutdown_flag dbus_ok =
     (case strip_prefix ''unix:'' transport of
        Some path \<Rightarrow>
          (case unix_channel_new bind_ok path of
             Inl e \<Rightarrow> Inl e
           | Inr ch \<Rightarrow>
               (case wait_for_client turns (unix_state ch) of
                  (st, ok) \<Rightarrow>
                    if \<not> ok \<and> shutdown_flag then Inl ''Shutdown during client wait''
                    else Inr (UnixHandle (ch\<lparr>unix_state := st\<rparr>))))
      | None \<Rightarrow>
     (case strip_prefix ''tcp:'' transport of
        Some a \<Rightarrow>
          (case tcp_channel_new bind_ok a of
             Inl e \<Rightarrow> Inl e
           | Inr ch \<Rightarrow>
               (case tcp_wait_for_client turns ch of
                  (ch', ok) \<Rightarrow>
                    if \<not> ok then
                      (if shutdown_flag then Inl ''Shutdown during client wait''
                       else Inl ''TCP: no client connected'')
                    else Inr (TcpHandle ch')))
      | None \<Rightarrow>
          if transport = ''dbus'' then (if dbus_ok then Inr EmitterOnly else Inl ''dbus'')
          else Inl (''Unknown transport: '' @ transport)))"

section \<open>Monitors\<close>

datatype monitor =
    MemoryM memory_monitor
  | ThermalM thermal_monitor
  | ComputeM compute_monitor
  | EnergyM energy_monitor
  | ExternalM external_transport

definition enabled_or_absent :: "('c \<Rightarrow> bool) \<Rightarrow> 'c option \<Rightarrow> bool" where
  "enabled_or_absent en c = (case c of None \<Rightarrow> True | Some x \<Rightarrow> en x)"

definition unwrap_or :: "'a option \<Rightarrow> 'a \<Rightarrow> 'a" where
  "unwrap_or c d = (case c of Some x \<Rightarrow> x | None \<Rightarrow> d)"

definition build_monitors :: "file_system \<Rightarrow> config \<Rightarrow> monitor list" where
  "build_monitors fs cfg =
     (let default_poll = poll_interval_ms (cfg_manager cfg) in
      (if enabled_or_absent mem_enabled (cfg_memory cfg)
       then [MemoryM (memory_monitor_new (unwrap_or (cfg_memory cfg) memory_monitor_config_default) default_poll)] else []) @
      (if enabled_or_absent th_enabled (cfg_thermal cfg)
       then [ThermalM (thermal_monitor_new (unwrap_or (cfg_thermal cfg) thermal_monitor_config_default) default_poll)] else []) @
      (if enabled_or_absent cpu_enabled (cfg_compute cfg)
       then [ComputeM (compute_monitor_new (unwrap_or (cfg_compute cfg) compute_monitor_config_default) default_poll)] else []) @
      (if enabled_or_absent en_enabled (cfg_energy cfg)
       then [EnergyM (energy_monitor_new fs (unwrap_or (cfg_energy cfg) energy_monitor_config_default) default_poll)] else []) @
      (case cfg_external cfg of
         Some c \<Rightarrow> if ext_enabled c then [ExternalM (external_monitor_new c)] else []
       | None \<Rightarrow> []))"

definition initial_signal :: "monitor \<Rightarrow> system_signal option" where
  "initial_signal m =
     (case m of
        MemoryM x \<Rightarrow> memory_initial_signal x
      | ThermalM x \<Rightarrow> thermal_initial_signal x
      | ComputeM x \<Rightarrow> compute_initial_signal x
      | EnergyM x \<Rightarrow> energy_initial_signal x
      | ExternalM x \<Rightarrow> external_initial_signal x)"

definition initial_signals :: "monitor list \<Rightarrow> system_signal list" where
  "initial_signals ms = List.map_filter initial_signal ms"

text \<open>The policy gets the GPU provider of the compute monitor.\<close>

definition create_policy ::
  "'vm lua_machine \<Rightarrow> host_view \<Rightarrow> string option \<Rightarrow> config \<Rightarrow> string + 'vm lua_policy" where
  "create_policy M h policy_script cfg =
     (case policy_script of
        Some path \<Rightarrow> with_system_clock_and_gpu M h path (cfg_adaptation cfg) SharedProvider
      | None \<Rightarrow> Inl ''--policy-script is required: the decision logic lives in the script'')"

section \<open>The main loop\<close>

record 'vm main_state =
  ms_policy :: "'vm lua_policy \<times> u64"
  ms_dedup :: directive_deduplicator
  ms_transport :: transport_handle

datatype recv_result = Got system_signal | RecvTimeout | RecvDisconnected

record main_env =
  sig_shutdown :: bool
  sig_hup :: bool
  env_at_reload :: host_view
  env_pushed :: "engine_message list"
  env_reader_exit :: bool
  env_recv :: recv_result
  env_at_signal :: host_view
  env_elapsed_secs :: f64
  env_accept :: accept_outcome
  env_write_ok :: bool

text \<open>What the reader thread did to the channel since the last iteration.\<close>

definition reader_activity :: "main_env \<Rightarrow> connection_state \<Rightarrow> connection_state" where
  "reader_activity e st =
     (let st' = fold reader_push (env_pushed e) st in if env_reader_exit e then reader_exit st' else st')"

definition transport_activity :: "main_env \<Rightarrow> transport_handle \<Rightarrow> transport_handle" where
  "transport_activity e t =
     (case t of
        UnixHandle ch \<Rightarrow> UnixHandle (ch\<lparr>unix_state := reader_activity e (unix_state ch)\<rparr>)
      | TcpHandle ch \<Rightarrow> TcpHandle (ch\<lparr>tcp_state := reader_activity e (tcp_state ch)\<rparr>)
      | EmitterOnly \<Rightarrow> EmitterOnly)"

fun transport_pending :: "transport_handle \<Rightarrow> engine_message list" where
  "transport_pending (UnixHandle ch) = pending_of (unix_state ch)"
| "transport_pending (TcpHandle ch) = pending_of (tcp_state ch)"
| "transport_pending EmitterOnly = []"

lemma try_recv_engine_message_pending:
  "snd (try_recv_engine_message t) = (case transport_pending t of m # ms \<Rightarrow> Some m | [] \<Rightarrow> None)"
  "transport_pending (fst (try_recv_engine_message t)) = tl (transport_pending t)"
  by (cases t; simp add: try_recv_engine_message_def unix_try_recv_def tcp_try_recv_def try_recv_cases split_beta)+

lemma try_recv_engine_message_less:
  assumes "(t', Some m) = try_recv_engine_message t"
  shows "length (transport_pending t') < length (transport_pending t)"
proof -
  have "snd (try_recv_engine_message t) = Some m" "fst (try_recv_engine_message t) = t'"
    by (simp_all add: assms [symmetric])
  then show ?thesis
    using try_recv_engine_message_pending[of t] by (cases "transport_pending t") auto
qed

function drain_messages ::
  "(engine_message \<Rightarrow> 'p \<Rightarrow> 'p) \<Rightarrow> transport_handle \<Rightarrow> 'p \<Rightarrow> transport_handle \<times> 'p" where
  "drain_messages upd t p =
     (case try_recv_engine_message t of
        (t', Some msg) \<Rightarrow> drain_messages upd t' (upd msg p)
      | (t', None) \<Rightarrow> (t', p))"
  by pat_completeness auto
termination
  by (relation "measure (\<lambda>(upd, t, p). length (transport_pending t))")
    (auto intro: try_recv_engine_message_less)

declare drain_messages.simps [simp del]

text \<open>A hangup reloads the script from the path it came from; a reload that fails leaves the policy.\<close>

definition hot_reload ::
  "'vm lua_machine \<Rightarrow> host_view \<Rightarrow> 'vm lua_policy \<times> u64 \<Rightarrow> 'vm lua_policy \<times> u64" where
  "hot_reload M h pc = (fst (reload_script M h (script_path (fst pc)) (fst pc)), snd pc)"

text \<open>One iteration; the result says whether the loop goes on, and which directive was handed to the
  transport.\<close>

definition main_step ::
  "'vm lua_machine \<Rightarrow> (outgoing \<Rightarrow> u8 list res) \<Rightarrow> main_env \<Rightarrow> 'vm main_state \<Rightarrow>
   'vm main_state \<times> bool \<times> engine_directive option" where
  "main_step M to_json e s =
     (if sig_shutdown e then (s, False, None)
      else
        (let p0 = ms_policy s;
             p1 = (if sig_hup e then hot_reload M (env_at_reload e) p0 else p0);
             (t1, p2) = drain_messages update_engine_state (transport_activity e (ms_transport s)) p1;
             s1 = s\<lparr>ms_policy := p2, ms_transport := t1\<rparr>
         in case env_recv e of
              Got signal \<Rightarrow>
                (case process_signal M (env_at_signal e) signal p2 of
                   (p3, None) \<Rightarrow> (s1\<lparr>ms_policy := p3\<rparr>, True, None)
                 | (p3, Some directive) \<Rightarrow>
                     (case dedup_process directive (env_elapsed_secs e) (ms_dedup s1) of
                        (dd, Some d) \<Rightarrow>
                          (s1\<lparr>ms_policy := p3, ms_dedup := dd,
                              ms_transport := fst (send_directive to_json (env_accept e) (env_write_ok e) d t1)\<rparr>,
                           True, Some d)
                      | (dd, None) \<Rightarrow> (s1\<lparr>ms_policy := p3, ms_dedup := dd\<rparr>, True, None)))
            | RecvTimeout \<Rightarrow> (s1, True, None)
            | RecvDisconnected \<Rightarrow> (s1, False, None)))"

fun main_loop ::
  "'vm lua_machine \<Rightarrow> (outgoing \<Rightarrow> u8 list res) \<Rightarrow> main_env list \<Rightarrow> 'vm main_state \<Rightarrow>
   'vm main_state \<times> (engine_directive \<times> f64) list" where
  "main_loop M to_json [] s = (s, [])"
| "main_loop M to_json (e # es) s =
     (case main_step M to_json e s of
        (s', False, r) \<Rightarrow> (s', [])
      | (s', True, None) \<Rightarrow> main_loop M to_json es s'
      | (s', True, Some d) \<Rightarrow> apsnd ((#) (d, env_elapsed_secs e)) (main_loop M to_json es s'))"

text \<open>Start-up: the directives for the initial signals are sent without deduplication, and an error of
  the transport ends the program.  Each decision comes with what the script sees and the outcomes of the
  socket calls.\<close>

fun emit_initial_directives ::
  "'vm lua_machine \<Rightarrow> (outgoing \<Rightarrow> u8 list res) \<Rightarrow> ((host_view \<times> accept_outcome \<times> bool) \<times> system_signal) list \<Rightarrow>
   'vm lua_policy \<times> u64 \<Rightarrow> transport_handle \<Rightarrow> string + ('vm lua_policy \<times> u64) \<times> transport_handle" where
  "emit_initial_directives M to_json [] p t = Inr (p, t)"
| "emit_initial_directives M to_json (((h, acc, w), signal) # rest) p t =
     (case process_signal M h signal p of
        (p', None) \<Rightarrow> emit_initial_directives M to_json rest p' t
      | (p', Some d) \<Rightarrow>
          (case send_directive to_json acc w d t of
             (t', Inl e) \<Rightarrow> Inl e
           | (t', Inr _) \<Rightarrow> emit_initial_directives M to_json rest p' t'))"

definition startup ::
  "'vm lua_machine \<Rightarrow> (outgoing \<Rightarrow> u8 list res) \<Rightarrow> host_view \<Rightarrow> config \<Rightarrow> string option \<Rightarrow>
   transport_handle res \<Rightarrow> (nat \<Rightarrow> host_view \<times> accept_outcome \<times> bool) \<Rightarrow> string + 'vm main_state" where
  "startup M to_json h cfg policy_script transport io =
     (case transport of
        Inl e \<Rightarrow> Inl e
      | Inr t \<Rightarrow>
          if \<not> is_bidirectional t then Inl (''transport '' @ transport_name t @ '' cannot receive engine messages'')
          else
            (case create_policy M h policy_script cfg of
               Inl e \<Rightarrow> Inl e
             | Inr p \<Rightarrow>
                 (case emit_initial_directives M to_json
                         (map (apfst io) (enumerate 0 (initial_signals (build_monitors (hv_files h) cfg))))
                         (p, SEQ_COUNTER_init) t of
                    Inl e \<Rightarrow> Inl e
                  | Inr (pc, t') \<Rightarrow> Inr
                      \<lparr> ms_policy = pc,
                        ms_dedup = dedup_with_cooldown (dedup_cooldown_secs (cfg_adaptation cfg)),
                        ms_transport = t' \<rparr>)))"

section \<open>The invariant of the main loop\<close>

definition main_inv :: "'vm main_state \<Rightarrow> bool" where
  "main_inv s = lua_inv (ms_policy s)"

lemma drain_messages_pending:
  "drain_messages upd t p =
     (fst (drain_messages upd t p), fold upd (transport_pending t) p) \<and>
   transport_pending (fst (drain_messages upd t p)) = []"
proof (induction upd t p rule: drain_messages.induct)
  case (1 upd t p)
  obtain t' r where r: "try_recv_engine_message t = (t', r)" by (cases "try_recv_engine_message t")
  note pe = try_recv_engine_message_pending[of t, unfolded r, simplified]
  show ?case
  proof (cases r)
    case None
    then have "transport_pending t = []" using pe by (cases "transport_pending t") auto
    then show ?thesis using pe None r by (simp add: drain_messages.simps[of upd t p])
  next
    case (Some msg)
    then obtain ms where ms: "transport_pending t = msg # ms" using pe by (cases "transport_pending t") auto
    have ih: "drain_messages upd t' (upd msg p) =
        (fst (drain_messages upd t' (upd msg p)), fold upd (transport_pending t') (upd msg p)) \<and>
        transport_pending (fst (drain_messages upd t' (upd msg p))) = []"
      using 1[OF r [symmetric] Some] by simp
    have "drain_messages upd t p = drain_messages upd t' (upd msg p)"
      using r Some by (simp add: drain_messages.simps[of upd t p])
    then show ?thesis using ih pe(2) ms by simp
  qed
qed

section \<open>The main loop as a controller\<close>

lemma signal_decides:
  "process_signal M h s p = (p', Some d) \<Longrightarrow> seq_id d = snd p \<and> snd p' = snd p + 1"
  "process_signal M h s p = (p', None) \<Longrightarrow> snd p' = snd p"
  by (auto simp: process_signal_def next_seq_id_def split: prod.splits if_splits)

interpretation lua_ctl: numbered_policy "process_signal M" update_engine_state lua_inv "hot_reload M" snd
  for M :: "'vm lua_machine"
proof unfold_locales
  fix x p m
  show "lua_inv p \<Longrightarrow> lua_inv (hot_reload M x p)"
    by (cases p) (simp add: hot_reload_def reload_script_def lua_inv_def split: sum.splits)
  show "snd (update_engine_state m p) = snd p"
    by (cases p) (simp add: update_engine_state_def split: engine_message.splits)
  show "snd (hot_reload M x p) = snd p" by (simp add: hot_reload_def)
qed (use signal_decides in blast)+

abbreviation lua_control ::
  "'vm lua_machine \<Rightarrow> ('vm lua_policy \<times> u64) \<times> directive_deduplicator \<Rightarrow> (host_view, host_view) control_input list \<Rightarrow>
   (('vm lua_policy \<times> u64) \<times> directive_deduplicator) \<times> (engine_directive \<times> f64) list" where
  "lua_control M \<equiv> control_run (process_signal M) update_engine_state (hot_reload M)"

definition main_control :: "'vm main_state \<Rightarrow> ('vm lua_policy \<times> u64) \<times> directive_deduplicator" where
  "main_control s = (ms_policy s, ms_dedup s)"

text \<open>What an iteration feeds the controller: a reload, the pending messages of the engine, then at most
  one signal.\<close>

definition step_inputs :: "main_env \<Rightarrow> 'vm main_state \<Rightarrow> (host_view, host_view) control_input list" where
  "step_inputs e s =
     (if sig_shutdown e then []
      else (if sig_hup e then [Reload (env_at_reload e)] else []) @
        map Message (transport_pending (transport_activity e (ms_transport s))) @
        (case env_recv e of Got signal \<Rightarrow> [Signal (env_at_signal e) signal (env_elapsed_secs e)] | _ \<Rightarrow> []))"

definition logged_at :: "f64 \<Rightarrow> engine_directive option \<Rightarrow> (engine_directive \<times> f64) list" where
  "logged_at t r = (case r of Some d \<Rightarrow> [(d, t)] | None \<Rightarrow> [])"

lemma signals_in_messages [simp]: "signals_in (map Message ms) = []"
  by (induction ms) simp_all

lemma step_inputs_signals:
  "signals_in (step_inputs e s) = (if sig_shutdown e then [] else case env_recv e of Got signal \<Rightarrow> [signal] | _ \<Rightarrow> [])"
  by (simp add: step_inputs_def split: recv_result.split)

lemma main_step_refines:
  assumes "main_step M to_json e s = (s', b, r)"
  shows "lua_control M (main_control s) (step_inputs e s) = (main_control s', logged_at (env_elapsed_secs e) r)"
proof (cases "sig_shutdown e")
  case False
  let ?t = "transport_activity e (ms_transport s)"
    and ?p = "if sig_hup e then hot_reload M (env_at_reload e) (ms_policy s) else ms_policy s"
  define p2 where "p2 = fold update_engine_state (transport_pending ?t) ?p"
  obtain t1 where d: "drain_messages update_engine_state ?t ?p = (t1, p2)"
    using drain_messages_pending[of update_engine_state ?t ?p] by (metis p2_def)
  have pre: "lua_control M (main_control s)
      ((if sig_hup e then [Reload (env_at_reload e)] else []) @ map Message (transport_pending ?t)) = ((p2, ms_dedup s), [])"
    by (simp add: control_run_append main_control_def control_run_messages p2_def)
  have "lua_control M (p2, ms_dedup s)
      (case env_recv e of Got signal \<Rightarrow> [Signal (env_at_signal e) signal (env_elapsed_secs e)] | _ \<Rightarrow> []) =
      (main_control s', logged_at (env_elapsed_secs e) r)"
    using assms False
    by (auto simp: main_step_def d Let_def main_control_def logged_at_def split: recv_result.splits prod.splits option.splits)
  from control_run_trans[OF pre this] False show ?thesis by (simp add: step_inputs_def)
qed (use assms in \<open>simp add: main_step_def step_inputs_def main_control_def logged_at_def\<close>)

lemma main_step_inv: "main_inv s \<Longrightarrow> main_inv (fst (main_step M to_json e s))"
proof -
  assume "main_inv s"
  then have "lua_inv (ms_policy s)" by (simp add: main_inv_def)
  obtain s' b r where st: "main_step M to_json e s = (s', b, r)" by (cases "main_step M to_json e s") auto
  have "lua_inv (fst (main_control s'))"
    using lua_ctl.control_run_keeps_inv[OF \<open>lua_inv (ms_policy s)\<close> main_step_refines[OF st, unfolded main_control_def[of s]]] .
  then show ?thesis by (simp add: st main_inv_def main_control_def)
qed

fun loop_inputs ::
  "'vm lua_machine \<Rightarrow> (outgoing \<Rightarrow> u8 list res) \<Rightarrow> main_env list \<Rightarrow> 'vm main_state \<Rightarrow> (host_view, host_view) control_input list" where
  "loop_inputs M to_json [] s = []"
| "loop_inputs M to_json (e # es) s =
     (case main_step M to_json e s of
        (s', False, r) \<Rightarrow> step_inputs e s
      | (s', True, r) \<Rightarrow> step_inputs e s @ loop_inputs M to_json es s')"

lemma main_step_stops: "main_step M to_json e s = (s', False, r) \<Longrightarrow> r = None"
  by (auto simp: main_step_def Let_def split: if_splits recv_result.splits prod.splits option.splits)

lemma main_loop_refines:
  "lua_control M (main_control s) (loop_inputs M to_json es s) =
   (main_control (fst (main_loop M to_json es s)), snd (main_loop M to_json es s))"
proof (induction es arbitrary: s)
  case (Cons e es)
  obtain s' b r where st: "main_step M to_json e s = (s', b, r)" by (cases "main_step M to_json e s") auto
  note one = main_step_refines[OF st]
  show ?case
  proof (cases b)
    case True
    then show ?thesis using control_run_trans[OF one Cons[of s']] st
      by (cases r) (simp_all add: logged_at_def apsnd_def map_prod_def split: prod.splits)
  next
    case False
    then have "r = None" using st main_step_stops[of M to_json e s s' r] by simp
    then show ?thesis using False one st by (simp add: logged_at_def)
  qed
qed (simp add: main_control_def)

lemma loop_inputs_signals: "length (signals_in (loop_inputs M to_json es s)) \<le> length es"
proof (induction es arbitrary: s)
  case (Cons e es)
  obtain s' b r where st: "main_step M to_json e s = (s', b, r)" by (cases "main_step M to_json e s") auto
  have "length (signals_in (step_inputs e s)) \<le> 1" by (simp add: step_inputs_signals split: recv_result.split)
  then show ?case using Cons[of s'] st by (cases b) (auto intro: add_mono)
qed simp

section \<open>A channel nobody joined\<close>

definition listening :: "'vm main_state \<Rightarrow> bool" where
  "listening s = (case ms_transport s of UnixHandle ch \<Rightarrow> unix_state ch = Listening | _ \<Rightarrow> False)"

lemma listening_drain:
  assumes "unix_state ch = Listening"
  shows "drain_messages upd (UnixHandle ch) p = (UnixHandle ch, p)"
  using assms
  by (subst drain_messages.simps) (simp add: try_recv_engine_message_def unix_try_recv_def try_recv_def)

lemma fold_reader_push_Listening: "fold reader_push ms Listening = Listening"
  by (induction ms) (simp_all add: reader_push_def)

lemma listening_activity: "unix_state ch = Listening \<Longrightarrow> transport_activity e (UnixHandle ch) = UnixHandle ch"
  by (simp add: transport_activity_def reader_activity_def fold_reader_push_Listening reader_exit_def)

lemma listening_send: "unix_state ch = Listening \<Longrightarrow> fst (send_directive to_json acc w d (UnixHandle ch)) = UnixHandle ch"
  by (simp add: send_directive_def unix_emit_directive_def emit_directive_def emit_out_def ensure_connected_def)

lemma listening_step:
  assumes "ms_transport s = UnixHandle ch" and "unix_state ch = Listening"
  shows "ms_transport (fst (main_step M to_json e s)) = UnixHandle ch"
  using assms
  by (auto simp: main_step_def listening_drain listening_activity listening_send Let_def
      split: recv_result.splits prod.splits option.splits)

lemma listening_loop:
  assumes "ms_transport s = UnixHandle ch" and "unix_state ch = Listening"
  shows "ms_transport (fst (main_loop M to_json es s)) = UnixHandle ch"
  using assms(1)
proof (induction es arbitrary: s)
  case (Cons e es)
  obtain s' b r where st: "main_step M to_json e s = (s', b, r)" by (cases "main_step M to_json e s") auto
  have "ms_transport s' = UnixHandle ch" using listening_step[OF Cons.prems assms(2), of M to_json e] st by simp
  then show ?case using Cons st by (auto split: bool.splits option.splits)
qed simp

section \<open>Properties\<close>

text \<open>What the manager sends: over any run of the main loop from a consistent state with a fresh
  deduplicator, whatever the script, the monitors and the engine do, every directive handed to the
  transport is one the engine can read, repeated commands are at least the cooldown apart, and (for
  up to 2 ^ 64 iterations) no two directives share a sequence number.\<close>

theorem main_loop_directives:
  assumes "main_inv s" and "ms_dedup s = dedup_with_cooldown c" and "length es \<le> 2 ^ 64"
  shows "list_all (\<lambda>x. directive_ok (fst x)) (snd (main_loop M to_json es s)) \<and>
     successively (spaced c) (snd (main_loop M to_json es s)) \<and>
     distinct (map (\<lambda>x. seq_id (fst x)) (snd (main_loop M to_json es s)))"
proof -
  note run = main_loop_refines[of M s to_json es, unfolded main_control_def[of s] assms(2)]
  have "lua_inv (ms_policy s)" using assms(1) by (simp add: main_inv_def)
  then show ?thesis
    using lua_ctl.control_run_sound[OF _ run] lua_ctl.control_run_distinct[OF run]
      le_trans[OF loop_inputs_signals assms(3)] by blast
qed

definition example_state :: "nat main_state" where
  "example_state =
     \<lparr> ms_policy = (example_policy, 1), ms_dedup = dedup_new,
       ms_transport = UnixHandle \<lparr> socket_path = ''/s'', unix_state = Listening \<rparr> \<rparr>"

definition example_env :: "system_signal \<Rightarrow> f64 \<Rightarrow> main_env" where
  "example_env s t =
     \<lparr> sig_shutdown = False, sig_hup = False, env_at_reload = example_host, env_pushed = [],
       env_reader_exit = False, env_recv = Got s, env_at_signal = example_host, env_elapsed_secs = t, env_accept = Accepted True,
       env_write_ok = True \<rparr>"

abbreviation "example_envs \<equiv>
  [example_env (MemoryPressure Normal 4 8 0) (Fin 1), example_env (MemoryPressure Normal 4 8 0) (Fin 2)]"

theorem main_loop_directives_witness:
  "list_all (\<lambda>x. directive_ok (fst x)) (snd (main_loop broken_machine example_encoder example_envs example_state)) \<and>
   successively (spaced (Fin 60)) (snd (main_loop broken_machine example_encoder example_envs example_state)) \<and>
   distinct (map (\<lambda>x. seq_id (fst x)) (snd (main_loop broken_machine example_encoder example_envs example_state)))"
  by (rule main_loop_directives)
    (simp_all add: main_inv_def example_state_def example_policy_inv dedup_new_def)

text \<open>C28: A manager that started without a client stays mute: when the wait on a Unix socket times
  out the transport is created all the same, and no run of the main loop, with clients waiting to
  connect or not, ever writes to anyone.\<close>

theorem unjoined_manager_stays_mute:
  assumes "list_all (\<lambda>(sd, acc, to). \<not> (\<exists>ok. acc = Accepted ok)) turns"
    and "ms_transport s = UnixHandle \<lparr> socket_path = path, unix_state = Listening \<rparr>"
  shows "create_transport (''unix:'' @ path) True turns False dbus_ok =
       Inr (UnixHandle \<lparr> socket_path = path, unix_state = Listening \<rparr>) \<and>
     ms_transport (fst (main_loop M to_json es s)) = UnixHandle \<lparr> socket_path = path, unix_state = Listening \<rparr>"
proof -
  have "wait_for_client turns Listening = (Listening, False)"
    using assms(1) by (induction turns) (auto split: accept_outcome.splits)
  then have "create_transport (''unix:'' @ path) True turns False dbus_ok =
      Inr (UnixHandle \<lparr> socket_path = path, unix_state = Listening \<rparr>)"
    by (simp add: create_transport_def unix_channel_new_def)
  moreover have "ms_transport (fst (main_loop M to_json es s)) = UnixHandle \<lparr> socket_path = path, unix_state = Listening \<rparr>"
    using assms(2) by (rule listening_loop) simp
  ultimately show ?thesis by blast
qed

theorem unjoined_manager_stays_mute_witness:
  "create_transport (''unix:'' @ ''/s'') True [(False, NoneWaiting, True)] False True =
       Inr (UnixHandle \<lparr> socket_path = ''/s'', unix_state = Listening \<rparr>) \<and>
   ms_transport (fst (main_loop broken_machine example_encoder example_envs example_state)) =
       UnixHandle \<lparr> socket_path = ''/s'', unix_state = Listening \<rparr>"
  by (rule unjoined_manager_stays_mute) (simp_all add: example_state_def)

text \<open>The monitors start quiet: whatever the configuration, every initial signal is at level
  Normal, and the default configuration runs the memory, thermal, compute and energy monitors, in
  that order, and no signal injection.\<close>

lemma initial_signals_normal:
  "list_all (\<lambda>s. signal_level s = Normal) (initial_signals (build_monitors fs cfg)) \<and>
   (\<exists>m t c e. build_monitors fs config_default = [MemoryM m, ThermalM t, ComputeM c, EnergyM e])"
proof -
  have "signal_level s = Normal" if "m \<in> set (build_monitors fs cfg)" "initial_signal m = Some s" for m s
    using that
    by (auto simp: build_monitors_def initial_signal_def memory_initial_signal_def thermal_initial_signal_def
        compute_initial_signal_def energy_initial_signal_def external_initial_signal_def
        memory_build_signal_def thermal_build_signal_def compute_build_signal_def energy_build_signal_def
        memory_monitor_new_def thermal_monitor_new_def compute_monitor_new_def energy_monitor_new_def
        evaluator_new_def Let_def split: if_splits option.splits)
  then have "list_all (\<lambda>s. signal_level s = Normal) (initial_signals (build_monitors fs cfg))"
    by (auto simp: initial_signals_def map_filter_def list_all_iff)
  then show ?thesis
    by (simp add: build_monitors_def config_default_def enabled_or_absent_def Let_def)
qed

lemma send_directive_bidirectional [simp]:
  "is_bidirectional (fst (send_directive to_json acc w d t)) = is_bidirectional t"
  by (cases t) (simp_all add: send_directive_def is_bidirectional_def)

lemma emit_initial_directives_keep:
  "lua_inv p \<Longrightarrow> emit_initial_directives M to_json xs p t = Inr (p', t') \<Longrightarrow>
   lua_inv p' \<and> is_bidirectional t' = is_bidirectional t"
proof (induction xs arbitrary: p t)
  case (Cons x xs)
  obtain h acc w s where x: "x = ((h, acc, w), s)" by (metis surj_pair)
  obtain p1 r where r: "process_signal M h s p = (p1, r)" by (cases "process_signal M h s p")
  have p1: "lua_inv p1" using lua_pol.process_inv[OF Cons.prems(1), of M h s] r by simp
  show ?case
  proof (cases r)
    case None
    then show ?thesis using Cons.IH[OF p1] Cons.prems(2) x r by simp
  next
    case (Some d)
    obtain t1 o1 where t1: "send_directive to_json acc w d t = (t1, o1)" by (cases "send_directive to_json acc w d t")
    then have "is_bidirectional t1 = is_bidirectional t"
      using send_directive_bidirectional[of to_json acc w d t] by simp
    moreover have "emit_initial_directives M to_json xs p1 t1 = Inr (p', t')"
      using Cons.prems(2) x r Some t1 by (simp split: sum.splits)
    ultimately show ?thesis using Cons.IH[OF p1] by blast
  qed
qed simp

text \<open>C27: The manager only runs where it can hear the engine: start-up succeeds only on a
  bidirectional transport and with a policy script, and the state it hands to the main loop is
  consistent.\<close>

theorem startup_consistent:
  assumes "startup M to_json h cfg script transport io = Inr s"
  shows "is_bidirectional (ms_transport s) \<and> script \<noteq> None \<and> main_inv s \<and>
     ms_dedup s = dedup_with_cooldown (dedup_cooldown_secs (cfg_adaptation cfg))"
proof -
  from assms obtain t p where t: "transport = Inr t" "is_bidirectional t"
    and p: "create_policy M h script cfg = Inr p"
    by (auto simp: startup_def split: sum.splits if_splits)
  let ?xs = "map (apfst io) (enumerate 0 (initial_signals (build_monitors (hv_files h) cfg)))"
  obtain pc t' where r: "emit_initial_directives M to_json ?xs (p, SEQ_COUNTER_init) t = Inr (pc, t')"
    and s: "s = \<lparr> ms_policy = pc, ms_dedup = dedup_with_cooldown (dedup_cooldown_secs (cfg_adaptation cfg)), ms_transport = t' \<rparr>"
    using assms t p by (auto simp: startup_def split: sum.splits)
  have "lua_inv (p, SEQ_COUNTER_init)"
    using p by (auto simp: create_policy_def with_system_clock_and_gpu_def new_with_gpu_def lua_inv_def
        split: option.splits sum.splits)
  from emit_initial_directives_keep[OF this r] t have "lua_inv pc" "is_bidirectional t'" by simp_all
  moreover have "script \<noteq> None" using p by (auto simp: create_policy_def split: option.splits)
  ultimately show ?thesis by (simp add: s main_inv_def)
qed

definition example_startup :: "string + nat main_state" where
  "example_startup = startup example_machine example_encoder example_host config_default (Some ''p.lua'')
     (Inr (UnixHandle \<lparr> socket_path = ''/s'', unix_state = Listening \<rparr>)) (\<lambda>i. (example_host, NoneWaiting, True))"

lemma emit_initial_listening:
  assumes "unix_state ch = Listening"
  shows "\<exists>p'. emit_initial_directives M to_json xs p (UnixHandle ch) = Inr (p', UnixHandle ch)"
proof (induction xs arbitrary: p)
  case (Cons x xs)
  obtain h acc w s where x: "x = ((h, acc, w), s)" by (metis surj_pair)
  have "send_directive to_json acc w d (UnixHandle ch) = (UnixHandle ch, Inr ())" for d
    using assms by (simp add: send_directive_def unix_emit_directive_def emit_directive_def emit_out_def ensure_connected_def)
  then show ?case using Cons x by (auto split: prod.split option.split)
qed simp

lemma example_startup_runs: "\<exists>s. example_startup = Inr s"
proof -
  obtain p where p: "create_policy example_machine example_host (Some ''p.lua'') config_default = Inr p"
    by (simp add: create_policy_def with_system_clock_and_gpu_def new_with_gpu_def fresh_vm_def load_script_def
        seen_through_def example_host_def example_machine_def)
  show ?thesis
    using emit_initial_listening[of "\<lparr> socket_path = ''/s'', unix_state = Listening \<rparr>" example_machine example_encoder]
    by (auto simp: example_startup_def startup_def is_bidirectional_def p split: sum.split)
      (metis Inr_inject Inl_Inr_False unix_socket_channel.select_convs(2))+
qed

theorem startup_consistent_witness:
  "\<exists>s. example_startup = Inr s \<and> is_bidirectional (ms_transport s) \<and> main_inv s"
proof -
  obtain s where s: "example_startup = Inr s" using example_startup_runs by blast
  from startup_consistent[OF s[unfolded example_startup_def]] s show ?thesis by blast
qed

end
