(* ===== verification/Manager_Process.thy ===== *)
theory Manager_Process
  imports Manager
begin

text \<open>
  The manager as a process (\<^verbatim>\<open>src/main.rs\<close>): the command line, the configuration, the signal
  handlers, the monitor threads with the channel they share, and the main thread from its loop to the
  last join.  The threads and the operating system are a step relation: a running thread may send any
  signal and may end at any time, an interrupt may arrive at any time, and the main thread takes one
  step at a time.  The environment of an iteration (clock, transport, what a script sees) is arbitrary; what
  \<^verbatim>\<open>recv_timeout\<close> returns is computed from the channel.
\<close>

section \<open>Command line and configuration\<close>

record args =
  arg_config :: string
  arg_transport :: string
  arg_client_timeout :: u64
  arg_policy_config :: "string option"
  arg_policy_script :: "string option"

definition args_default :: args where
  "args_default =
     \<lparr> arg_config = ''/etc/llm-manager/config.toml'', arg_transport = ''unix:/tmp/argus_manager.sock'',
       arg_client_timeout = 60, arg_policy_config = None, arg_policy_script = None \<rparr>"

definition config_from_file :: "file_system \<Rightarrow> (string \<Rightarrow> config res) \<Rightarrow> string \<Rightarrow> config res" where
  "config_from_file fs from_toml path =
     (case read_to_string fs path of None \<Rightarrow> Inl ''cannot read'' | Some content \<Rightarrow> from_toml content)"

definition load_config :: "file_system \<Rightarrow> (string \<Rightarrow> config res) \<Rightarrow> args \<Rightarrow> config res" where
  "load_config fs from_toml a =
     (if path_exists fs (arg_config a) then config_from_file fs from_toml (arg_config a) else Inr config_default)"

text \<open>The path of the script must be UTF-8; without the \<^verbatim>\<open>lua\<close> feature there is no policy at all.\<close>

definition create_lua_policy ::
  "'vm lua_machine option \<Rightarrow> host_view \<Rightarrow> (string \<Rightarrow> bool) \<Rightarrow> string \<Rightarrow> config \<Rightarrow> string + 'vm lua_policy" where
  "create_lua_policy feature h is_utf8 path cfg =
     (case feature of
        None \<Rightarrow> Inl ''--policy-script requires the 'lua' feature''
      | Some M \<Rightarrow>
          if \<not> is_utf8 path then Inl ''Invalid UTF-8 in policy script path''
          else with_system_clock_and_gpu M h path (cfg_adaptation cfg) SharedProvider)"

definition create_dbus_emitter :: "bool \<Rightarrow> bool \<Rightarrow> unit res" where
  "create_dbus_emitter has_dbus connects =
     (if \<not> has_dbus then Inl ''Transport 'dbus' requires the 'dbus' feature''
      else if connects then Inr () else Inl ''dbus'')"

section \<open>Threads and the channel of signals\<close>

definition monitor_name :: "monitor \<Rightarrow> string" where
  "monitor_name m =
     (case m of
        MemoryM _ \<Rightarrow> ''MemoryMonitor''
      | ThermalM _ \<Rightarrow> ''ThermalMonitor''
      | ComputeM _ \<Rightarrow> ''ComputeMonitor''
      | EnergyM _ \<Rightarrow> ''EnergyMonitor''
      | ExternalM _ \<Rightarrow> ''ExternalMonitor'')"

datatype thread_state = Running | Ended "unit res"

datatype main_phase = InLoop | Joining nat | Done

text \<open>\<^term>\<open>SHUTDOWN\<close> and \<^term>\<open>SIGHUP_RELOAD\<close> are the statics the handlers set, \<open>pr_shutdown\<close> the flag
  the monitors poll; \<open>pr_main_tx\<close> says whether the main thread still owns a sender.  The sent and
  received signals, all that the policy was fed and the directives handed to the transport, with the
  time of each, are recorded.\<close>

record 'vm process =
  SHUTDOWN :: bool
  SIGHUP_RELOAD :: bool
  pr_shutdown :: bool
  pr_threads :: "(string \<times> thread_state) list"
  pr_main_tx :: bool
  pr_queue :: "system_signal list"
  pr_phase :: main_phase
  pr_main :: "'vm main_state"
  pr_sent :: "system_signal list"
  pr_received :: "system_signal list"
  pr_inputs :: "(host_view, host_view) control_input list"
  pr_directives :: "(engine_directive \<times> f64) list"

definition process_handle_signal :: "'vm process \<Rightarrow> 'vm process" where
  "process_handle_signal p = p\<lparr>SHUTDOWN := True\<rparr>"

definition handle_sighup :: "'vm process \<Rightarrow> 'vm process" where
  "handle_sighup p = p\<lparr>SIGHUP_RELOAD := True\<rparr>"

text \<open>The sender given to \<^verbatim>\<open>spawn_monitors\<close> is cloned for every thread and dropped at the end.\<close>

definition spawn_monitors :: "monitor list \<Rightarrow> (string \<times> thread_state) list \<times> bool" where
  "spawn_monitors ms = (map (\<lambda>m. (monitor_name m, Running)) ms, False)"

definition process_start :: "monitor list \<Rightarrow> 'vm main_state \<Rightarrow> 'vm process" where
  "process_start ms s =
     (case spawn_monitors ms of (threads, main_tx) \<Rightarrow>
        \<lparr> SHUTDOWN = False, SIGHUP_RELOAD = False, pr_shutdown = False, pr_threads = threads,
          pr_main_tx = main_tx, pr_queue = [], pr_phase = InLoop, pr_main = s, pr_sent = [], pr_received = [],
          pr_inputs = [], pr_directives = [] \<rparr>)"

definition senders :: "'vm process \<Rightarrow> nat" where
  "senders p = length (filter (\<lambda>x. snd x = Running) (pr_threads p)) + (if pr_main_tx p then 1 else 0)"

definition recv_timeout :: "'vm process \<Rightarrow> recv_result" where
  "recv_timeout p =
     (case pr_queue p of
        s # q \<Rightarrow> Got s
      | [] \<Rightarrow> if senders p = 0 then RecvDisconnected else RecvTimeout)"

definition thread_send :: "system_signal \<Rightarrow> 'vm process \<Rightarrow> 'vm process" where
  "thread_send s p = p\<lparr>pr_queue := pr_queue p @ [s], pr_sent := pr_sent p @ [s]\<rparr>"

definition thread_end :: "nat \<Rightarrow> unit res \<Rightarrow> 'vm process \<Rightarrow> 'vm process" where
  "thread_end i r p = p\<lparr>pr_threads := (pr_threads p)[i := (fst (pr_threads p ! i), Ended r)]\<rparr>"

section \<open>The main thread\<close>

definition stop_monitors :: "'vm process \<Rightarrow> 'vm process" where
  "stop_monitors p = p\<lparr>pr_shutdown := True, pr_phase := Joining 0\<rparr>"

definition iteration_env :: "main_env \<Rightarrow> 'vm process \<Rightarrow> main_env" where
  "iteration_env e p = e\<lparr>sig_shutdown := SHUTDOWN p, sig_hup := SIGHUP_RELOAD p, env_recv := recv_timeout p\<rparr>"

definition after_step :: "'vm main_state \<Rightarrow> 'vm process \<Rightarrow> 'vm process" where
  "after_step s p =
     (if SHUTDOWN p then stop_monitors (p\<lparr>pr_main := s\<rparr>)
      else
        (let p' = p\<lparr>pr_main := s, SIGHUP_RELOAD := False\<rparr>
         in case recv_timeout p of
              Got signal \<Rightarrow> p'\<lparr>pr_queue := tl (pr_queue p), pr_received := pr_received p @ [signal]\<rparr>
            | RecvTimeout \<Rightarrow> p'
            | RecvDisconnected \<Rightarrow> stop_monitors p'))"

definition main_iteration ::
  "'vm lua_machine \<Rightarrow> (outgoing \<Rightarrow> u8 list res) \<Rightarrow> main_env \<Rightarrow> 'vm process \<Rightarrow> 'vm process" where
  "main_iteration M to_json e p =
     (let e' = iteration_env e p;
          r = main_step M to_json e' (pr_main p)
      in (after_step (fst r) p)\<lparr>pr_inputs := pr_inputs p @ step_inputs e' (pr_main p),
           pr_directives := pr_directives p @ logged_at (env_elapsed_secs e) (snd (snd r))\<rparr>)"

text \<open>\<^verbatim>\<open>save_model\<close> is the empty default for the scripted policy; then every handle is joined in order.\<close>

definition join_next :: "nat \<Rightarrow> 'vm process \<Rightarrow> 'vm process" where
  "join_next i p =
     (if length (pr_threads p) \<le> i then p\<lparr>pr_phase := Done\<rparr>
      else if snd (pr_threads p ! i) = Running then p
      else p\<lparr>pr_phase := Joining (i + 1)\<rparr>)"

definition main_thread ::
  "'vm lua_machine \<Rightarrow> (outgoing \<Rightarrow> u8 list res) \<Rightarrow> main_env \<Rightarrow> 'vm process \<Rightarrow> 'vm process" where
  "main_thread M to_json e p =
     (case pr_phase p of
        InLoop \<Rightarrow> main_iteration M to_json e p
      | Joining i \<Rightarrow> join_next i p
      | Done \<Rightarrow> p)"

inductive process_step ::
  "'vm lua_machine \<Rightarrow> (outgoing \<Rightarrow> u8 list res) \<Rightarrow> 'vm process \<Rightarrow> 'vm process \<Rightarrow> bool"
  for M :: "'vm lua_machine" and to_json :: "outgoing \<Rightarrow> u8 list res"
where
  interrupt: "process_step M to_json p (process_handle_signal p)"
| hangup: "process_step M to_json p (handle_sighup p)"
| sends: "i < length (pr_threads p) \<Longrightarrow> snd (pr_threads p ! i) = Running \<Longrightarrow>
    process_step M to_json p (thread_send s p)"
| ends: "i < length (pr_threads p) \<Longrightarrow> snd (pr_threads p ! i) = Running \<Longrightarrow>
    process_step M to_json p (thread_end i r p)"
| main: "process_step M to_json p (main_thread M to_json e p)"

inductive process_reaches ::
  "'vm lua_machine \<Rightarrow> (outgoing \<Rightarrow> u8 list res) \<Rightarrow> 'vm process \<Rightarrow> 'vm process \<Rightarrow> bool"
  for M :: "'vm lua_machine" and to_json :: "outgoing \<Rightarrow> u8 list res" and p0 :: "'vm process"
where
  here: "process_reaches M to_json p0 p0"
| step: "process_reaches M to_json p0 p \<Longrightarrow> process_step M to_json p p' \<Longrightarrow> process_reaches M to_json p0 p'"

section \<open>The invariant of the process\<close>

definition all_ended :: "'vm process \<Rightarrow> bool" where
  "all_ended p = list_all (\<lambda>x. snd x \<noteq> Running) (pr_threads p)"

definition process_inv :: "'vm process \<Rightarrow> bool" where
  "process_inv p =
     (pr_sent p = pr_received p @ pr_queue p \<and> main_inv (pr_main p) \<and> \<not> pr_main_tx p \<and>
      (pr_phase p \<noteq> InLoop \<longrightarrow> pr_shutdown p \<and> (SHUTDOWN p \<or> all_ended p \<and> pr_queue p = [])) \<and>
      (case pr_phase p of
         InLoop \<Rightarrow> True
       | Joining i \<Rightarrow> list_all (\<lambda>x. snd x \<noteq> Running) (take i (pr_threads p))
       | Done \<Rightarrow> all_ended p))"

lemma log_irrelevant [simp]:
  "process_inv (p\<lparr>pr_directives := ds\<rparr>) = process_inv p" "all_ended (p\<lparr>pr_directives := ds\<rparr>) = all_ended p"
  "process_inv (p\<lparr>pr_inputs := ins\<rparr>) = process_inv p" "all_ended (p\<lparr>pr_inputs := ins\<rparr>) = all_ended p"
  by (simp_all add: process_inv_def all_ended_def cong: main_phase.case_cong)

lemma senders_zero: "\<not> pr_main_tx p \<Longrightarrow> senders p = 0 \<longleftrightarrow> all_ended p"
  by (simp add: senders_def all_ended_def filter_empty_conv list_all_iff)


lemma all_ended_nth: "all_ended p \<Longrightarrow> i < length (pr_threads p) \<Longrightarrow> snd (pr_threads p ! i) \<noteq> Running"
  by (simp add: all_ended_def list_all_length)

lemma process_start_inv: "main_inv s \<Longrightarrow> process_inv (process_start ms s)"
  by (simp add: process_start_def spawn_monitors_def process_inv_def)

lemma recv_timeout_cases:
  obtains (got) s q where "recv_timeout p = Got s" "pr_queue p = s # q"
  | (timeout) "recv_timeout p = RecvTimeout" "pr_queue p = []" "senders p \<noteq> 0"
  | (gone) "recv_timeout p = RecvDisconnected" "pr_queue p = []" "senders p = 0"
  by (cases "pr_queue p") (auto simp: recv_timeout_def split: if_splits)

lemma main_iteration_inv:
  assumes "process_inv p" and "pr_phase p = InLoop"
  shows "process_inv (main_iteration M to_json e p)"
proof -
  define s where "s = fst (main_step M to_json (iteration_env e p) (pr_main p))"
  have "main_inv (pr_main p)" using assms(1) by (simp add: process_inv_def)
  then have s: "main_inv s" unfolding s_def by (rule main_step_inv)
  have "process_inv (after_step s p)"
  proof (cases "SHUTDOWN p")
    case True
    then show ?thesis using assms s by (simp add: after_step_def process_inv_def stop_monitors_def)
  next
    case False
    then show ?thesis
    proof (cases p rule: recv_timeout_cases)
      case gone
      then have "all_ended p" using assms(1) senders_zero by (auto simp: process_inv_def)
      then show ?thesis using False gone assms s
        by (simp add: after_step_def process_inv_def stop_monitors_def all_ended_def)
    qed (use False assms s in \<open>simp_all add: after_step_def process_inv_def\<close>)
  qed
  then show ?thesis by (simp add: main_iteration_def s_def Let_def)
qed

lemma join_next_inv:
  assumes "process_inv p" and "pr_phase p = Joining i"
  shows "process_inv (join_next i p)"
proof -
  have t: "list_all (\<lambda>x. snd x \<noteq> Running) (take i (pr_threads p))" using assms by (simp add: process_inv_def)
  show ?thesis
  proof (cases "length (pr_threads p) \<le> i")
    case True
    then show ?thesis using assms t by (auto simp: join_next_def process_inv_def all_ended_def)
  next
    case False
    then show ?thesis using assms t
      by (simp add: join_next_def process_inv_def all_ended_def take_Suc_conv_app_nth)
  qed
qed

lemma thread_end_inv:
  assumes "process_inv p" and "i < length (pr_threads p)" and "snd (pr_threads p ! i) = Running"
  shows "process_inv (thread_end i r p)"
proof -
  have e: "all_ended (thread_end i r p)" if "all_ended p"
    using that all_ended_nth[OF that assms(2)] assms(3) by simp
  have "list_all (\<lambda>x. snd x \<noteq> Running) (take j ((pr_threads p)[i := (n, Ended r)]))"
    if "list_all (\<lambda>x. snd x \<noteq> Running) (take j (pr_threads p))" for j n
    unfolding list_all_length
  proof (intro allI impI)
    fix k assume k: "k < length (take j ((pr_threads p)[i := (n, Ended r)]))"
    then show "snd (take j ((pr_threads p)[i := (n, Ended r)]) ! k) \<noteq> Running"
      using that by (cases "k = i") (auto simp: list_all_length)
  qed
  then show ?thesis using assms(1) e
    by (auto simp: process_inv_def thread_end_def all_ended_def split: main_phase.splits)
qed

lemma process_step_inv: "process_step M to_json p p' \<Longrightarrow> process_inv p \<Longrightarrow> process_inv p'"
proof (induction rule: process_step.induct)
  case (interrupt p)
  then show ?case by (auto simp: process_inv_def process_handle_signal_def all_ended_def split: main_phase.splits)
next
  case (hangup p)
  then show ?case by (auto simp: process_inv_def handle_sighup_def all_ended_def split: main_phase.splits)
next
  case (sends i p s)
  then have "\<not> all_ended p" using all_ended_nth by blast
  then show ?case using sends(3)
    by (auto simp: process_inv_def thread_send_def all_ended_def split: main_phase.splits)
next
  case (ends i p r)
  then show ?case by (intro thread_end_inv)
next
  case (main p e)
  then show ?case
    by (cases "pr_phase p") (auto simp: main_thread_def intro: main_iteration_inv join_next_inv)
qed

lemma process_reaches_inv: "process_reaches M to_json p0 p \<Longrightarrow> process_inv p0 \<Longrightarrow> process_inv p"
  by (induction rule: process_reaches.induct) (auto intro: process_step_inv)

section \<open>The process refines the controller\<close>

definition process_control :: "'vm process \<Rightarrow> ('vm lua_policy \<times> u64) \<times> directive_deduplicator" where
  "process_control p = main_control (pr_main p)"

definition process_logged :: "'vm process \<Rightarrow> (host_view, host_view) control_input list \<Rightarrow> (engine_directive \<times> f64) list \<Rightarrow> bool" where
  "process_logged p ins out = (pr_inputs p = ins \<and> pr_directives p = out \<and> signals_in ins = pr_received p)"

lemma after_step_main [simp]: "pr_main (after_step s p) = s"
  by (simp add: after_step_def stop_monitors_def Let_def split: recv_result.split)

lemma after_step_received:
  "pr_received (after_step s p) = pr_received p @ signals_in (step_inputs (iteration_env e p) s')"
  by (simp add: after_step_def stop_monitors_def iteration_env_def Let_def step_inputs_signals split: recv_result.split)

lemma main_iteration_refines:
  "lua_control M (process_control p) (step_inputs (iteration_env e p) (pr_main p)) =
   (process_control (main_iteration M to_json e p),
    logged_at (env_elapsed_secs e) (snd (snd (main_step M to_json (iteration_env e p) (pr_main p)))))"
proof -
  have "env_elapsed_secs (iteration_env e p) = env_elapsed_secs e" by (simp add: iteration_env_def)
  then show ?thesis
    using main_step_refines[of M to_json "iteration_env e p" "pr_main p"]
    by (cases "main_step M to_json (iteration_env e p) (pr_main p)")
      (simp add: process_control_def main_iteration_def Let_def)
qed

lemma main_iteration_logs:
  "process_logged p ins out \<Longrightarrow>
   process_logged (main_iteration M to_json e p) (ins @ step_inputs (iteration_env e p) (pr_main p))
     (out @ logged_at (env_elapsed_secs e) (snd (snd (main_step M to_json (iteration_env e p) (pr_main p)))))"
  by (simp add: process_logged_def main_iteration_def Let_def after_step_received[of _ p e "pr_main p"])

text \<open>Every other step leaves the control and the log alone.\<close>

lemma process_step_quiet:
  assumes "process_control p' = process_control p" and "process_logged p' = process_logged p"
    and "process_logged p ins out"
  shows "\<exists>ins' out'. process_logged p' (ins @ ins') (out @ out') \<and>
    lua_control M (process_control p) ins' = (process_control p', out')"
  using assms by (intro exI[of _ "[]"]) (simp add: process_control_def main_control_def)

lemma process_step_refines:
  "process_step M to_json p p' \<Longrightarrow> process_logged p ins out \<Longrightarrow>
   \<exists>ins' out'. process_logged p' (ins @ ins') (out @ out') \<and>
     lua_control M (process_control p) ins' = (process_control p', out')"
proof (induction rule: process_step.induct)
  case (main p e)
  show ?case
  proof (cases "pr_phase p")
    case InLoop
    then have t: "main_thread M to_json e p = main_iteration M to_json e p" by (simp add: main_thread_def)
    show ?thesis unfolding t
      by (intro exI conjI, rule main_iteration_logs[OF main], rule main_iteration_refines)
  next
    case (Joining i)
    then show ?thesis using main
      by (intro process_step_quiet)
        (auto simp: main_thread_def join_next_def process_control_def process_logged_def fun_eq_iff)
  next
    case Done
    then show ?thesis using main by (intro process_step_quiet) (simp_all add: main_thread_def)
  qed
qed (auto simp: process_control_def process_logged_def fun_eq_iff process_handle_signal_def handle_sighup_def
      thread_send_def thread_end_def intro!: process_step_quiet)

interpretation manager: controlled "process_step M to_json" process_control process_logged "lua_control M"
  for M :: "'vm lua_machine" and to_json
  by unfold_locales (erule (1) control_run_trans, rule control_run_Nil, erule (1) process_step_refines)

lemma process_reaches_steps: "process_reaches M to_json p0 p \<Longrightarrow> (process_step M to_json)\<^sup>*\<^sup>* p0 p"
  by (induction rule: process_reaches.induct) auto

lemma process_reaches_refines:
  assumes "process_reaches M to_json (process_start ms s) p"
  shows "lua_control M (main_control s) (pr_inputs p) = (main_control (pr_main p), pr_directives p)"
    and "signals_in (pr_inputs p) = pr_received p"
proof -
  have "process_logged (process_start ms s) [] []" "process_control (process_start ms s) = main_control s"
    by (simp_all add: process_logged_def process_control_def process_start_def spawn_monitors_def)
  then have "\<exists>ins out. process_logged p ins out \<and> lua_control M (main_control s) ins = (process_control p, out)"
    using manager.replays[OF process_reaches_steps[OF assms]] by simp
  then show "lua_control M (main_control s) (pr_inputs p) = (main_control (pr_main p), pr_directives p)"
    "signals_in (pr_inputs p) = pr_received p"
    by (auto simp: process_logged_def process_control_def)
qed

section \<open>Feeding the process\<close>

text \<open>
  The environment can feed the main thread any sequence of messages and signals: with a client
  connected and a monitor running, the reader pushes one message before an iteration, or the monitor
  sends one signal.
\<close>

definition calm_env :: main_env where
  "calm_env =
     \<lparr> sig_shutdown = False, sig_hup = False, env_at_reload = example_host, env_pushed = [], env_reader_exit = False,
       env_recv = RecvTimeout, env_at_signal = example_host, env_elapsed_secs = Fin 0, env_accept = NoneWaiting,
       env_write_ok = True \<rparr>"

definition open_transport :: "transport_handle \<Rightarrow> bool" where
  "open_transport t =
     (case t of
        UnixHandle ch \<Rightarrow> (case unix_state ch of Connected c \<Rightarrow> inbox c = [] \<and> \<not> reader_exited c | _ \<Rightarrow> False)
      | _ \<Rightarrow> False)"

definition ready :: "'vm process \<Rightarrow> bool" where
  "ready p =
     (pr_phase p = InLoop \<and> \<not> SHUTDOWN p \<and> \<not> SIGHUP_RELOAD p \<and> pr_queue p = [] \<and>
      pr_threads p = [(''ExternalMonitor'', Running)] \<and> open_transport (ms_transport (pr_main p)))"

lemma open_transport_cases:
  assumes "open_transport t"
  obtains ch c where "t = UnixHandle ch" "unix_state ch = Connected c" "inbox c = []" "\<not> reader_exited c"
  using assms by (auto simp: open_transport_def split: transport_handle.splits connection_state.splits)

lemma open_activity:
  assumes "open_transport t" and "env_pushed e = ms" and "\<not> env_reader_exit e" and "length ms \<le> 1"
  shows "transport_pending (transport_activity e t) = ms"
    and "open_transport (fst (drain_messages upd (transport_activity e t) p))"
proof -
  obtain ch c where c: "t = UnixHandle ch" "unix_state ch = Connected c" "inbox c = []" "\<not> reader_exited c"
    using assms(1) by (rule open_transport_cases)
  have a: "transport_activity e t = UnixHandle (ch\<lparr>unix_state := Connected (c\<lparr>inbox := ms\<rparr>)\<rparr>)"
    using assms(2-4) c
    by (cases ms) (simp_all add: transport_activity_def reader_activity_def reader_push_def inbox_capacity_def)
  show "transport_pending (transport_activity e t) = ms" by (simp add: a)
  have d: "drain_messages upd (UnixHandle (ch\<lparr>unix_state := Connected (c\<lparr>inbox := []\<rparr>)\<rparr>)) q =
      (UnixHandle (ch\<lparr>unix_state := Connected (c\<lparr>inbox := []\<rparr>)\<rparr>), q)" for q
    using c by (subst drain_messages.simps) (simp add: try_recv_engine_message_def unix_try_recv_def try_recv_def)
  have "fst (drain_messages upd (transport_activity e t) p) = UnixHandle (ch\<lparr>unix_state := Connected (c\<lparr>inbox := []\<rparr>)\<rparr>)"
  proof (cases ms)
    case Nil
    then show ?thesis by (simp add: a d)
  next
    case (Cons m ms')
    then have "ms = [m]" using assms(4) by simp
    then show ?thesis unfolding a
      by (subst drain_messages.simps)
        (use d in \<open>simp add: try_recv_engine_message_def unix_try_recv_def try_recv_def\<close>)
  qed
  then show "open_transport (fst (drain_messages upd (transport_activity e t) p))"
    using c by (simp add: open_transport_def)
qed

lemma open_send:
  assumes "open_transport t" and "\<And>m. \<not> isl (to_json m)"
  shows "open_transport (fst (send_directive to_json acc True d t))"
proof -
  obtain ch c where c: "t = UnixHandle ch" "unix_state ch = Connected c" "inbox c = []" "\<not> reader_exited c"
    using assms(1) by (rule open_transport_cases)
  obtain json where "to_json (OutMessage (Directive d)) = Inr json"
    using assms(2)[of "OutMessage (Directive d)"] by (cases "to_json (OutMessage (Directive d))") auto
  then show ?thesis using c
    by (simp add: send_directive_def unix_emit_directive_def emit_directive_def emit_out_def ensure_connected_def
        write_message_def open_transport_def)
qed

lemma main_step_open:
  assumes "open_transport (ms_transport s)" and "\<And>m. \<not> isl (to_json m)" and "env_write_ok e"
    and "\<not> env_reader_exit e" and "length (env_pushed e) \<le> 1"
  shows "open_transport (ms_transport (fst (main_step M to_json e s)))"
proof (cases "sig_shutdown e")
  case False
  let ?p1 = "if sig_hup e then hot_reload M (env_at_reload e) (ms_policy s) else ms_policy s"
  obtain t1 p2 where d: "drain_messages update_engine_state (transport_activity e (ms_transport s)) ?p1 = (t1, p2)"
    by (cases "drain_messages update_engine_state (transport_activity e (ms_transport s)) ?p1")
  have "open_transport t1" using open_activity(2)[OF assms(1) HOL.refl assms(4,5), of update_engine_state ?p1] d by simp
  then show ?thesis using False assms(3) open_send[OF _ assms(2), of t1]
    by (auto simp: main_step_def d Let_def split: recv_result.splits prod.splits option.splits)
qed (simp add: main_step_def assms(1))

lemma ready_iteration:
  assumes "ready (p\<lparr>pr_queue := []\<rparr>)" and "\<And>m. \<not> isl (to_json m)" and "env_write_ok e"
    and "\<not> env_reader_exit e" and "length (env_pushed e) \<le> 1" and "length (pr_queue p) \<le> 1"
  shows "ready (main_thread M to_json e p) \<and>
    pr_inputs (main_thread M to_json e p) = pr_inputs p @ map Message (env_pushed e) @
      map (\<lambda>s. Signal (env_at_signal e) s (env_elapsed_secs e)) (pr_queue p)"
proof -
  let ?e = "iteration_env e p"
  have r: "pr_phase p = InLoop" "\<not> SHUTDOWN p" "\<not> SIGHUP_RELOAD p" "pr_threads p = [(''ExternalMonitor'', Running)]"
    "open_transport (ms_transport (pr_main p))"
    using assms(1) by (simp_all add: ready_def)
  have e: "\<not> sig_shutdown ?e" "\<not> sig_hup ?e" "env_recv ?e = recv_timeout p" "env_pushed ?e = env_pushed e"
    "env_at_signal ?e = env_at_signal e" "env_elapsed_secs ?e = env_elapsed_secs e" "\<not> env_reader_exit ?e" "env_write_ok ?e"
    using r assms(3,4) by (simp_all add: iteration_env_def)
  have s: "senders p \<noteq> 0" by (simp add: senders_def r(4))
  have "open_transport (ms_transport (fst (main_step M to_json ?e (pr_main p))))"
    using main_step_open[OF r(5) assms(2) e(8,7)] assms(5) e(4) by simp
  moreover have "transport_pending (transport_activity ?e (ms_transport (pr_main p))) = env_pushed e"
    using open_activity(1)[OF r(5) e(4,7)] assms(5) by simp
  moreover have "pr_queue p = [] \<or> (\<exists>x. pr_queue p = [x])" using assms(6) by (cases "pr_queue p") auto
  ultimately show ?thesis using r e s
    by (auto simp: main_thread_def main_iteration_def after_step_def step_inputs_def recv_timeout_def ready_def Let_def)
qed

lemma process_can_be_fed:
  assumes "list_all (\<lambda>i. \<forall>x. i \<noteq> Reload x) ins" and "\<And>m. \<not> isl (to_json m)"
  shows "\<exists>ms s p. process_reaches M to_json (process_start ms s) p \<and> ms_policy s = pc \<and> ms_dedup s = d \<and> pr_inputs p = ins"
proof -
  define s where "s = \<lparr> ms_policy = pc, ms_dedup = d, ms_transport = UnixHandle \<lparr> socket_path = ''/s'',
      unix_state = Connected \<lparr> written = [], inbox = [], reader_exited = False \<rparr> \<rparr> \<rparr>"
  define p0 where "p0 = process_start [ExternalM Stdin] s"
  have p0: "ready p0" "pr_inputs p0 = []"
    by (simp_all add: p0_def s_def ready_def process_start_def spawn_monitors_def monitor_name_def open_transport_def)
  have "\<exists>p. process_reaches M to_json p0 p \<and> ready p \<and> pr_inputs p = ins"
    using assms(1)
  proof (induction ins rule: rev_induct)
    case (snoc i ins)
    then obtain p where p: "process_reaches M to_json p0 p" "ready p" "pr_inputs p = ins" by auto
    have q: "p\<lparr>pr_queue := []\<rparr> = p" using p(2) by (simp add: ready_def)
    show ?case
    proof (cases i)
      case (Message m)
      let ?e = "calm_env\<lparr>env_pushed := [m]\<rparr>"
      have "ready (main_thread M to_json ?e p)" "pr_inputs (main_thread M to_json ?e p) = ins @ [i]"
        using ready_iteration[of p to_json ?e M] assms(2) p q Message by (auto simp: calm_env_def ready_def)
      moreover have "process_reaches M to_json p0 (main_thread M to_json ?e p)"
        by (rule process_reaches.step[OF p(1) process_step.main])
      ultimately show ?thesis by blast
    next
      case (Signal h sg t)
      let ?e = "calm_env\<lparr>env_at_signal := h, env_elapsed_secs := t\<rparr>" and ?p = "thread_send sg p"
      have one: "pr_queue ?p = [sg]" "?p\<lparr>pr_queue := []\<rparr> = p\<lparr>pr_sent := pr_sent p @ [sg]\<rparr>" "pr_inputs ?p = ins"
        using p(2,3) q by (simp_all add: thread_send_def ready_def)
      have "ready (?p\<lparr>pr_queue := []\<rparr>)" using p(2) unfolding one(2) by (simp add: ready_def)
      then have "ready (main_thread M to_json ?e ?p)" "pr_inputs (main_thread M to_json ?e ?p) = ins @ [i]"
        using ready_iteration[of ?p to_json ?e M] assms(2) one Signal by (auto simp: calm_env_def)
      moreover have "process_reaches M to_json p0 (main_thread M to_json ?e ?p)"
      proof (rule process_reaches.step[OF _ process_step.main])
        show "process_reaches M to_json p0 ?p"
          using p(2) by (intro process_reaches.step[OF p(1) process_step.sends[of 0]]) (simp_all add: ready_def)
      qed
      ultimately show ?thesis by blast
    qed (use snoc.prems in simp)
  qed (use p0 process_reaches.here in blast)
  then show ?thesis unfolding p0_def
    by (intro exI[of _ "[ExternalM Stdin]"] exI[of _ s]) (auto simp: s_def)
qed

section \<open>The main thread alone, once the monitors have ended\<close>

definition steps_left :: "'vm process \<Rightarrow> nat" where
  "steps_left p =
     (case pr_phase p of
        InLoop \<Rightarrow> length (pr_queue p) + length (pr_threads p) + 2
      | Joining i \<Rightarrow> length (pr_threads p) - i + 1
      | Done \<Rightarrow> 0)"

lemma steps_left_log [simp]:
  "steps_left (p\<lparr>pr_directives := ds\<rparr>) = steps_left p" "steps_left (p\<lparr>pr_inputs := ins\<rparr>) = steps_left p"
  by (simp_all add: steps_left_def cong: main_phase.case_cong)

lemma main_thread_progress:
  assumes "all_ended p" and "\<not> pr_main_tx p"
  shows "all_ended (main_thread M to_json e p) \<and> \<not> pr_main_tx (main_thread M to_json e p) \<and>
    steps_left (main_thread M to_json e p) \<le> steps_left p - 1"
proof (cases "pr_phase p")
  case InLoop
  have "all_ended (after_step s p) \<and> \<not> pr_main_tx (after_step s p) \<and> steps_left (after_step s p) \<le> steps_left p - 1" for s
  proof (cases "SHUTDOWN p")
    case True
    then show ?thesis using assms InLoop by (simp add: after_step_def stop_monitors_def all_ended_def steps_left_def)
  next
    case False
    then show ?thesis
    proof (cases p rule: recv_timeout_cases)
      case timeout
      then show ?thesis using assms senders_zero[of p] by simp
    qed (use False assms InLoop in \<open>simp_all add: after_step_def stop_monitors_def all_ended_def steps_left_def\<close>)
  qed
  then show ?thesis by (simp add: main_thread_def InLoop main_iteration_def Let_def)
next
  case (Joining i)
  then show ?thesis using assms all_ended_nth[of p i]
    by (auto simp: main_thread_def join_next_def all_ended_def steps_left_def)
qed (use assms in \<open>simp add: main_thread_def steps_left_def\<close>)

lemma main_thread_finishes:
  "all_ended p \<Longrightarrow> \<not> pr_main_tx p \<Longrightarrow> steps_left p \<le> length es \<Longrightarrow>
   pr_phase (fold (main_thread M to_json) es p) = Done"
proof (induction es arbitrary: p)
  case Nil
  then show ?case by (cases "pr_phase p") (simp_all add: steps_left_def)
next
  case (Cons e es)
  note pr = main_thread_progress[OF Cons.prems(1,2), of M to_json e]
  have "steps_left (main_thread M to_json e p) \<le> length es" using pr Cons.prems(3) by auto
  then show ?case using pr Cons.IH[of "main_thread M to_json e p"] by simp
qed

lemma main_run_reaches:
  "process_reaches M to_json p0 p \<Longrightarrow> process_reaches M to_json p0 (fold (main_thread M to_json) es p)"
proof (induction es arbitrary: p)
  case (Cons e es)
  then show ?case using process_reaches.step[OF Cons.prems process_step.main[of M to_json p e]] by simp
qed simp

lemma main_thread_keeps: "pr_sent (main_thread M to_json e p) = pr_sent p \<and> SHUTDOWN (main_thread M to_json e p) = SHUTDOWN p"
  by (auto simp: main_thread_def main_iteration_def after_step_def Let_def stop_monitors_def join_next_def
      split: main_phase.splits recv_result.splits)

lemma main_run_keeps: "pr_sent (fold (main_thread M to_json) es p) = pr_sent p \<and> SHUTDOWN (fold (main_thread M to_json) es p) = SHUTDOWN p"
  by (induction es arbitrary: p) (simp_all add: main_thread_keeps)

section \<open>Properties\<close>

text \<open>C7: Whatever the monitors, the operating system and the engine do: every signal a monitor sent has
  been handled by the main loop or is still queued, in the order of sending; the main thread leaves
  its loop only on an interrupt or after every monitor has ended and every signal was handled; then
  the monitors have been told to stop; and the process ends only when every monitor has ended.\<close>

theorem process_exit_sound:
  assumes "main_inv s" and "process_reaches M to_json (process_start ms s) p"
  shows "pr_sent p = pr_received p @ pr_queue p \<and>
    (pr_phase p = InLoop \<or> pr_shutdown p \<and> (SHUTDOWN p \<or> all_ended p \<and> pr_received p = pr_sent p)) \<and>
    (pr_phase p = Done \<longrightarrow> all_ended p)"
  using process_reaches_inv[OF assms(2) process_start_inv[OF assms(1)]]
  by (auto simp: process_inv_def split: main_phase.splits)

text \<open>C8: Once every monitor has ended, the main thread comes to its end within as many steps as there
  are signals queued and threads to join, and two more; without an interrupt it has handled every
  signal by then.\<close>

theorem process_exits:
  assumes "main_inv s" and "process_reaches M to_json (process_start ms s) p" and "all_ended p"
    and "length (pr_queue p) + length (pr_threads p) + 2 \<le> length es"
  shows "pr_phase (fold (main_thread M to_json) es p) = Done \<and>
    (SHUTDOWN p \<or> pr_received (fold (main_thread M to_json) es p) = pr_sent p)"
proof -
  have inv: "process_inv p" by (rule process_reaches_inv[OF assms(2) process_start_inv[OF assms(1)]])
  have "steps_left p \<le> length es" using assms(4) by (cases "pr_phase p") (simp_all add: steps_left_def)
  then have d: "pr_phase (fold (main_thread M to_json) es p) = Done"
    using inv assms(3) by (intro main_thread_finishes) (auto simp: process_inv_def)
  have "process_inv (fold (main_thread M to_json) es p)"
    by (rule process_reaches_inv[OF main_run_reaches[OF assms(2)] process_start_inv[OF assms(1)]])
  then show ?thesis using d main_run_keeps[of M to_json es p] by (auto simp: process_inv_def)
qed

text \<open>A monitor that does not return keeps the process from ending, interrupted or not: the signal
  injection monitor looks at the flag only after a line has arrived.\<close>

lemma running_monitor_blocks_exit:
  "main_inv s \<Longrightarrow> process_reaches M to_json (process_start ms s) p \<Longrightarrow>
   i < length (pr_threads p) \<Longrightarrow> snd (pr_threads p ! i) = Running \<Longrightarrow> pr_phase p \<noteq> Done"
  using process_reaches_inv[OF _ process_start_inv] all_ended_nth by (fastforce simp: process_inv_def)

text \<open>C6: What the process sends, in every interleaving, from a consistent state with a fresh
  deduplicator: every directive handed to the transport is one the engine can read; repeated commands
  are at least the cooldown apart; there is at most one directive per signal received; and (for up
  to 2 ^ 64 signals) no two share a sequence number.\<close>

theorem process_directives_sound:
  assumes "main_inv s" and "ms_dedup s = dedup_with_cooldown c"
    and "process_reaches M to_json (process_start ms s) p"
  shows "list_all (\<lambda>x. directive_ok (fst x)) (pr_directives p) \<and>
    successively (spaced c) (pr_directives p) \<and>
    length (pr_directives p) \<le> length (pr_received p) \<and>
    (length (pr_received p) \<le> 2 ^ 64 \<longrightarrow> distinct (map (\<lambda>x. seq_id (fst x)) (pr_directives p)))"
proof -
  note run = process_reaches_refines(1)[OF assms(3), unfolded main_control_def[of s] assms(2)]
  have "lua_inv (ms_policy s)" using assms(1) by (simp add: main_inv_def)
  then show ?thesis
    using lua_ctl.control_run_sound[OF _ run] lua_ctl.control_run_distinct[OF run] process_reaches_refines(2)[OF assms(3)]
    by simp
qed

text \<open>C1: The process refines the controller: in every interleaving, the policy, the deduplicator and the
  directives handed to the transport are those of the sequential controller fed with what the policy
  was given, in that order, and its signals are exactly the signals the main loop received.\<close>

theorem process_refines_controller:
  assumes "process_reaches M to_json (process_start ms s) p"
  shows "control_run (process_signal M) update_engine_state (hot_reload M) (ms_policy s, ms_dedup s) (pr_inputs p) =
      ((ms_policy (pr_main p), ms_dedup (pr_main p)), pr_directives p) \<and>
    signals_in (pr_inputs p) = pr_received p"
  using process_reaches_refines[OF assms] by (simp add: main_control_def)

text \<open>A run: the injection monitor sends one signal, the main loop handles it, the monitor ends.\<close>

definition injecting :: "nat process" where
  "injecting = process_start [ExternalM Stdin] example_state"

definition quiet_env :: main_env where
  "quiet_env = example_env (MemoryPressure Normal 4 8 0) (Fin 1)"

definition injected :: "nat process" where
  "injected = thread_end 0 (Inr ()) (thread_send (MemoryPressure Normal 4 8 0) injecting)"

lemma injected_reached: "process_reaches M to_json injecting injected"
proof -
  have r: "0 < length (pr_threads injecting)" "snd (pr_threads injecting ! 0) = Running"
    by (simp_all add: injecting_def process_start_def spawn_monitors_def)
  note one = process_reaches.step[OF process_reaches.here process_step.sends[OF r]]
  have r': "0 < length (pr_threads (thread_send s injecting))"
    "snd (pr_threads (thread_send s injecting) ! 0) = Running" for s
    using r by (simp_all add: thread_send_def)
  show ?thesis unfolding injected_def by (rule process_reaches.step[OF one process_step.ends[OF r']])
qed

lemma injected_state:
  "pr_sent injected = [MemoryPressure Normal 4 8 0]" "pr_queue injected = [MemoryPressure Normal 4 8 0]"
  "length (pr_threads injected) = 1" "all_ended injected" "\<not> SHUTDOWN injected"
  by (simp_all add: injected_def injecting_def process_start_def spawn_monitors_def thread_send_def thread_end_def
      all_ended_def)

lemma example_state_inv: "main_inv example_state"
  by (simp add: main_inv_def example_state_def example_policy_inv)

theorem process_exit_sound_witness:
  "pr_received injected @ pr_queue injected = [MemoryPressure Normal 4 8 0] \<and> pr_phase injected \<noteq> Joining 0"
  using process_exit_sound[OF example_state_inv injected_reached[unfolded injecting_def]]
  by (auto simp: injected_state)

theorem process_exits_witness:
  "pr_phase (fold (main_thread broken_machine example_encoder) (replicate 4 quiet_env) injected) = Done \<and>
   pr_received (fold (main_thread broken_machine example_encoder) (replicate 4 quiet_env) injected) =
     [MemoryPressure Normal 4 8 0]"
  using process_exits[OF example_state_inv injected_reached[unfolded injecting_def], of "replicate 4 quiet_env" broken_machine example_encoder]
  by (simp add: injected_state)

text \<open>Another: two signals, of which the script fails on the first and answers the second.\<close>

definition twice_injected :: "nat process" where
  "twice_injected = thread_send charging_signal (thread_send charging_signal injecting)"

definition answered :: "nat process" where
  "answered = fold (main_thread example_machine example_encoder) [quiet_env, quiet_env] twice_injected"

lemma answered_reached: "process_reaches example_machine example_encoder injecting answered"
proof -
  have r: "0 < length (pr_threads injecting)" "snd (pr_threads injecting ! 0) = Running"
    by (simp_all add: injecting_def process_start_def spawn_monitors_def)
  note one = process_reaches.step[OF process_reaches.here process_step.sends[OF r]]
  have r': "0 < length (pr_threads (thread_send s injecting))"
    "snd (pr_threads (thread_send s injecting) ! 0) = Running" for s
    using r by (simp_all add: thread_send_def)
  show ?thesis unfolding answered_def twice_injected_def
    by (rule main_run_reaches, rule process_reaches.step[OF one process_step.sends[OF r']])
qed

lemma answered_received:
  "pr_received answered = [charging_signal, charging_signal]"
  by (simp add: answered_def twice_injected_def injecting_def process_start_def spawn_monitors_def thread_send_def
      main_thread_def main_iteration_def after_step_def recv_timeout_def Let_def)

lemma listening_step_directive:
  assumes "ms_transport s = UnixHandle ch" "unix_state ch = Listening"
    "\<not> sig_shutdown e" "\<not> sig_hup e" "env_recv e = Got signal"
    "process_signal M (env_at_signal e) signal (ms_policy s) = (p', r)"
  shows "snd (snd (main_step M to_json e s)) =
      (case r of None \<Rightarrow> None | Some d \<Rightarrow> snd (dedup_process d (env_elapsed_secs e) (ms_dedup s)))"
    and "ms_policy (fst (main_step M to_json e s)) = p'"
    and "r = None \<Longrightarrow> ms_dedup (fst (main_step M to_json e s)) = ms_dedup s"
  using assms by (auto simp: main_step_def listening_drain listening_activity Let_def split: prod.splits option.splits)

definition failed_policy :: "nat lua_policy" where
  "failed_policy = example_policy\<lparr>lua := 3, consecutive_errors := 1\<rparr>"

lemma script_fails: "process_signal example_machine h charging_signal (example_policy, 1) = ((failed_policy, 1), None)"
  by (simp add: failed_policy_def example_policy_def example_machine_def example_conv_def process_signal_def
      call_decide_def absorb_def fallback_decide_def FALLBACK_ERROR_THRESHOLD_def next_seq_id_def Let_def word_le_nat_alt)

lemma script_suspends:
  "snd (process_signal example_machine example_host charging_signal (failed_policy, 1)) = Some \<lparr> seq_id = 1, commands = [Suspend] \<rparr>"
  by (simp add: failed_policy_def example_policy_def example_machine_def example_conv_def example_host_def seen_through_def
      process_signal_def call_decide_def absorb_def parse_actions_def parse_single_action_def next_seq_id_def Let_def)

lemma answered_directives: "map (\<lambda>x. commands (fst x)) (pr_directives answered) = [[Suspend]]"
proof -
  define e1 where "e1 = iteration_env quiet_env twice_injected"
  define s1 where "s1 = fst (main_step example_machine example_encoder e1 example_state)"
  define p1 where "p1 = main_thread example_machine example_encoder quiet_env twice_injected"
  define e2 where "e2 = iteration_env quiet_env p1"
  have e1: "\<not> sig_shutdown e1" "\<not> sig_hup e1" "env_recv e1 = Got charging_signal"
    by (simp_all add: e1_def iteration_env_def twice_injected_def injecting_def process_start_def spawn_monitors_def
        thread_send_def recv_timeout_def)
  have s: "ms_transport example_state = UnixHandle \<lparr> socket_path = ''/s'', unix_state = Listening \<rparr>"
    "process_signal example_machine h charging_signal (ms_policy example_state) = ((failed_policy, 1), None)" for h
    by (simp_all add: example_state_def script_fails)
  note one = listening_step_directive[OF s(1) _ e1 s(2), of example_encoder]
  have s1: "ms_transport s1 = UnixHandle \<lparr> socket_path = ''/s'', unix_state = Listening \<rparr>"
    "ms_policy s1 = (failed_policy, 1)" "ms_dedup s1 = dedup_new"
    using listening_step[OF s(1), of example_machine example_encoder e1] one
    by (simp_all add: s1_def) (simp add: example_state_def)
  have p1: "pr_main p1 = s1" "pr_queue p1 = [charging_signal]" "pr_phase p1 = InLoop" "\<not> SHUTDOWN p1"
    "\<not> SIGHUP_RELOAD p1" "pr_directives p1 = []"
    using one(1)
    by (simp_all add: p1_def s1_def e1_def twice_injected_def injecting_def process_start_def spawn_monitors_def
        thread_send_def main_thread_def main_iteration_def after_step_def recv_timeout_def Let_def logged_at_def)
  obtain p3 where p3: "process_signal example_machine example_host charging_signal (failed_policy, 1) =
      (p3, Some \<lparr> seq_id = 1, commands = [Suspend] \<rparr>)"
    using script_suspends by (metis prod.collapse)
  have "\<not> sig_shutdown e2" "\<not> sig_hup e2" "env_recv e2 = Got charging_signal" and h: "env_at_signal e2 = example_host"
    by (simp_all add: e2_def iteration_env_def p1 recv_timeout_def quiet_env_def example_env_def)
  from listening_step_directive(1)[OF s1(1) _ this(1-3), unfolded s1(2) h, OF _ p3, of example_encoder]
  have "snd (snd (main_step example_machine example_encoder e2 (pr_main p1))) = Some \<lparr> seq_id = 1, commands = [Suspend] \<rparr>"
    by (simp add: p1 s1(3) dedup_new_def dedup_with_cooldown_def dedup_process_def Let_def)
  then have "pr_directives (main_thread example_machine example_encoder quiet_env p1) =
      [(\<lparr> seq_id = 1, commands = [Suspend] \<rparr>, env_elapsed_secs quiet_env)]"
    by (simp add: main_thread_def p1 main_iteration_def Let_def e2_def logged_at_def)
  then show ?thesis by (simp add: answered_def p1_def)
qed

theorem process_refines_controller_witness:
  "control_run (process_signal example_machine) update_engine_state (hot_reload example_machine)
     ((example_policy, 1), dedup_new) (pr_inputs answered) =
     ((ms_policy (pr_main answered), ms_dedup (pr_main answered)), pr_directives answered) \<and>
   signals_in (pr_inputs answered) = [charging_signal, charging_signal] \<and>
   map (\<lambda>x. commands (fst x)) (pr_directives answered) = [[Suspend]]"
  using process_refines_controller[OF answered_reached[unfolded injecting_def]]
  by (simp add: answered_received answered_directives) (simp add: example_state_def)

theorem process_directives_sound_witness:
  "map (\<lambda>x. commands (fst x)) (pr_directives answered) = [[Suspend]] \<and>
   list_all (\<lambda>x. directive_ok (fst x)) (pr_directives answered) \<and>
   length (pr_directives answered) \<le> length (pr_received answered)"
  using process_directives_sound[OF example_state_inv _ answered_reached[unfolded injecting_def], of "Fin 60"]
  by (simp add: answered_directives example_state_def dedup_new_def)

text \<open>With every monitor disabled there is no sender, and the first iteration ends the loop.\<close>

lemma no_monitors_no_manager:
  "pr_phase (main_thread M to_json e (process_start [] s)) = Joining 0"
  by (simp add: main_thread_def process_start_def spawn_monitors_def main_iteration_def after_step_def
      recv_timeout_def senders_def stop_monitors_def Let_def)

end
