(* ===== verification/Emitters.thy ===== *)
theory Emitters
  imports Channel
begin

text \<open>
  The socket files behind the emitters, and what the emitters share (\<^verbatim>\<open>src/emitter.rs\<close>,
  \<^verbatim>\<open>src/emitter/unix_socket.rs\<close>, \<^verbatim>\<open>src/emitter/dbus.rs\<close>, the constructors and destructors of
  \<^verbatim>\<open>src/channel/\<close>).  A directory says which listener a path leads to.
\<close>

section \<open>Socket files\<close>

type_synonym listener = nat
type_synonym socket_dir = "string \<rightharpoonup> listener"

definition remove_file :: "string \<Rightarrow> socket_dir \<Rightarrow> socket_dir" where
  "remove_file path dir = dir(path := None)"

text \<open>Binding fails when the path exists or the system refuses.\<close>

definition bind_unix :: "bool \<Rightarrow> listener \<Rightarrow> string \<Rightarrow> socket_dir \<Rightarrow> socket_dir \<times> bool" where
  "bind_unix bind_ok l path dir =
     (if bind_ok \<and> dir path = None then (dir(path \<mapsto> l), True) else (dir, False))"

section \<open>The one-way emitter\<close>

record unix_socket_emitter =
  ue_socket_path :: string
  ue_client :: "u8 list option"
  ue_listener :: listener

definition unix_emitter_new ::
  "bool \<Rightarrow> bool \<Rightarrow> listener \<Rightarrow> string \<Rightarrow> socket_dir \<Rightarrow> socket_dir \<times> unix_socket_emitter res" where
  "unix_emitter_new bind_ok nonblocking_ok l path dir =
     (case bind_unix bind_ok l path (remove_file path dir) of
        (dir', False) \<Rightarrow> (dir', Inl ''bind'')
      | (dir', True) \<Rightarrow>
          (dir', if nonblocking_ok then Inr \<lparr> ue_socket_path = path, ue_client = None, ue_listener = l \<rparr>
                 else Inl ''set_nonblocking''))"

definition write_manager_message ::
  "(outgoing \<Rightarrow> u8 list res) \<Rightarrow> bool \<Rightarrow> manager_message \<Rightarrow> unix_socket_emitter \<Rightarrow> unix_socket_emitter \<times> unit res" where
  "write_manager_message to_json write_ok msg e =
     (case ue_client e of
        None \<Rightarrow> (e, Inl ''No client connected'')
      | Some w \<Rightarrow>
          (case to_json (OutMessage msg) of
             Inl err \<Rightarrow> (e, Inl err)
           | Inr json \<Rightarrow>
               if write_ok then (e\<lparr>ue_client := Some (w @ to_be_bytes (of_nat (length json)) @ json)\<rparr>, Inr ())
               else (e, Inl ''write error'')))"

fun emitter_emit_initial ::
  "(outgoing \<Rightarrow> u8 list res) \<Rightarrow> (accept_outcome \<times> bool \<times> system_signal) list \<Rightarrow> u8 list option \<Rightarrow> u8 list option \<times> unit res" where
  "emitter_emit_initial to_json [] cl = (cl, Inr ())"
| "emitter_emit_initial to_json ((acc, write_ok, signal) # rest) cl =
     (case emitter_emit to_json acc write_ok signal cl of
        (cl', Inl e) \<Rightarrow> (cl', Inl e)
      | (cl', Inr _) \<Rightarrow> emitter_emit_initial to_json rest cl')"

definition unix_emitter_drop :: "unix_socket_emitter \<Rightarrow> socket_dir \<Rightarrow> socket_dir" where
  "unix_emitter_drop e dir = remove_file (ue_socket_path e) dir"

section \<open>The channels\<close>

definition unix_channel_open ::
  "bool \<Rightarrow> listener \<Rightarrow> string \<Rightarrow> socket_dir \<Rightarrow> socket_dir \<times> unix_socket_channel res" where
  "unix_channel_open bind_ok l path dir =
     (case bind_unix bind_ok l path (remove_file path dir) of (dir', ok) \<Rightarrow> (dir', unix_channel_new ok path))"

definition unix_channel_drop :: "unix_socket_channel \<Rightarrow> socket_dir \<Rightarrow> socket_dir" where
  "unix_channel_drop ch dir = remove_file (socket_path ch) dir"

definition tcp_write_signal ::
  "(outgoing \<Rightarrow> u8 list res) \<Rightarrow> bool \<Rightarrow> system_signal \<Rightarrow> tcp_channel \<Rightarrow> tcp_channel \<times> unit res" where
  "tcp_write_signal to_json write_ok signal ch =
     (case tcp_state ch of
        Connected c \<Rightarrow>
          (case to_json (OutSignal signal) of
             Inl e \<Rightarrow> (ch, Inl e)
           | Inr json \<Rightarrow>
               if write_ok
               then (ch\<lparr>tcp_state := Connected (c\<lparr>written := written c @ to_be_bytes (of_nat (length json)) @ json\<rparr>)\<rparr>, Inr ())
               else (ch, Inl ''write error''))
      | _ \<Rightarrow> (ch, Inl ''No client connected''))"

section \<open>The bus, and emitters without a directive transport\<close>

definition dbus_emitter_new :: "(string \<Rightarrow> 'c \<Rightarrow> 'c \<times> unit res) \<Rightarrow> 'c res \<Rightarrow> 'c res" where
  "dbus_emitter_new request_name system =
     (case system of
        Inl e \<Rightarrow> Inl e
      | Inr c \<Rightarrow> (case request_name ''org.llm.Manager1'' c of (c', Inl e) \<Rightarrow> Inl e | (c', Inr _) \<Rightarrow> Inr c'))"

text \<open>The default of the trait reports success and sends nothing.\<close>

definition default_emit_directive :: "engine_directive \<Rightarrow> 'e \<Rightarrow> 'e \<times> unit res" where
  "default_emit_directive d e = (e, Inr ())"

section \<open>Facts\<close>

lemma bind_after_remove: "bind_unix True l path (remove_file path dir) = (dir(path \<mapsto> l), True)"
  by (simp add: bind_unix_def remove_file_def)

text \<open>The two writers of the emitter are the generic one.\<close>

lemma write_manager_message_generic:
  "write_manager_message to_json w msg e =
     (case emitter_write to_json w (OutMessage msg) (ue_client e) of (cl, r) \<Rightarrow> (e\<lparr>ue_client := cl\<rparr>, r))"
  by (cases e) (simp add: write_manager_message_def emitter_write_def frame_def split: option.split sum.split)

lemma tcp_write_signal_generic:
  "tcp_write_signal to_json w s ch =
     (case write_message to_json w (OutSignal s) (tcp_state ch) of (st, r) \<Rightarrow> (ch\<lparr>tcp_state := st\<rparr>, r))"
  by (cases ch) (simp add: tcp_write_signal_def write_message_def frame_def split: connection_state.split sum.split)

text \<open>A path belongs to whoever bound it last, and the first to be dropped removes it: a channel that is
  dropped after another process has bound the same path leaves that process unreachable.\<close>

lemma late_drop_unlinks_successor:
  assumes "unix_channel_open True l1 path dir = (dir1, Inr ch1)" and "unix_channel_open True l2 path dir1 = (dir2, Inr ch2)"
  shows "dir2 path = Some l2" and "unix_channel_drop ch1 dir2 path = None"
  using assms
  by (auto simp: unix_channel_open_def bind_unix_def unix_channel_new_def unix_channel_drop_def remove_file_def)

end
