(* ===== verification/Sim_Expr.thy ===== *)
theory Sim_Expr
  imports Rust_Float
begin

text \<open>
  Expressions of the simulator (\<^verbatim>\<open>src/sim/expr.rs\<close>).  The expression language itself is a library:
  its parser, its evaluator and its contexts are the fields of a record that every definition takes
  as a parameter.  Modelled are the functions the simulator registers, the throughput formula
  behind them, and the contexts it prepares.
\<close>

section \<open>Values, errors and the library\<close>

datatype evalue =
    VString string
  | VFloat f64
  | VInt i64
  | VBoolean bool
  | VTuple "evalue list"
  | VEmpty

datatype eval_error =
    ExpectedTuple evalue
  | ExpectedFloat evalue
  | ExpectedString evalue
  | WrongOperatorArgumentAmount nat nat
  | LibraryError string

type_synonym 'a eres = "eval_error + 'a"

record ('n, 'c) evalexpr =
  build_operator_tree :: "string \<Rightarrow> 'n eres"
  context_new :: 'c
  set_value :: "string \<Rightarrow> evalue \<Rightarrow> 'c \<Rightarrow> 'c eres"
  set_function :: "string \<Rightarrow> (evalue \<Rightarrow> evalue eres) \<Rightarrow> 'c \<Rightarrow> 'c eres"
  eval_float :: "'n \<Rightarrow> 'c \<Rightarrow> f64 eres"
  eval_boolean :: "'n \<Rightarrow> 'c \<Rightarrow> bool eres"
  eval_string :: "'n \<Rightarrow> 'c \<Rightarrow> string eres"

record 'n compiled_expr =
  source :: string
  tree :: 'n

text \<open>Compiling when a configuration is read.\<close>

definition deserialize_expr :: "('n, 'c) evalexpr \<Rightarrow> string \<Rightarrow> 'n compiled_expr eres" where
  "deserialize_expr E s =
     (case build_operator_tree E s of
        Inl e \<Rightarrow> Inl e
      | Inr t \<Rightarrow> Inr \<lparr> source = s, tree = t \<rparr>)"

section \<open>The registered functions\<close>

definition f64_of_i64 :: "i64 \<Rightarrow> f64" where "f64_of_i64 n = to_f64 (of_int (sint n))"

definition get_tuple :: "evalue \<Rightarrow> evalue list eres" where
  "get_tuple v = (case v of VTuple vs \<Rightarrow> Inr vs | _ \<Rightarrow> Inl (ExpectedTuple v))"

definition get_float :: "evalue \<Rightarrow> f64 eres" where
  "get_float v = (case v of VFloat f \<Rightarrow> Inr f | VInt i \<Rightarrow> Inr (f64_of_i64 i) | _ \<Rightarrow> Inl (ExpectedFloat v))"

definition get_string :: "evalue \<Rightarrow> string eres" where
  "get_string v = (case v of VString s \<Rightarrow> Inr s | _ \<Rightarrow> Inl (ExpectedString v))"

text \<open>A function of one argument is called with the argument or with a tuple of length one.\<close>

definition single_arg :: "evalue \<Rightarrow> evalue" where
  "single_arg v = (case v of VTuple [x] \<Rightarrow> x | _ \<Rightarrow> v)"

definition compute_merge_overhead :: "f64 \<Rightarrow> f64" where
  "compute_merge_overhead ratio =
     mul64 (mul64 (mul64 (Fin 4) ratio) (sub64 (Fin 1) ratio)) (to_f64 (15 / 100))"

definition bw_penalty :: "f64 \<Rightarrow> f64" where
  "bw_penalty bw_util = fp_min (div64 bw_util (Fin 200)) (to_f64 (4 / 10))"

definition compute_phase_throughput ::
  "string \<Rightarrow> string \<Rightarrow> f64 \<Rightarrow> f64 \<Rightarrow> f64 \<Rightarrow> f64 \<Rightarrow> f64 \<Rightarrow> f64 \<Rightarrow> f64 \<Rightarrow> f64 \<Rightarrow> f64" where
  "compute_phase_throughput phase device partition_ratio cpu_freq_ratio gpu_freq_ratio bw_util
       base_tps_decode_gpu base_tps_decode_cpu base_tps_decode_partition base_tps_prefill_gpu =
     (if phase = ''idle'' then Fin 0
      else if phase = ''prefill'' then mul64 base_tps_prefill_gpu gpu_freq_ratio
      else if phase = ''decode'' then
        (if device = ''cpu'' then mul64 base_tps_decode_cpu cpu_freq_ratio
         else if device = ''opencl'' \<or> device = ''cuda'' then
           mul64 (mul64 base_tps_decode_gpu gpu_freq_ratio) (sub64 (Fin 1) (bw_penalty bw_util))
         else if device = ''partition'' then
           (if fp_le partition_ratio (Fin 0) \<or> fp_ge partition_ratio (Fin 1)
            then mul64 base_tps_decode_gpu gpu_freq_ratio
            else
              (let base = mul64 (mul64 base_tps_decode_partition
                                   (sub64 (Fin 1) (compute_merge_overhead partition_ratio)))
                                (sub64 (Fin 1) (bw_penalty bw_util));
                   gpu_part = mul64 partition_ratio gpu_freq_ratio;
                   cpu_part = mul64 (sub64 (Fin 1) partition_ratio) cpu_freq_ratio
               in mul64 base (add64 gpu_part cpu_part)))
         else mul64 base_tps_decode_gpu gpu_freq_ratio)
      else Fin 0)"

text \<open>The float arguments are read in order; the first that is none is the error.\<close>

fun get_floats :: "evalue list \<Rightarrow> f64 list eres" where
  "get_floats [] = Inr []"
| "get_floats (v # vs) =
     (case get_float v of
        Inl e \<Rightarrow> Inl e
      | Inr f \<Rightarrow> (case get_floats vs of Inl e \<Rightarrow> Inl e | Inr fs \<Rightarrow> Inr (f # fs)))"

definition fn_phase_throughput :: "evalue \<Rightarrow> evalue eres" where
  "fn_phase_throughput arg =
     (case get_tuple arg of
        Inl e \<Rightarrow> Inl e
      | Inr args \<Rightarrow>
     (if length args \<noteq> 10 then Inl (WrongOperatorArgumentAmount 10 (length args))
      else case get_string (args ! 0) of
        Inl e \<Rightarrow> Inl e
      | Inr phase \<Rightarrow>
     (case get_string (args ! 1) of
        Inl e \<Rightarrow> Inl e
      | Inr device \<Rightarrow>
     (case get_floats (drop 2 args) of
        Inl e \<Rightarrow> Inl e
      | Inr fs \<Rightarrow>
          Inr (VFloat (compute_phase_throughput phase device (fs ! 0) (fs ! 1) (fs ! 2) (fs ! 3)
                         (fs ! 4) (fs ! 5) (fs ! 6) (fs ! 7)))))))"

definition fn_throttle_factor :: "evalue \<Rightarrow> evalue eres" where
  "fn_throttle_factor arg =
     (case get_float (single_arg arg) of
        Inl e \<Rightarrow> Inl e
      | Inr delay_ms \<Rightarrow> Inr (VFloat (div64 (Fin 1) (add64 (Fin 1) (div64 delay_ms (Fin 10))))))"

definition fn_skip_boost :: "evalue \<Rightarrow> evalue eres" where
  "fn_skip_boost arg =
     (case get_float (single_arg arg) of
        Inl e \<Rightarrow> Inl e
      | Inr ratio \<Rightarrow> Inr (VFloat (add64 (Fin 1) (mul64 ratio (to_f64 (8 / 10))))))"

definition fn_base_by_phase :: "evalue \<Rightarrow> evalue eres" where
  "fn_base_by_phase arg =
     (case get_string (single_arg arg) of
        Inl e \<Rightarrow> Inl e
      | Inr phase \<Rightarrow>
          Inr (VFloat (if phase = ''idle'' then Fin 0
                       else if phase = ''prefill'' then Fin 70
                       else if phase = ''decode'' then Fin 10
                       else Fin 0)))"

definition dtype_of_bits :: "u32 \<Rightarrow> string" where
  "dtype_of_bits bits =
     (if bits = 2 then ''q2'' else if bits = 4 then ''q4'' else if bits = 8 then ''q8''
      else if bits = 16 then ''f16'' else if bits = 32 then ''f32'' else ''f16'')"

definition fn_dtype_from_bits :: "evalue \<Rightarrow> evalue eres" where
  "fn_dtype_from_bits arg =
     (case get_float (single_arg arg) of
        Inl e \<Rightarrow> Inl e
      | Inr bits \<Rightarrow> Inr (VString (dtype_of_bits (u32_of_f64 bits))))"

definition fn_merge_overhead :: "evalue \<Rightarrow> evalue eres" where
  "fn_merge_overhead arg =
     (case get_float (single_arg arg) of
        Inl e \<Rightarrow> Inl e
      | Inr ratio \<Rightarrow> Inr (VFloat (compute_merge_overhead ratio)))"

definition builtins :: "(string \<times> (evalue \<Rightarrow> evalue eres)) list" where
  "builtins =
     [(''phase_throughput'', fn_phase_throughput),
      (''throttle_factor'', fn_throttle_factor),
      (''skip_boost'', fn_skip_boost),
      (''base_by_phase'', fn_base_by_phase),
      (''dtype_from_bits'', fn_dtype_from_bits),
      (''merge_overhead'', fn_merge_overhead)]"

section \<open>Contexts\<close>

text \<open>A context operation that fails panics; the panic is the left value.\<close>

fun fold_ctx :: "('a \<Rightarrow> 'c \<Rightarrow> 'c eres) \<Rightarrow> 'a list \<Rightarrow> 'c \<Rightarrow> 'c eres" where
  "fold_ctx f [] c = Inr c"
| "fold_ctx f (x # xs) c = (case f x c of Inl e \<Rightarrow> Inl e | Inr c' \<Rightarrow> fold_ctx f xs c')"

definition register_builtins :: "('n, 'c) evalexpr \<Rightarrow> 'c \<Rightarrow> 'c eres" where
  "register_builtins E c = fold_ctx (\<lambda>(name, f). set_function E name f) builtins c"

definition expr_context_new :: "('n, 'c) evalexpr \<Rightarrow> 'c eres" where
  "expr_context_new E = register_builtins E (context_new E)"

definition ctx_set_f64 :: "('n, 'c) evalexpr \<Rightarrow> string \<Rightarrow> f64 \<Rightarrow> 'c \<Rightarrow> 'c eres" where
  "ctx_set_f64 E key v c = set_value E key (VFloat v) c"

definition ctx_set_str :: "('n, 'c) evalexpr \<Rightarrow> string \<Rightarrow> string \<Rightarrow> 'c \<Rightarrow> 'c eres" where
  "ctx_set_str E key v c = set_value E key (VString v) c"

definition eval_f64 :: "('n, 'c) evalexpr \<Rightarrow> 'n \<Rightarrow> 'c \<Rightarrow> f64 eres" where
  "eval_f64 E node c = eval_float E node c"

definition eval_bool :: "('n, 'c) evalexpr \<Rightarrow> 'n \<Rightarrow> 'c \<Rightarrow> bool eres" where
  "eval_bool E node c = eval_boolean E node c"

definition set_f64s :: "('n, 'c) evalexpr \<Rightarrow> (string \<times> f64) list \<Rightarrow> 'c \<Rightarrow> 'c eres" where
  "set_f64s E = fold_ctx (\<lambda>(k, v). ctx_set_f64 E k v)"

definition set_strs :: "('n, 'c) evalexpr \<Rightarrow> (string \<times> string) list \<Rightarrow> 'c \<Rightarrow> 'c eres" where
  "set_strs E = fold_ctx (\<lambda>(k, v). ctx_set_str E k v)"

definition dry_run_numeric_fields :: "string list" where
  "dry_run_numeric_fields =
     [''kv_cache_bytes'', ''kv_cache_capacity_bytes'', ''kv_cache_tokens'', ''kv_cache_token_capacity'',
      ''device_memory_total_mb'', ''device_memory_used_mb'', ''memory_bw_utilization_pct'',
      ''engine_cpu_pct'', ''external_cpu_pct'', ''cpu_freq_mhz'', ''cpu_max_freq_mhz'', ''cpu_min_freq_mhz'',
      ''engine_gpu_pct'', ''external_gpu_pct'', ''gpu_freq_mhz'', ''gpu_max_freq_mhz'', ''gpu_min_freq_mhz'',
      ''thermal_c'', ''cpu_cluster_thermal_c'', ''gpu_cluster_thermal_c'', ''throttle_threshold_c'',
      ''base_tps_decode_gpu'', ''base_tps_decode_cpu'', ''base_tps_decode_partition'', ''base_tps_prefill_gpu'',
      ''partition_ratio'', ''throttle_delay_ms'', ''tbt_target_ms'', ''skip_ratio'',
      ''target_ratio'', ''delay_ms'', ''ratio'', ''bits'']"

definition dry_run_derived_fields :: "string list" where
  "dry_run_derived_fields = [''throughput_tps'', ''tbt_ms'', ''latency_degradation'', ''skip_ratio'']"

definition dry_run_strings :: "(string \<times> string) list" where
  "dry_run_strings =
     [(''phase'', ''idle''), (''active_device'', ''opencl''), (''kv_dtype'', ''f16''), (''device'', ''opencl'')]"

definition make_dry_run_context :: "('n, 'c) evalexpr \<Rightarrow> 'c eres" where
  "make_dry_run_context E =
     (case expr_context_new E of
        Inl e \<Rightarrow> Inl e
      | Inr c0 \<Rightarrow>
     (case set_f64s E (map (\<lambda>f. (f, Fin 0)) dry_run_numeric_fields) c0 of
        Inl e \<Rightarrow> Inl e
      | Inr c1 \<Rightarrow>
     (case set_f64s E (map (\<lambda>f. (f, Fin 0)) dry_run_derived_fields) c1 of
        Inl e \<Rightarrow> Inl e
      | Inr c2 \<Rightarrow> set_strs E dry_run_strings c2)))"

section \<open>Facts\<close>

lemma get_floats_length: "get_floats vs = Inr fs \<Longrightarrow> length fs = length vs"
  by (induction vs arbitrary: fs) (auto split: sum.splits)

lemma fold_ctx_append:
  "fold_ctx f (xs @ ys) c = (case fold_ctx f xs c of Inl e \<Rightarrow> Inl e | Inr c' \<Rightarrow> fold_ctx f ys c')"
  by (induction xs arbitrary: c) (auto split: sum.splits)

end
