(* ===== verification/Sim_Config.thy ===== *)
theory Sim_Config
  imports Sim_Expr "HOL-Library.AList"
begin

text \<open>
  Scenarios of the simulator (\<^verbatim>\<open>src/sim/config.rs\<close>): sizes with units, the data of a scenario, the
  inheritance of scenario files with its deep merge and its detection of cycles, and validation.
  The YAML library is a parameter: a value is a mapping or something the merge does not look into.
  Maps are the lists of their entries in the order an iteration yields them.
\<close>

section \<open>Sizes\<close>

definition split_num_unit :: "string \<Rightarrow> string \<times> string" where
  "split_num_unit s = (takeWhile (\<lambda>c. \<not> is_alpha c) s, dropWhile (\<lambda>c. \<not> is_alpha c) s)"

definition byte_unit :: "string \<Rightarrow> u64 option" where
  "byte_unit u =
     (if u = ''B'' \<or> u = '''' then Some 1
      else if u = ''KB'' \<or> u = ''KIB'' then Some 1024
      else if u = ''MB'' \<or> u = ''MIB'' then Some (1024 * 1024)
      else if u = ''GB'' \<or> u = ''GIB'' then Some (1024 * 1024 * 1024)
      else None)"

definition parse_byte_string :: "string \<Rightarrow> u64 res" where
  "parse_byte_string s0 =
     (let s = trim s0 in
      case split_num_unit s of (num_part, unit_part) \<Rightarrow>
      case parse_f64 (trim num_part) of
        None \<Rightarrow> Inl (''cannot parse number in '' @ s)
      | Some n \<Rightarrow>
          (case byte_unit (map to_upper (trim unit_part)) of
             None \<Rightarrow> Inl (''unsupported byte unit in '' @ s)
           | Some mul \<Rightarrow> Inr (u64_of_f64 (mul64 n (f64_of_u64 mul)))))"

definition parse_megabyte_string :: "string \<Rightarrow> u32 res" where
  "parse_megabyte_string s0 =
     (let s = trim s0 in
      case split_num_unit s of (num_part, unit_part) \<Rightarrow>
      case parse_f64 (trim num_part) of
        None \<Rightarrow> Inl (''cannot parse number in '' @ s)
      | Some n \<Rightarrow>
          (if map to_upper (trim unit_part) \<in> {''MB'', ''MIB'', ''''}
           then Inr (u32_of_f64 n)
           else Inl (''Megabytes only supports MB/MiB, got another unit in '' @ s)))"

datatype string_or_u64 = SuStr string | SuInt u64

definition deserialize_bytes :: "string_or_u64 \<Rightarrow> u64 res" where
  "deserialize_bytes v = (case v of SuInt n \<Rightarrow> Inr n | SuStr s \<Rightarrow> parse_byte_string s)"

definition deserialize_megabytes :: "string_or_u64 \<Rightarrow> u32 res" where
  "deserialize_megabytes v = (case v of SuInt n \<Rightarrow> Inr (ucast n) | SuStr s \<Rightarrow> parse_megabyte_string s)"

section \<open>The data of a scenario\<close>

datatype 'n expr_or_value = Literal f64 | Expr "'n compiled_expr" | StringLiteral string

datatype raw_scalar = RawFloat f64 | RawInt i64 | RawBool bool | RawStr string

definition deserialize_expr_or_value :: "('n, 'c) evalexpr \<Rightarrow> raw_scalar \<Rightarrow> 'n expr_or_value" where
  "deserialize_expr_or_value E r =
     (case r of
        RawFloat f \<Rightarrow> Literal f
      | RawInt i \<Rightarrow> Literal (f64_of_i64 i)
      | RawBool b \<Rightarrow> Literal (if b then Fin 1 else Fin 0)
      | RawStr s \<Rightarrow>
          (case build_operator_tree E s of
             Inr t \<Rightarrow> Expr \<lparr> source = s, tree = t \<rparr>
           | Inl _ \<Rightarrow> StringLiteral s))"

datatype 'n effect =
    EffSet "'n expr_or_value" f64
  | EffScale "'n expr_or_value" f64
  | EffAdd "'n expr_or_value" f64
  | EffSetTau f64

record 'n action_spec =
  as_when :: "'n compiled_expr option"
  as_effects :: "(string \<times> 'n effect) list"

datatype composition_op = Multiply | CAdd | AddDelta | CMax | CMin

record composition =
  comp_default :: composition_op
  per_dimension :: "(string \<times> composition_op) list"

record 'n interaction_term =
  it_actions :: "string list"
  it_effects :: "(string \<times> 'n effect) list"

record cluster_thermal_dynamics =
  baseline :: f64
  ct_tau_s :: f64
  heating :: "(string \<times> f64) list"

record thermal_coupling =
  cpu_to_gpu :: f64
  gpu_to_cpu :: f64

record 'n kv_cache_growth =
  growth_per_token :: "(string \<times> u64) list"
  applies_when :: "'n compiled_expr"

record 'n derived_expr =
  de_expr :: "'n compiled_expr"
  de_tau_s :: f64

record 'n passive_dynamics_config =
  pd_cpu_cluster :: cluster_thermal_dynamics
  pd_gpu_cluster :: cluster_thermal_dynamics
  pd_coupling :: thermal_coupling
  pd_thermal_c :: "'n derived_expr"
  pd_memory_bw :: "'n derived_expr"
  pd_kv_cache :: "'n kv_cache_growth"

record dvfs_cluster =
  soft_threshold_c :: f64
  hard_threshold_c :: f64
  k_thermal :: f64
  dv_tau_s :: f64

record dvfs_config =
  dvfs_cpu :: dvfs_cluster
  dvfs_gpu :: dvfs_cluster

record external_injection =
  t_start :: f64
  inj_duration :: f64
  inj_var :: string
  inj_op :: string
  inj_delta :: "f64 option"
  inj_delta_mb :: "f64 option"
  inj_tau_s :: f64

record noise_spec =
  ns_sigma :: "f64 option"
  ns_sigma_mb :: "f64 option"
  ns_sigma_mc :: "f64 option"
  ns_seed_key :: string

record heartbeat_observation =
  interval_s :: f64
  hb_noise :: "(string \<times> noise_spec) list"

record signal_source_config =
  ssc_source :: string
  ssc_poll_interval_s :: f64
  ssc_noise :: "(string \<times> noise_spec) list"

record signals_observation =
  obs_memory :: signal_source_config
  obs_compute :: signal_source_config
  obs_thermal :: signal_source_config
  obs_energy :: signal_source_config

record observation_config =
  obs_heartbeat :: heartbeat_observation
  obs_signals :: signals_observation

record initial_state =
  in_kv_cache_bytes :: u64
  in_kv_cache_capacity_bytes :: u64
  in_kv_cache_tokens :: u32
  in_kv_cache_token_capacity :: u32
  in_kv_dtype :: string
  in_device_memory_total_mb :: u32
  in_device_memory_used_mb :: u32
  in_memory_bw_utilization_pct :: f64
  in_engine_cpu_pct :: f64
  in_external_cpu_pct :: f64
  in_cpu_freq_mhz :: u32
  in_cpu_max_freq_mhz :: u32
  in_cpu_min_freq_mhz :: u32
  in_engine_gpu_pct :: f64
  in_external_gpu_pct :: f64
  in_gpu_freq_mhz :: u32
  in_gpu_max_freq_mhz :: u32
  in_gpu_min_freq_mhz :: u32
  in_thermal_c :: f64
  in_cpu_cluster_thermal_c :: f64
  in_gpu_cluster_thermal_c :: f64
  in_throttle_threshold_c :: f64
  in_phase :: string
  in_base_tps_decode_gpu :: f64
  in_base_tps_decode_cpu :: f64
  in_base_tps_decode_partition :: f64
  in_base_tps_prefill_gpu :: f64
  in_active_device :: string
  in_active_actions :: "string list"
  in_partition_ratio :: f64
  in_throttle_delay_ms :: f64
  in_tbt_target_ms :: f64

record 'n scenario_config =
  sc_extends :: "string option"
  sc_initial_state :: initial_state
  sc_actions :: "(string \<times> 'n action_spec) list"
  sc_composition :: composition
  sc_interactions :: "'n interaction_term list"
  sc_passive_dynamics :: "'n passive_dynamics_config"
  sc_dvfs :: dvfs_config
  sc_derived :: "(string \<times> 'n derived_expr) list"
  sc_external_injections :: "external_injection list"
  sc_observation :: observation_config
  sc_rng_seed :: "u64 option"

section \<open>Validation\<close>

text \<open>The checks on the initial state; an error is its code.\<close>

definition validate_kv_cache_capacity :: "initial_state \<Rightarrow> string list" where
  "validate_kv_cache_capacity st =
     (if in_kv_cache_capacity_bytes st < in_kv_cache_bytes st then [''kv_cache_bytes_exceeds_capacity''] else [])"

definition validate_device_memory :: "initial_state \<Rightarrow> string list" where
  "validate_device_memory st =
     (if in_device_memory_total_mb st < in_device_memory_used_mb st then [''memory_used_exceeds_total''] else [])"

definition validate_kv_token_capacity :: "initial_state \<Rightarrow> string list" where
  "validate_kv_token_capacity st =
     (if in_kv_cache_token_capacity st < in_kv_cache_tokens st then [''kv_tokens_exceeds_capacity''] else [])"

definition validate_scenario :: "'n scenario_config \<Rightarrow> string list" where
  "validate_scenario cfg =
     (let st = sc_initial_state cfg in
      validate_kv_cache_capacity st @ validate_device_memory st @ validate_kv_token_capacity st)"

text \<open>The dry run of an expression: an error when it gives no float, no boolean and no string.\<close>

definition expr_evaluates :: "('n, 'c) evalexpr \<Rightarrow> 'c \<Rightarrow> 'n \<Rightarrow> bool" where
  "expr_evaluates E ctx t = (\<not> isl (eval_float E t ctx) \<or> \<not> isl (eval_boolean E t ctx) \<or> \<not> isl (eval_string E t ctx))"

definition check_expr_node ::
  "('n, 'c) evalexpr \<Rightarrow> 'c \<Rightarrow> 'n compiled_expr \<Rightarrow> string \<Rightarrow> string list" where
  "check_expr_node E ctx e location =
     (if expr_evaluates E ctx (tree e) then [] else [location @ '': expression dry-run failed: '' @ source e])"

definition check_expr_or_value ::
  "('n, 'c) evalexpr \<Rightarrow> 'c \<Rightarrow> 'n expr_or_value \<Rightarrow> string \<Rightarrow> string list" where
  "check_expr_or_value E ctx v location =
     (case v of Expr e \<Rightarrow> check_expr_node E ctx e location | _ \<Rightarrow> [])"

definition check_effect_exprs ::
  "('n, 'c) evalexpr \<Rightarrow> 'c \<Rightarrow> 'n effect \<Rightarrow> string \<Rightarrow> string list" where
  "check_effect_exprs E ctx eff location =
     (case eff of
        EffSet v t \<Rightarrow> check_expr_or_value E ctx v location
      | EffAdd v t \<Rightarrow> check_expr_or_value E ctx v location
      | EffScale v t \<Rightarrow> check_expr_or_value E ctx v location
      | EffSetTau v \<Rightarrow> [])"

definition check_effects ::
  "('n, 'c) evalexpr \<Rightarrow> 'c \<Rightarrow> string \<Rightarrow> (string \<times> 'n effect) list \<Rightarrow> string list" where
  "check_effects E ctx location effs =
     concat (map (\<lambda>(dim, eff). check_effect_exprs E ctx eff (location @ ''.'' @ dim)) effs)"

definition check_action ::
  "('n, 'c) evalexpr \<Rightarrow> 'c \<Rightarrow> string \<times> 'n action_spec \<Rightarrow> string list" where
  "check_action E ctx a =
     (case a of (name, spec) \<Rightarrow>
        (case as_when spec of
           Some w \<Rightarrow> check_expr_node E ctx w (''actions.'' @ name @ ''.when'')
         | None \<Rightarrow> []) @
        check_effects E ctx (''actions.'' @ name) (as_effects spec))"

definition expression_errors :: "('n, 'c) evalexpr \<Rightarrow> 'c \<Rightarrow> 'n scenario_config \<Rightarrow> string list" where
  "expression_errors E ctx cfg =
     (let pd = sc_passive_dynamics cfg in
      check_expr_node E ctx (de_expr (pd_thermal_c pd)) ''passive_dynamics.thermal_c'' @
      check_expr_node E ctx (de_expr (pd_memory_bw pd)) ''passive_dynamics.memory_bw_utilization_pct'' @
      check_expr_node E ctx (applies_when (pd_kv_cache pd)) ''passive_dynamics.kv_cache_bytes.applies_when'' @
      concat (map (\<lambda>(name, d). check_expr_node E ctx (de_expr d) (''derived.'' @ name)) (sc_derived cfg)) @
      concat (map (check_action E ctx) (sc_actions cfg)) @
      concat (map (\<lambda>(i, term). check_effects E ctx (''interactions['' @ show_nat i @ '']'') (it_effects term))
                (enumerate 0 (sc_interactions cfg))))"

definition validate_expressions :: "('n, 'c) evalexpr \<Rightarrow> 'n scenario_config \<Rightarrow> string list eres" where
  "validate_expressions E cfg =
     (case make_dry_run_context E of Inl e \<Rightarrow> Inl e | Inr ctx \<Rightarrow> Inr (expression_errors E ctx cfg))"

section \<open>Facts\<close>

text \<open>The expressions of a scenario, each of which the dry run tries.\<close>

definition eov_exprs :: "'n expr_or_value \<Rightarrow> 'n list" where
  "eov_exprs v = (case v of Expr e \<Rightarrow> [tree e] | _ \<Rightarrow> [])"

definition effect_exprs :: "'n effect \<Rightarrow> 'n list" where
  "effect_exprs eff =
     (case eff of EffSet v _ \<Rightarrow> eov_exprs v | EffAdd v _ \<Rightarrow> eov_exprs v | EffScale v _ \<Rightarrow> eov_exprs v | EffSetTau _ \<Rightarrow> [])"

definition effects_exprs :: "(string \<times> 'n effect) list \<Rightarrow> 'n list" where
  "effects_exprs effs = concat (map (effect_exprs \<circ> snd) effs)"

definition action_exprs :: "'n action_spec \<Rightarrow> 'n list" where
  "action_exprs spec = map tree (case as_when spec of None \<Rightarrow> [] | Some w \<Rightarrow> [w]) @ effects_exprs (as_effects spec)"

definition scenario_exprs :: "'n scenario_config \<Rightarrow> 'n list" where
  "scenario_exprs cfg =
     (let pd = sc_passive_dynamics cfg in
      [tree (de_expr (pd_thermal_c pd)), tree (de_expr (pd_memory_bw pd)), tree (applies_when (pd_kv_cache pd))] @
      map (tree \<circ> de_expr \<circ> snd) (sc_derived cfg) @
      concat (map (action_exprs \<circ> snd) (sc_actions cfg)) @
      concat (map (effects_exprs \<circ> it_effects) (sc_interactions cfg)))"

lemma check_expr_node_Nil [simp]: "check_expr_node E ctx e loc = [] \<longleftrightarrow> expr_evaluates E ctx (tree e)"
  by (simp add: check_expr_node_def)

lemma check_effect_exprs_Nil [simp]:
  "check_effect_exprs E ctx eff loc = [] \<longleftrightarrow> list_all (expr_evaluates E ctx) (effect_exprs eff)"
  by (auto simp: check_effect_exprs_def check_expr_or_value_def effect_exprs_def eov_exprs_def
      split: effect.splits expr_or_value.splits)

lemma list_all_concat: "list_all P (concat xss) \<longleftrightarrow> list_all (list_all P) xss"
  by (induction xss) auto

lemma concat_map_Nil: "concat (map f xs) = [] \<longleftrightarrow> list_all (\<lambda>x. f x = []) xs"
  by (induction xs) auto

lemma check_effects_Nil [simp]:
  "check_effects E ctx loc effs = [] \<longleftrightarrow> list_all (expr_evaluates E ctx) (effects_exprs effs)"
  unfolding check_effects_def effects_exprs_def list_all_concat concat_map_Nil
  by (simp add: list.pred_map comp_def case_prod_unfold)

lemma check_action_Nil [simp]:
  "check_action E ctx a = [] \<longleftrightarrow> list_all (expr_evaluates E ctx) (action_exprs (snd a))"
  by (simp add: check_action_def action_exprs_def split: option.splits prod.splits)

lemma list_all_enumerate: "list_all (\<lambda>x. P (snd x)) (enumerate n xs) \<longleftrightarrow> list_all P xs"
  by (induction xs arbitrary: n) auto

lemma expression_errors_Nil:
  "expression_errors E ctx cfg = [] \<longleftrightarrow> list_all (expr_evaluates E ctx) (scenario_exprs cfg)"
  unfolding expression_errors_def scenario_exprs_def Let_def append_is_Nil_conv list_all_append
    list_all_concat concat_map_Nil
  by (simp add: list.pred_map comp_def case_prod_unfold
      list_all_enumerate[where P = "\<lambda>x. list_all (expr_evaluates E ctx) (effects_exprs (it_effects x))"])

end
