(* ===== verification/Sim_Load.thy ===== *)
theory Sim_Load
  imports Sim_Config
begin

text \<open>
  Loading of scenario files (\<^verbatim>\<open>load_yaml_with_extends\<close>, \<^verbatim>\<open>deep_merge\<close> and \<^verbatim>\<open>load_scenario\<close> of
  \<^verbatim>\<open>src/sim/config.rs\<close>).  A file may extend another; what it says itself overrides what it inherits,
  mapping by mapping.
\<close>

section \<open>The merge\<close>

datatype ('k, 'a) yaml = YLeaf 'a | YMapping "('k \<times> ('k, 'a) yaml) list"

fun deep_merge :: "('k, 'a) yaml \<Rightarrow> ('k, 'a) yaml \<Rightarrow> ('k, 'a) yaml"
  and merge_entries ::
    "('k \<times> ('k, 'a) yaml) list \<Rightarrow> ('k \<times> ('k, 'a) yaml) list \<Rightarrow> ('k \<times> ('k, 'a) yaml) list" where
  "deep_merge (YMapping b) (YMapping ov) = YMapping (merge_entries b ov)"
| "deep_merge b (YLeaf a) = YLeaf a"
| "deep_merge (YLeaf a) (YMapping ov) = YMapping ov"
| "merge_entries b [] = b"
| "merge_entries b ((k, v) # ov) =
     merge_entries (AList.update k (case map_of b k of Some x \<Rightarrow> deep_merge x v | None \<Rightarrow> v) b) ov"

text \<open>
  Reading a value along a path, without the merge: what is found there is nothing, a scalar
  \<^verbatim>\<open>Some (Some a)\<close>, or a mapping \<^verbatim>\<open>Some None\<close>.  A value is silent about a path when following the
  path in it ends in a mapping that lacks the next key.
\<close>

fun node_at :: "'k list \<Rightarrow> ('k, 'a) yaml \<Rightarrow> 'a option option" where
  "node_at [] (YLeaf a) = Some (Some a)"
| "node_at [] (YMapping m) = Some None"
| "node_at (k # ks) (YLeaf a) = None"
| "node_at (k # ks) (YMapping m) = (case map_of m k of None \<Rightarrow> None | Some v \<Rightarrow> node_at ks v)"

fun silent :: "'k list \<Rightarrow> ('k, 'a) yaml \<Rightarrow> bool" where
  "silent [] v = False"
| "silent (k # ks) (YLeaf a) = False"
| "silent (k # ks) (YMapping m) = (case map_of m k of None \<Rightarrow> True | Some v \<Rightarrow> silent ks v)"

lemma silent_node_at: "silent p v \<Longrightarrow> node_at p v = None"
  by (induction p v rule: silent.induct) (auto split: option.splits)

text \<open>Every mapping has each key once.\<close>

fun ywf :: "('k, 'a) yaml \<Rightarrow> bool" where
  "ywf (YLeaf a) = True"
| "ywf (YMapping m) = (distinct (map fst m) \<and> list_all (\<lambda>(k, v). ywf v) m)"

lemma map_of_merge_entries:
  assumes "distinct (map fst ov)"
  shows "map_of (merge_entries b ov) k =
    (case map_of ov k of
       None \<Rightarrow> map_of b k
     | Some v \<Rightarrow> Some (case map_of b k of Some x \<Rightarrow> deep_merge x v | None \<Rightarrow> v))"
  using assms
proof (induction ov arbitrary: b)
  case (Cons e ov)
  obtain k' v where e: "e = (k', v)" by (cases e)
  have "map_of ov k' = None" using Cons.prems e by (auto simp: map_of_eq_None_iff)
  then show ?case using Cons e by (auto simp: update_conv split: option.splits)
qed simp

lemma ywf_lookup: "ywf (YMapping m) \<Longrightarrow> map_of m k = Some v \<Longrightarrow> ywf v"
  by (auto simp: list_all_iff dest: map_of_SomeD)

lemma deep_merge_node_at:
  "ywf ov \<Longrightarrow> node_at p (deep_merge b ov) = (if silent p ov then node_at p b else node_at p ov)"
proof (induction p arbitrary: b ov)
  case Nil
  then show ?case by (cases b; cases ov) simp_all
next
  case (Cons k ks)
  show ?case
  proof (cases ov)
    case (YMapping m)
    show ?thesis
    proof (cases b)
      case (YLeaf a)
      then show ?thesis using YMapping silent_node_at[of "k # ks" ov] by auto
    next
      case (YMapping mb)
      have d: "distinct (map fst m)" using Cons.prems \<open>ov = YMapping m\<close> by simp
      show ?thesis
        using \<open>ov = YMapping m\<close> YMapping Cons.IH silent_node_at
          ywf_lookup[OF Cons.prems[unfolded \<open>ov = YMapping m\<close>]]
        by (auto simp: map_of_merge_entries[OF d] split: option.splits)
    qed
  qed simp
qed

section \<open>Paths\<close>

text \<open>
  Joining two paths and the directory of a path.  The directory is only taken of canonical paths,
  which are absolute and have neither empty components nor a slash at their end.
\<close>

definition path_join :: "string \<Rightarrow> string \<Rightarrow> string" where
  "path_join a b =
     (if b \<noteq> [] \<and> hd b = CHR ''/'' then b
      else if a = [] \<or> last a = CHR ''/'' then a @ b
      else a @ CHR ''/'' # b)"

definition path_parent :: "string \<Rightarrow> string option" where
  "path_parent p =
     (if p = [] \<or> p = ''/'' then None
      else let d = rev (dropWhile (\<lambda>c. c \<noteq> CHR ''/'') (rev p)) in
           Some (if d = ''/'' then d else butlast d))"

section \<open>Inheritance\<close>

datatype load_error =
    LoadIo string string
  | LoadParse string string
  | LoadValidation string "string list"
  | LoadExpression string "string list"
  | CircularExtends "string set"

text \<open>
  The world of the loader: resolving links, reading files, and the YAML library, with the key that
  the string \<^verbatim>\<open>extends\<close> is and the reading of a value as a path.
\<close>

record ('k, 'a) loader =
  canonicalize :: "string \<Rightarrow> string option"
  read_yaml_file :: "string \<Rightarrow> string res"
  yaml_from_str :: "string \<Rightarrow> ('k, 'a) yaml res"
  extends_key :: 'k
  path_from_value :: "('k, 'a) yaml \<Rightarrow> string res"

definition canonical_path :: "('k, 'a) loader \<Rightarrow> string \<Rightarrow> string \<Rightarrow> string" where
  "canonical_path L base_dir path =
     (case canonicalize L path of Some c \<Rightarrow> c | None \<Rightarrow> path_join base_dir path)"

definition take_extends :: "'k \<Rightarrow> ('k, 'a) yaml \<Rightarrow> ('k, 'a) yaml \<times> ('k, 'a) yaml option" where
  "take_extends key v =
     (case v of
        YMapping m \<Rightarrow> (YMapping (AList.delete key m), map_of m key)
      | YLeaf a \<Rightarrow> (v, None))"

text \<open>What reading one file gives: its own value and the path of the file it extends.\<close>

definition read_own ::
  "('k, 'a) loader \<Rightarrow> string \<Rightarrow> load_error + ('k, 'a) yaml \<times> string option" where
  "read_own L canonical =
     (case read_yaml_file L canonical of
        Inl e \<Rightarrow> Inl (LoadIo canonical e)
      | Inr content \<Rightarrow>
     (case yaml_from_str L content of
        Inl e \<Rightarrow> Inl (LoadParse canonical e)
      | Inr value \<Rightarrow>
     (case take_extends (extends_key L) value of
        (own, None) \<Rightarrow> Inr (own, None)
      | (own, Some ext) \<Rightarrow>
     (case path_from_value L ext of
        Inl e \<Rightarrow> Inl (LoadParse canonical e)
      | Inr parent_rel \<Rightarrow>
          Inr (own, Some (path_join (case path_parent canonical of Some d \<Rightarrow> d | None \<Rightarrow> ''.'')
                            parent_rel))))))"

text \<open>
  The set of files being loaded is only read on the way down: a caller drops it, or takes the file
  out again and returns.  The value is nothing when the recursion does not end.
\<close>

partial_function (option) load_yaml_with_extends ::
  "('k, 'a) loader \<Rightarrow> string \<Rightarrow> string \<Rightarrow> string set \<Rightarrow> (load_error + ('k, 'a) yaml) option" where
  "load_yaml_with_extends L path base_dir visited =
     (let canonical = canonical_path L base_dir path in
      if canonical \<in> visited then Some (Inl (CircularExtends visited))
      else case read_own L canonical of
        Inl e \<Rightarrow> Some (Inl e)
      | Inr (own, None) \<Rightarrow> Some (Inr own)
      | Inr (own, Some parent_path) \<Rightarrow>
          Option.bind (load_yaml_with_extends L parent_path base_dir (insert canonical visited))
            (\<lambda>r. case r of
               Inl e \<Rightarrow> Some (Inl e)
             | Inr parent_value \<Rightarrow> Some (Inr (deep_merge parent_value own))))"

text \<open>The canonical path of the file that a file extends, and of the n-th ancestor.\<close>

definition extended_file :: "('k, 'a) loader \<Rightarrow> string \<Rightarrow> string \<Rightarrow> string option" where
  "extended_file L base_dir canonical =
     (case read_own L canonical of
        Inr (own, Some parent_path) \<Rightarrow> Some (canonical_path L base_dir parent_path)
      | _ \<Rightarrow> None)"

fun ancestor :: "('k, 'a) loader \<Rightarrow> string \<Rightarrow> string \<Rightarrow> nat \<Rightarrow> string option" where
  "ancestor L base_dir c 0 = Some c"
| "ancestor L base_dir c (Suc n) =
     (case extended_file L base_dir c of None \<Rightarrow> None | Some c' \<Rightarrow> ancestor L base_dir c' n)"

fun is_circular :: "load_error + 'a \<Rightarrow> bool" where
  "is_circular (Inl (CircularExtends v)) = True"
| "is_circular r = False"

definition readable_files :: "('k, 'a) loader \<Rightarrow> string set" where
  "readable_files L = {p. \<exists>c. read_yaml_file L p = Inr c}"

lemma read_own_readable: "read_own L c = Inr r \<Longrightarrow> c \<in> readable_files L"
  by (auto simp: read_own_def readable_files_def split: sum.splits)

lemma read_own_not_circular: "read_own L c = Inl e \<Longrightarrow> \<not> is_circular (Inl e)"
  by (auto simp: read_own_def split: sum.splits prod.splits option.splits)

text \<open>A path from a file revisits one of the given files or one of its own.\<close>

definition revisits :: "('k, 'a) loader \<Rightarrow> string \<Rightarrow> string \<Rightarrow> string set \<Rightarrow> bool" where
  "revisits L base_dir c V =
     (\<exists>n q. ancestor L base_dir c n = Some q \<and> (q \<in> V \<or> (\<exists>m<n. ancestor L base_dir c m = Some q)))"

lemma revisits_stop: "extended_file L base_dir c = None \<Longrightarrow> revisits L base_dir c V \<longleftrightarrow> c \<in> V"
proof -
  assume none: "extended_file L base_dir c = None"
  have "ancestor L base_dir c n = Some q \<longleftrightarrow> n = 0 \<and> q = c" for n q
    using none by (cases n) auto
  then show ?thesis by (auto simp: revisits_def)
qed

lemma revisits_step:
  assumes "extended_file L base_dir c = Some c'" and "c \<notin> V"
  shows "revisits L base_dir c V \<longleftrightarrow> revisits L base_dir c' (insert c V)"
proof
  have S: "ancestor L base_dir c (Suc n) = ancestor L base_dir c' n" for n using assms(1) by simp
  {
    assume "revisits L base_dir c V"
    then obtain n q where nq: "ancestor L base_dir c n = Some q"
      "q \<in> V \<or> (\<exists>m<n. ancestor L base_dir c m = Some q)" by (auto simp: revisits_def)
    then obtain n' where n: "n = Suc n'" using assms(2) by (cases n) auto
    from nq(2) show "revisits L base_dir c' (insert c V)"
    proof
      assume "q \<in> V"
      then show ?thesis using nq(1) n S by (auto simp: revisits_def)
    next
      assume "\<exists>m<n. ancestor L base_dir c m = Some q"
      then obtain m where m: "m < n" "ancestor L base_dir c m = Some q" by blast
      show ?thesis
      proof (cases m)
        case 0
        then show ?thesis using m nq(1) n S by (auto simp: revisits_def)
      next
        case (Suc m')
        then have "m' < n'" "ancestor L base_dir c' m' = Some q" "ancestor L base_dir c' n' = Some q"
          using m nq(1) n S by simp_all
        then show ?thesis unfolding revisits_def by blast
      qed
    qed
  }
  assume "revisits L base_dir c' (insert c V)"
  then obtain n q where nq: "ancestor L base_dir c' n = Some q"
    "q \<in> insert c V \<or> (\<exists>m<n. ancestor L base_dir c' m = Some q)" unfolding revisits_def by blast
  have a: "ancestor L base_dir c (Suc n) = Some q" using nq(1) S by simp
  have "q \<in> V \<or> (\<exists>m<Suc n. ancestor L base_dir c m = Some q)"
    using nq(2)
  proof
    assume "q \<in> insert c V"
    then show ?thesis by (metis ancestor.simps(1) insertE zero_less_Suc)
  next
    assume "\<exists>m<n. ancestor L base_dir c' m = Some q"
    then show ?thesis using S by (metis Suc_less_eq)
  qed
  then show "revisits L base_dir c V" using a unfolding revisits_def by blast
qed

lemma load_returns:
  assumes "finite (readable_files L)"
  shows "\<exists>r. load_yaml_with_extends L path base_dir V = Some r \<and>
    (is_circular r \<longleftrightarrow> revisits L base_dir (canonical_path L base_dir path) V)"
proof (induction "card (readable_files L - V)" arbitrary: path V rule: less_induct)
  case less
  define c where "c = canonical_path L base_dir path"
  note eq = load_yaml_with_extends.simps[of L path base_dir V, folded c_def]
  show ?case
  proof (cases "c \<in> V")
    case True
    then have "revisits L base_dir c V"
      unfolding revisits_def by (metis ancestor.simps(1))
    then show ?thesis using True by (simp add: eq c_def [symmetric])
  next
    case False
    show ?thesis
    proof (cases "read_own L c")
      case (Inl e)
      then have "extended_file L base_dir c = None" by (simp add: extended_file_def)
      then show ?thesis using Inl False read_own_not_circular[OF Inl] revisits_stop[of L base_dir c V]
        by (simp add: eq c_def [symmetric])
    next
      case (Inr r)
      obtain own p where r: "r = (own, p)" by (cases r)
      show ?thesis
      proof (cases p)
        case None
        then have "extended_file L base_dir c = None" using Inr r by (simp add: extended_file_def)
        then show ?thesis using Inr r None False revisits_stop[of L base_dir c V]
          by (simp add: eq c_def [symmetric])
      next
        case (Some pp)
        then have ext: "extended_file L base_dir c = Some (canonical_path L base_dir pp)"
          using Inr r by (simp add: extended_file_def)
        have "readable_files L - insert c V \<subset> readable_files L - V"
          using read_own_readable[OF Inr] False by blast
        then have "card (readable_files L - insert c V) < card (readable_files L - V)"
          using assms by (intro psubset_card_mono) auto
        from less.hyps[OF this, of pp] obtain r' where
          r': "load_yaml_with_extends L pp base_dir (insert c V) = Some r'"
          "is_circular r' \<longleftrightarrow> revisits L base_dir (canonical_path L base_dir pp) (insert c V)" by blast
        then show ?thesis using Inr r Some False revisits_step[OF ext False]
          by (cases r') (simp_all add: eq c_def [symmetric])
      qed
    qed
  qed
qed

section \<open>Loading a scenario\<close>

text \<open>
  Left is the panic of a context operation.  The decoding of a merged value into a scenario is a
  parameter.
\<close>

definition load_scenario ::
  "('n, 'c) evalexpr \<Rightarrow> ('k, 'a) loader \<Rightarrow> (('k, 'a) yaml \<Rightarrow> 'n scenario_config res) \<Rightarrow> string \<Rightarrow>
   (eval_error + (load_error + 'n scenario_config)) option" where
  "load_scenario E L from_value path =
     (let base_dir = (case path_parent path of Some d \<Rightarrow> d | None \<Rightarrow> ''.'') in
      case load_yaml_with_extends L path base_dir {} of
        None \<Rightarrow> None
      | Some (Inl e) \<Rightarrow> Some (Inr (Inl e))
      | Some (Inr raw) \<Rightarrow>
          (case from_value raw of
             Inl e \<Rightarrow> Some (Inr (Inl (LoadParse path e)))
           | Inr cfg \<Rightarrow>
               if validate_scenario cfg \<noteq> [] then Some (Inr (Inl (LoadValidation path (validate_scenario cfg))))
               else (case validate_expressions E cfg of
                       Inl e \<Rightarrow> Some (Inl e)
                     | Inr [] \<Rightarrow> Some (Inr (Inr cfg))
                     | Inr errors \<Rightarrow> Some (Inr (Inl (LoadExpression path errors))))))"

section \<open>Properties\<close>

text \<open>C23: What a merge has at a path is what the overriding file has there (a scalar, a mapping, or
  nothing, because a scalar stands further up), and only where the overriding file is silent about the
  path, its mapping on the way lacking the next key, it is what the base has there.\<close>

theorem deep_merge_overrides:
  assumes "ywf ov"
  shows "node_at p (deep_merge b ov) = (if silent p ov then node_at p b else node_at p ov)"
  using assms by (rule deep_merge_node_at)

theorem deep_merge_overrides_witness:
  "let base = YMapping [(''a'', YMapping [(''x'', YLeaf (1::nat)), (''y'', YLeaf 2)])];
       merged = deep_merge base (YMapping [(''a'', YMapping [(''y'', YLeaf 3)])])
   in node_at [''a'', ''x''] merged = Some (Some 1) \<and> node_at [''a'', ''y''] merged = Some (Some 3)"
  unfolding Let_def
  by (subst (1 2) deep_merge_overrides) simp_all

text \<open>C22: Over any file system with finitely many readable files the loading of a file with its
  ancestors returns, and reports a circular inheritance exactly when following the extended files
  from it comes back to a file it has passed.\<close>

theorem load_detects_cycles:
  assumes "finite (readable_files L)"
  shows "\<exists>r. load_yaml_with_extends L path base_dir {} = Some r \<and>
    (is_circular r \<longleftrightarrow>
     (\<exists>m n q. m < n \<and> ancestor L base_dir (canonical_path L base_dir path) m = Some q \<and>
        ancestor L base_dir (canonical_path L base_dir path) n = Some q))"
  using load_returns[OF assms, of path base_dir "{}"] unfolding revisits_def by blast

definition example_loader :: "(string, string) loader" where
  "example_loader =
     \<lparr> canonicalize = Some,
       read_yaml_file = (\<lambda>p. if p = ''/a'' \<or> p = ''/b'' then Inr p else Inl ''not found''),
       yaml_from_str = (\<lambda>s. Inr (YMapping [(''extends'', YLeaf (if s = ''/a'' then ''b'' else ''a''))])),
       extends_key = ''extends'',
       path_from_value = (\<lambda>v. case v of YLeaf s \<Rightarrow> Inr s | YMapping m \<Rightarrow> Inl ''not a path'') \<rparr>"

lemmas example_loader_eval =
  example_loader_def extended_file_def read_own_def take_extends_def canonical_path_def
  path_parent_def path_join_def Let_def numeral_2_eq_2

theorem load_detects_cycles_witness:
  "\<exists>r. load_yaml_with_extends example_loader ''/a'' ''/'' {} = Some r \<and> is_circular r"
proof -
  have "readable_files example_loader = {''/a'', ''/b''}"
    by (auto simp: readable_files_def example_loader_def split: if_splits)
  then have "finite (readable_files example_loader)" by simp
  moreover have "ancestor example_loader ''/'' (canonical_path example_loader ''/'' ''/a'') 2 = Some ''/a''"
    by (simp add: example_loader_eval)
  moreover have "ancestor example_loader ''/'' (canonical_path example_loader ''/'' ''/a'') 0 = Some ''/a''"
    by (simp add: example_loader_eval)
  ultimately show ?thesis using load_detects_cycles[of example_loader "''/a''" "''/''"]
    by (metis zero_less_numeral)
qed

end
