(* ===== verification/Sim_State.thy ===== *)
theory Sim_State
  imports Sim_Load Signal "HOL-Library.Multiset"
begin

text \<open>
  The state of the simulated device and of the simulated engine (\<^verbatim>\<open>src/sim/state.rs\<close>).  Fields of the
  device are read and written by name through one table of the numeric fields, in the order of the
  sources; the locale \<^verbatim>\<open>named_fields\<close> states what access by name promises.
\<close>

section \<open>The device\<close>

record physical_state =
  ps_kv_cache_bytes :: f64
  ps_kv_cache_capacity_bytes :: f64
  ps_kv_cache_tokens :: f64
  ps_kv_cache_token_capacity :: f64
  ps_kv_dtype :: string
  ps_device_memory_total_mb :: f64
  ps_device_memory_used_mb :: f64
  ps_memory_bw_utilization_pct :: f64
  ps_engine_cpu_pct :: f64
  ps_external_cpu_pct :: f64
  ps_cpu_freq_mhz :: f64
  ps_cpu_max_freq_mhz :: f64
  ps_cpu_min_freq_mhz :: f64
  ps_engine_gpu_pct :: f64
  ps_external_gpu_pct :: f64
  ps_gpu_freq_mhz :: f64
  ps_gpu_max_freq_mhz :: f64
  ps_gpu_min_freq_mhz :: f64
  ps_thermal_c :: f64
  ps_cpu_cluster_thermal_c :: f64
  ps_gpu_cluster_thermal_c :: f64
  ps_throttle_threshold_c :: f64
  ps_base_tps_decode_gpu :: f64
  ps_base_tps_decode_cpu :: f64
  ps_base_tps_decode_partition :: f64
  ps_base_tps_prefill_gpu :: f64
  ps_throughput_tps :: f64
  ps_tbt_ms :: f64
  ps_latency_degradation :: f64

definition physical_from_config :: "initial_state \<Rightarrow> physical_state" where
  "physical_from_config init =
     \<lparr> ps_kv_cache_bytes = f64_of_u64 (in_kv_cache_bytes init),
       ps_kv_cache_capacity_bytes = f64_of_u64 (in_kv_cache_capacity_bytes init),
       ps_kv_cache_tokens = f64_of_u32 (in_kv_cache_tokens init),
       ps_kv_cache_token_capacity = f64_of_u32 (in_kv_cache_token_capacity init),
       ps_kv_dtype = in_kv_dtype init,
       ps_device_memory_total_mb = f64_of_u32 (in_device_memory_total_mb init),
       ps_device_memory_used_mb = f64_of_u32 (in_device_memory_used_mb init),
       ps_memory_bw_utilization_pct = in_memory_bw_utilization_pct init,
       ps_engine_cpu_pct = in_engine_cpu_pct init,
       ps_external_cpu_pct = in_external_cpu_pct init,
       ps_cpu_freq_mhz = f64_of_u32 (in_cpu_freq_mhz init),
       ps_cpu_max_freq_mhz = f64_of_u32 (in_cpu_max_freq_mhz init),
       ps_cpu_min_freq_mhz = f64_of_u32 (in_cpu_min_freq_mhz init),
       ps_engine_gpu_pct = in_engine_gpu_pct init,
       ps_external_gpu_pct = in_external_gpu_pct init,
       ps_gpu_freq_mhz = f64_of_u32 (in_gpu_freq_mhz init),
       ps_gpu_max_freq_mhz = f64_of_u32 (in_gpu_max_freq_mhz init),
       ps_gpu_min_freq_mhz = f64_of_u32 (in_gpu_min_freq_mhz init),
       ps_thermal_c = in_thermal_c init,
       ps_cpu_cluster_thermal_c = in_cpu_cluster_thermal_c init,
       ps_gpu_cluster_thermal_c = in_gpu_cluster_thermal_c init,
       ps_throttle_threshold_c = in_throttle_threshold_c init,
       ps_base_tps_decode_gpu = in_base_tps_decode_gpu init,
       ps_base_tps_decode_cpu = in_base_tps_decode_cpu init,
       ps_base_tps_decode_partition = in_base_tps_decode_partition init,
       ps_base_tps_prefill_gpu = in_base_tps_prefill_gpu init,
       ps_throughput_tps = Fin 0,
       ps_tbt_ms = Fin 0,
       ps_latency_degradation = Fin 0 \<rparr>"

definition phys_fields :: "(string \<times> (physical_state \<Rightarrow> f64) \<times> (f64 \<Rightarrow> physical_state \<Rightarrow> physical_state)) list" where
  "phys_fields =
     [(''kv_cache_bytes'', ps_kv_cache_bytes, \<lambda>v s. s\<lparr>ps_kv_cache_bytes := v\<rparr>),
      (''kv_cache_capacity_bytes'', ps_kv_cache_capacity_bytes, \<lambda>v s. s\<lparr>ps_kv_cache_capacity_bytes := v\<rparr>),
      (''kv_cache_tokens'', ps_kv_cache_tokens, \<lambda>v s. s\<lparr>ps_kv_cache_tokens := v\<rparr>),
      (''kv_cache_token_capacity'', ps_kv_cache_token_capacity, \<lambda>v s. s\<lparr>ps_kv_cache_token_capacity := v\<rparr>),
      (''device_memory_total_mb'', ps_device_memory_total_mb, \<lambda>v s. s\<lparr>ps_device_memory_total_mb := v\<rparr>),
      (''device_memory_used_mb'', ps_device_memory_used_mb, \<lambda>v s. s\<lparr>ps_device_memory_used_mb := v\<rparr>),
      (''memory_bw_utilization_pct'', ps_memory_bw_utilization_pct, \<lambda>v s. s\<lparr>ps_memory_bw_utilization_pct := v\<rparr>),
      (''engine_cpu_pct'', ps_engine_cpu_pct, \<lambda>v s. s\<lparr>ps_engine_cpu_pct := v\<rparr>),
      (''external_cpu_pct'', ps_external_cpu_pct, \<lambda>v s. s\<lparr>ps_external_cpu_pct := v\<rparr>),
      (''cpu_freq_mhz'', ps_cpu_freq_mhz, \<lambda>v s. s\<lparr>ps_cpu_freq_mhz := v\<rparr>),
      (''cpu_max_freq_mhz'', ps_cpu_max_freq_mhz, \<lambda>v s. s\<lparr>ps_cpu_max_freq_mhz := v\<rparr>),
      (''cpu_min_freq_mhz'', ps_cpu_min_freq_mhz, \<lambda>v s. s\<lparr>ps_cpu_min_freq_mhz := v\<rparr>),
      (''engine_gpu_pct'', ps_engine_gpu_pct, \<lambda>v s. s\<lparr>ps_engine_gpu_pct := v\<rparr>),
      (''external_gpu_pct'', ps_external_gpu_pct, \<lambda>v s. s\<lparr>ps_external_gpu_pct := v\<rparr>),
      (''gpu_freq_mhz'', ps_gpu_freq_mhz, \<lambda>v s. s\<lparr>ps_gpu_freq_mhz := v\<rparr>),
      (''gpu_max_freq_mhz'', ps_gpu_max_freq_mhz, \<lambda>v s. s\<lparr>ps_gpu_max_freq_mhz := v\<rparr>),
      (''gpu_min_freq_mhz'', ps_gpu_min_freq_mhz, \<lambda>v s. s\<lparr>ps_gpu_min_freq_mhz := v\<rparr>),
      (''thermal_c'', ps_thermal_c, \<lambda>v s. s\<lparr>ps_thermal_c := v\<rparr>),
      (''cpu_cluster_thermal_c'', ps_cpu_cluster_thermal_c, \<lambda>v s. s\<lparr>ps_cpu_cluster_thermal_c := v\<rparr>),
      (''gpu_cluster_thermal_c'', ps_gpu_cluster_thermal_c, \<lambda>v s. s\<lparr>ps_gpu_cluster_thermal_c := v\<rparr>),
      (''throttle_threshold_c'', ps_throttle_threshold_c, \<lambda>v s. s\<lparr>ps_throttle_threshold_c := v\<rparr>),
      (''base_tps_decode_gpu'', ps_base_tps_decode_gpu, \<lambda>v s. s\<lparr>ps_base_tps_decode_gpu := v\<rparr>),
      (''base_tps_decode_cpu'', ps_base_tps_decode_cpu, \<lambda>v s. s\<lparr>ps_base_tps_decode_cpu := v\<rparr>),
      (''base_tps_decode_partition'', ps_base_tps_decode_partition, \<lambda>v s. s\<lparr>ps_base_tps_decode_partition := v\<rparr>),
      (''base_tps_prefill_gpu'', ps_base_tps_prefill_gpu, \<lambda>v s. s\<lparr>ps_base_tps_prefill_gpu := v\<rparr>),
      (''throughput_tps'', ps_throughput_tps, \<lambda>v s. s\<lparr>ps_throughput_tps := v\<rparr>),
      (''tbt_ms'', ps_tbt_ms, \<lambda>v s. s\<lparr>ps_tbt_ms := v\<rparr>),
      (''latency_degradation'', ps_latency_degradation, \<lambda>v s. s\<lparr>ps_latency_degradation := v\<rparr>)]"

definition get_f64 :: "physical_state \<Rightarrow> string \<Rightarrow> f64 option" where
  "get_f64 s field = map_option (\<lambda>(get, put). get s) (map_of phys_fields field)"

definition set_f64 :: "string \<Rightarrow> f64 \<Rightarrow> physical_state \<Rightarrow> physical_state \<times> bool" where
  "set_f64 field v s =
     (case map_of phys_fields field of
        None \<Rightarrow> (s, False)
      | Some (get, put) \<Rightarrow> (put v s, True))"

definition physical_bind :: "('n, 'c) evalexpr \<Rightarrow> physical_state \<Rightarrow> 'c \<Rightarrow> 'c eres" where
  "physical_bind E s c =
     (case set_f64s E (map (\<lambda>(name, get, put). (name, get s)) phys_fields) c of
        Inl e \<Rightarrow> Inl e
      | Inr c1 \<Rightarrow> ctx_set_str E ''kv_dtype'' (ps_kv_dtype s) c1)"

section \<open>The engine\<close>

record engine_model =
  em_active_device :: string
  em_active_actions :: "string list"
  em_phase :: string
  em_partition_ratio :: f64
  em_throttle_delay_ms :: f64
  em_tbt_target_ms :: f64
  em_skip_ratio :: f64
  em_kv_quant_bits :: "u8 option"
  em_last_evict_ratio :: "f64 option"
  em_last_switch_device :: "string option"

definition engine_from_config :: "initial_state \<Rightarrow> engine_model" where
  "engine_from_config init =
     \<lparr> em_active_device = in_active_device init,
       em_active_actions = in_active_actions init,
       em_phase = in_phase init,
       em_partition_ratio = in_partition_ratio init,
       em_throttle_delay_ms = in_throttle_delay_ms init,
       em_tbt_target_ms = in_tbt_target_ms init,
       em_skip_ratio = Fin 0,
       em_kv_quant_bits = None,
       em_last_evict_ratio = None,
       em_last_switch_device = None \<rparr>"

fun apply_command :: "engine_command \<Rightarrow> engine_model \<Rightarrow> engine_model" where
  "apply_command (KvCompress b) e = e\<lparr>em_last_evict_ratio := Some (f64_of_f32 b)\<rparr>"
| "apply_command RestoreDefaults e =
     e\<lparr>em_active_actions := [], em_throttle_delay_ms := Fin 0, em_skip_ratio := Fin 0,
       em_partition_ratio := Fin 0, em_last_evict_ratio := None\<rparr>"
| "apply_command Suspend e = e"
| "apply_command Resume e = e"
| "apply_command (GpuYield n) e = e"
| "apply_command (GpuOffload b) e = e"

definition apply_directive :: "engine_directive \<Rightarrow> engine_model \<Rightarrow> engine_model" where
  "apply_directive d e = fold apply_command (commands d) e"

definition engine_bind :: "('n, 'c) evalexpr \<Rightarrow> engine_model \<Rightarrow> 'c \<Rightarrow> 'c eres" where
  "engine_bind E e c =
     (case set_strs E [(''active_device'', em_active_device e), (''phase'', em_phase e)] c of
        Inl x \<Rightarrow> Inl x
      | Inr c1 \<Rightarrow>
     (case set_f64s E
             [(''partition_ratio'', em_partition_ratio e), (''throttle_delay_ms'', em_throttle_delay_ms e),
              (''tbt_target_ms'', em_tbt_target_ms e), (''skip_ratio'', em_skip_ratio e),
              (''target_ratio'', (case em_last_evict_ratio e of Some r \<Rightarrow> r | None \<Rightarrow> Fin 0)),
              (''delay_ms'', em_throttle_delay_ms e), (''ratio'', em_partition_ratio e)] c1 of
        Inl x \<Rightarrow> Inl x
      | Inr c2 \<Rightarrow>
          ctx_set_str E ''device''
            (case em_last_switch_device e of Some d \<Rightarrow> d | None \<Rightarrow> em_active_device e) c2))"

definition add_action :: "string list \<Rightarrow> string \<Rightarrow> string list" where
  "add_action actions name = (if name \<in> set actions then actions else actions @ [name])"

definition bits_to_dtype :: "u8 \<Rightarrow> string" where
  "bits_to_dtype bits =
     (if bits = 2 then ''q2'' else if bits = 4 then ''q4'' else if bits = 8 then ''q8''
      else if bits = 16 then ''f16'' else if bits = 32 then ''f32'' else ''f16'')"

section \<open>Access by name\<close>

text \<open>
  What access by name promises: a written field is read back, the others keep their value, writes
  to different fields commute, a write to an unknown field is refused.  Changing each of several
  fields as a function of its own value then has a result that does not depend on the order.
\<close>

locale named_fields =
  fixes get :: "'s \<Rightarrow> 'f \<Rightarrow> 'v option"
    and put :: "'f \<Rightarrow> 'v \<Rightarrow> 's \<Rightarrow> 's \<times> bool"
  assumes put_known: "snd (put f v s) \<longleftrightarrow> get s f \<noteq> None"
    and put_unknown: "get s f = None \<Longrightarrow> fst (put f v s) = s"
    and get_put: "get s f \<noteq> None \<Longrightarrow> get (fst (put f v s)) f = Some v"
    and get_put_other: "f \<noteq> g \<Longrightarrow> get (fst (put f v s)) g = get s g"
    and put_commute: "f \<noteq> g \<Longrightarrow> fst (put f v (fst (put g w s))) = fst (put g w (fst (put f v s)))"
begin

definition modify :: "'f \<Rightarrow> ('v \<Rightarrow> 'v) \<Rightarrow> 's \<Rightarrow> 's" where
  "modify f h s = (case get s f of None \<Rightarrow> s | Some v \<Rightarrow> fst (put f (h v) s))"

lemma get_modify: "get (modify f h s) g = (if f = g then map_option h (get s g) else get s g)"
  by (auto simp: modify_def get_put get_put_other split: option.splits)

lemma modify_commute:
  assumes "f \<noteq> g"
  shows "modify f h (modify g k s) = modify g k (modify f h s)"
  using assms get_put_other[of f g] get_put_other[of g f] put_commute[of f g]
  by (auto simp: modify_def split: option.splits)

lemma fold_modify_order:
  assumes "distinct (map fst fs)" and "mset fs = mset fs'"
  shows "fold (\<lambda>(f, h). modify f h) fs s = fold (\<lambda>(f, h). modify f h) fs' s"
proof -
  have "fold (\<lambda>(f, h). modify f h) fs = fold (\<lambda>(f, h). modify f h) fs'"
  proof (rule fold_multiset_equiv[OF _ assms(2)])
    fix x y assume "x \<in> set fs" "y \<in> set fs"
    then have "x = y \<or> fst x \<noteq> fst y" using assms(1) by (auto simp: distinct_map inj_on_def)
    then show "(case x of (f, h) \<Rightarrow> modify f h) \<circ> (case y of (f, h) \<Rightarrow> modify f h) =
        (case y of (f, h) \<Rightarrow> modify f h) \<circ> (case x of (f, h) \<Rightarrow> modify f h)"
      by (auto simp: fun_eq_iff modify_commute split: prod.splits)
  qed
  then show ?thesis by simp
qed

lemma get_fold_modify:
  assumes "distinct (map fst fs)"
  shows "get (fold (\<lambda>(f, h). modify f h) fs s) g =
    (case map_of fs g of None \<Rightarrow> get s g | Some h \<Rightarrow> map_option h (get s g))"
  using assms
proof (induction fs arbitrary: s)
  case (Cons x fs)
  obtain f h where x: "x = (f, h)" by (cases x)
  show ?case
  proof (cases "f = g")
    case True
    then have "map_of fs g = None" using Cons.prems x by (auto simp: map_of_eq_None_iff)
    then show ?thesis using Cons True x by (simp add: get_modify)
  qed (use Cons x in \<open>simp add: get_modify split: option.split\<close>)
qed simp

end

lemma phys_get_put:
  "list_all (\<lambda>(n, g, p). list_all (\<lambda>(n', g', p'). \<forall>v s. g' (p v s) = (if n = n' then v else g' s)) phys_fields) phys_fields"
  by (simp add: phys_fields_def)

lemma phys_put_dtype: "list_all (\<lambda>(n, g, p). \<forall>v s. ps_kv_dtype (p v s) = ps_kv_dtype s) phys_fields"
  by (simp add: phys_fields_def)

lemma phys_ext:
  assumes "list_all (\<lambda>(n, g, p). g s = g t) phys_fields" and "ps_kv_dtype s = ps_kv_dtype t"
  shows "s = t"
  using assms by (intro physical_state.equality) (simp_all add: phys_fields_def)

lemma phys_fields_distinct: "distinct (map fst phys_fields)"
  by (simp add: phys_fields_def)

lemma map_of_phys_fields:
  assumes "map_of phys_fields f = Some (g, p)" and "map_of phys_fields f' = Some (g', p')"
  shows "g' (p v s) = (if f = f' then v else g' s)"
proof -
  have "list_all (\<lambda>(n', g', p'). \<forall>v s. g' (p v s) = (if f = n' then v else g' s)) phys_fields"
    using bspec[OF phys_get_put[unfolded list_all_iff] map_of_SomeD[OF assms(1)]] by (simp add: list_all_iff)
  from bspec[OF this[unfolded list_all_iff] map_of_SomeD[OF assms(2)]] show ?thesis by simp
qed

lemma get_f64_set_f64:
  "get_f64 (fst (set_f64 f v s)) g = (if f = g then map_option (\<lambda>_. v) (get_f64 s g) else get_f64 s g)"
  by (cases "map_of phys_fields f"; cases "map_of phys_fields g")
    (auto simp: get_f64_def set_f64_def map_of_phys_fields)

lemma set_f64_dtype [simp]: "ps_kv_dtype (fst (set_f64 f v s)) = ps_kv_dtype s"
  using phys_put_dtype by (auto simp: set_f64_def list_all_iff dest!: map_of_SomeD split: option.splits)

lemma phys_eqI:
  assumes "\<And>f. get_f64 s f = get_f64 t f" and "ps_kv_dtype s = ps_kv_dtype t"
  shows "s = t"
proof (rule phys_ext[OF _ assms(2)])
  show "list_all (\<lambda>(n, g, p). g s = g t) phys_fields"
  proof (unfold list_all_iff, clarify)
    fix n g p assume "(n, g, p) \<in> set phys_fields"
    then have "map_of phys_fields n = Some (g, p)" by (rule map_of_is_SomeI[OF phys_fields_distinct])
    then show "g s = g t" using assms(1)[of n] by (simp add: get_f64_def)
  qed
qed

interpretation device: named_fields get_f64 set_f64
proof
  fix f g :: string and v w :: f64 and s :: physical_state
  show "snd (set_f64 f v s) \<longleftrightarrow> get_f64 s f \<noteq> None"
    by (auto simp: set_f64_def get_f64_def split: option.splits)
  show "get_f64 s f = None \<Longrightarrow> fst (set_f64 f v s) = s"
    by (auto simp: set_f64_def get_f64_def split: option.splits)
  show "get_f64 s f \<noteq> None \<Longrightarrow> get_f64 (fst (set_f64 f v s)) f = Some v"
    by (auto simp: get_f64_set_f64)
  show "f \<noteq> g \<Longrightarrow> get_f64 (fst (set_f64 f v s)) g = get_f64 s g"
    by (simp add: get_f64_set_f64)
  show "f \<noteq> g \<Longrightarrow> fst (set_f64 f v (fst (set_f64 g w s))) = fst (set_f64 g w (fst (set_f64 f v s)))"
    by (rule phys_eqI) (auto simp: get_f64_set_f64)
qed

section \<open>Facts\<close>

lemma f64_of_u64_mono: "a \<le> b \<Longrightarrow> fp_le (f64_of_u64 a) (f64_of_u64 b)"
  unfolding f64_of_u64_def by (rule to_fmt_mono) (simp_all only: of_int_le_iff word_le_def zero_less_numeral)

lemma f64_of_u32_mono: "a \<le> b \<Longrightarrow> fp_le (f64_of_u32 a) (f64_of_u32 b)"
  unfolding f64_of_u32_def by (rule to_fmt_mono) (simp_all only: of_int_le_iff word_le_def zero_less_numeral)

text \<open>What a validated scenario gives the device: no store is over its capacity.\<close>

definition within_capacity :: "physical_state \<Rightarrow> bool" where
  "within_capacity s =
     (fp_le (ps_kv_cache_bytes s) (ps_kv_cache_capacity_bytes s) \<and>
      fp_le (ps_kv_cache_tokens s) (ps_kv_cache_token_capacity s) \<and>
      fp_le (ps_device_memory_used_mb s) (ps_device_memory_total_mb s))"

lemma apply_command_actions: "set (em_active_actions (apply_command c e)) \<subseteq> set (em_active_actions e)"
  by (cases c) simp_all

lemma apply_command_fixed:
  "em_active_device (apply_command c e) = em_active_device e \<and> em_phase (apply_command c e) = em_phase e \<and>
   em_tbt_target_ms (apply_command c e) = em_tbt_target_ms e \<and>
   em_last_switch_device (apply_command c e) = em_last_switch_device e"
  by (cases c) simp_all

lemma fold_apply_command:
  "set (em_active_actions (fold apply_command cs e)) \<subseteq> set (em_active_actions e) \<and>
   em_active_device (fold apply_command cs e) = em_active_device e \<and>
   em_phase (fold apply_command cs e) = em_phase e"
proof (induction cs arbitrary: e)
  case (Cons c cs)
  then show ?case using Cons[of "apply_command c e"] apply_command_actions[of c e] apply_command_fixed[of c e] by auto
qed simp

lemma apply_directives_actions:
  "set (em_active_actions (fold apply_directive ds e)) \<subseteq> set (em_active_actions e)"
proof (induction ds arbitrary: e)
  case (Cons d ds)
  have "set (em_active_actions (apply_directive d e)) \<subseteq> set (em_active_actions e)"
    using fold_apply_command by (simp add: apply_directive_def)
  then show ?case using Cons[of "apply_directive d e"] by auto
qed simp

lemma restore_clears: "em_active_actions (fold apply_command cs (apply_command RestoreDefaults e)) = []"
  using fold_apply_command[of cs "apply_command RestoreDefaults e"] by simp

lemma load_scenario_checked:
  assumes "load_scenario E L from_value path = Some (Inr (Inr cfg))"
  shows "validate_scenario cfg = [] \<and> validate_expressions E cfg = Inr []"
  using assms by (auto simp: load_scenario_def Let_def split: option.splits sum.splits if_splits list.splits)

lemma validated_within_capacity:
  "validate_scenario cfg = [] \<Longrightarrow> within_capacity (physical_from_config (sc_initial_state cfg))"
  by (auto simp: validate_scenario_def Let_def validate_kv_cache_capacity_def validate_device_memory_def
      validate_kv_token_capacity_def within_capacity_def physical_from_config_def not_less
      f64_of_u64_mono f64_of_u32_mono split: if_splits)

section \<open>Properties\<close>

text \<open>C36: A scenario that loads has passed its validation: the device it describes starts within the
  capacities of its caches and of its memory, and each of its expressions evaluates in the context
  of the dry run.\<close>

theorem loaded_scenario_valid:
  assumes "load_scenario E L from_value path = Some (Inr (Inr cfg))"
  shows "within_capacity (physical_from_config (sc_initial_state cfg)) \<and>
    (\<exists>ctx. make_dry_run_context E = Inr ctx \<and> list_all (expr_evaluates E ctx) (scenario_exprs cfg))"
  using load_scenario_checked[OF assms] validated_within_capacity[of cfg]
  by (auto simp: validate_expressions_def expression_errors_Nil split: sum.splits)

text \<open>A language whose expressions are the names of variables, and a small scenario.\<close>

definition example_lang :: "(string, string \<Rightarrow> evalue option) evalexpr" where
  "example_lang =
     \<lparr> build_operator_tree = Inr, context_new = Map.empty,
       set_value = (\<lambda>k v c. Inr (c(k := Some v))), set_function = (\<lambda>k f c. Inr c),
       eval_float = (\<lambda>t c. case c t of Some (VFloat v) \<Rightarrow> Inr v | _ \<Rightarrow> Inl (LibraryError ''not a float'')),
       eval_boolean = (\<lambda>t c. case c t of Some (VBoolean v) \<Rightarrow> Inr v | _ \<Rightarrow> Inl (LibraryError ''not a boolean'')),
       eval_string = (\<lambda>t c. case c t of Some (VString v) \<Rightarrow> Inr v | _ \<Rightarrow> Inl (LibraryError ''not a string'')) \<rparr>"

definition example_initial :: initial_state where
  "example_initial =
     \<lparr> in_kv_cache_bytes = 0, in_kv_cache_capacity_bytes = 1000, in_kv_cache_tokens = 0,
       in_kv_cache_token_capacity = 100, in_kv_dtype = ''f16'', in_device_memory_total_mb = 8,
       in_device_memory_used_mb = 4, in_memory_bw_utilization_pct = Fin 0, in_engine_cpu_pct = Fin 10,
       in_external_cpu_pct = Fin 0, in_cpu_freq_mhz = 1, in_cpu_max_freq_mhz = 4, in_cpu_min_freq_mhz = 1,
       in_engine_gpu_pct = Fin 10, in_external_gpu_pct = Fin 0, in_gpu_freq_mhz = 1,
       in_gpu_max_freq_mhz = 4, in_gpu_min_freq_mhz = 1, in_thermal_c = Fin 50,
       in_cpu_cluster_thermal_c = Fin 50, in_gpu_cluster_thermal_c = Fin 50,
       in_throttle_threshold_c = Fin 85, in_phase = ''decode'', in_base_tps_decode_gpu = Fin 16,
       in_base_tps_decode_cpu = Fin 4, in_base_tps_decode_partition = Fin 20,
       in_base_tps_prefill_gpu = Fin 100, in_active_device = ''opencl'', in_active_actions = [],
       in_partition_ratio = Fin 0, in_throttle_delay_ms = Fin 0, in_tbt_target_ms = Fin 100 \<rparr>"

definition example_expr :: "string \<Rightarrow> string compiled_expr" where
  "example_expr s = \<lparr> source = s, tree = s \<rparr>"

definition example_cluster :: cluster_thermal_dynamics where
  "example_cluster = \<lparr> baseline = Fin 30, ct_tau_s = Fin 0, heating = [] \<rparr>"

definition example_dvfs :: dvfs_cluster where
  "example_dvfs = \<lparr> soft_threshold_c = Fin 80, hard_threshold_c = Fin 96, k_thermal = Fin 1, dv_tau_s = Fin 0 \<rparr>"

definition example_source :: signal_source_config where
  "example_source = \<lparr> ssc_source = ''sim'', ssc_poll_interval_s = Fin 1, ssc_noise = [] \<rparr>"

definition example_scenario :: "string scenario_config" where
  "example_scenario =
     \<lparr> sc_extends = None, sc_initial_state = example_initial,
       sc_actions =
         [(''hot'', \<lparr> as_when = None, as_effects = [(''thermal_c'', EffSet (Literal (Fin 80)) (Fin 0))] \<rparr>),
          (''scale'', \<lparr> as_when = None, as_effects = [(''thermal_c'', EffScale (Literal (Fin 2)) (Fin 0))] \<rparr>)],
       sc_composition = \<lparr> comp_default = CMax, per_dimension = [] \<rparr>,
       sc_interactions = [],
       sc_passive_dynamics =
         \<lparr> pd_cpu_cluster = example_cluster, pd_gpu_cluster = example_cluster,
           pd_coupling = \<lparr> cpu_to_gpu = Fin 0, gpu_to_cpu = Fin 0 \<rparr>,
           pd_thermal_c = \<lparr> de_expr = example_expr ''thermal_c'', de_tau_s = Fin 0 \<rparr>,
           pd_memory_bw = \<lparr> de_expr = example_expr ''memory_bw_utilization_pct'', de_tau_s = Fin 0 \<rparr>,
           pd_kv_cache = \<lparr> growth_per_token = [(''f16'', 2)], applies_when = example_expr ''ratio'' \<rparr> \<rparr>,
       sc_dvfs = \<lparr> dvfs_cpu = example_dvfs, dvfs_gpu = example_dvfs \<rparr>,
       sc_derived =
         [(''throughput_tps'', \<lparr> de_expr = example_expr ''base_tps_decode_gpu'', de_tau_s = Fin 0 \<rparr>),
          (''tbt_ms'', \<lparr> de_expr = example_expr ''throughput_tps'', de_tau_s = Fin 0 \<rparr>)],
       sc_external_injections = [],
       sc_observation =
         \<lparr> obs_heartbeat = \<lparr> interval_s = Fin 1, hb_noise = [] \<rparr>,
           obs_signals = \<lparr> obs_memory = example_source, obs_compute = example_source,
             obs_thermal = example_source, obs_energy = example_source \<rparr> \<rparr>,
       sc_rng_seed = None \<rparr>"

definition plain_loader :: "(string, string) loader" where
  "plain_loader = example_loader\<lparr> yaml_from_str := (\<lambda>s. Inr (YMapping [])) \<rparr>"

lemmas example_defs =
  example_scenario_def example_initial_def example_expr_def example_cluster_def example_dvfs_def
  example_source_def

lemma example_loads:
  "load_scenario example_lang plain_loader (\<lambda>_. Inr example_scenario) ''/a'' = Some (Inr (Inr example_scenario))"
proof -
  have "load_yaml_with_extends plain_loader ''/a'' ''/'' {} = Some (Inr (YMapping []))"
    by (simp add: load_yaml_with_extends.simps plain_loader_def example_loader_eval)
  moreover have "validate_scenario example_scenario = []"
    by (simp add: validate_scenario_def validate_kv_cache_capacity_def validate_device_memory_def
        validate_kv_token_capacity_def example_defs)
  moreover have "validate_expressions example_lang example_scenario = Inr []"
    by (simp add: validate_expressions_def make_dry_run_context_def expr_context_new_def register_builtins_def
        builtins_def set_f64s_def set_strs_def ctx_set_f64_def ctx_set_str_def dry_run_numeric_fields_def
        dry_run_derived_fields_def dry_run_strings_def expression_errors_def check_expr_node_def
        expr_evaluates_def check_action_def check_effects_def check_effect_exprs_def check_expr_or_value_def
        example_lang_def example_defs Let_def)
  ultimately show ?thesis by (simp add: load_scenario_def path_parent_def)
qed

theorem loaded_scenario_valid_witness:
  "within_capacity (physical_from_config example_initial)"
  using loaded_scenario_valid[OF example_loads] by (simp add: example_scenario_def)

end
