(* ===== verification/Sim_Compose.thy ===== *)
theory Sim_Compose
  imports Sim_State
begin

text \<open>
  The effects of actions on the simulated device (\<^verbatim>\<open>src/sim/compose.rs\<close>, with \<^verbatim>\<open>lag_step\<close> and the errors of
  \<^verbatim>\<open>src/sim/physics.rs\<close>).  Hash maps are association lists in the order an iteration yields them; the
  main result is that this order does not matter: each field of the device ends up with what the
  effects on that field alone give.
\<close>

section \<open>Errors and the first-order lag\<close>

datatype sim_error =
    SimExpr string eval_error
  | UnknownField string
  | SimPanic string

text \<open>The functions of the platform's mathematical library, whose precision is not specified.\<close>

record math_lib =
  m_exp :: "f64 \<Rightarrow> f64"
  m_powf :: "f64 \<Rightarrow> f64 \<Rightarrow> f64"
  m_ln :: "f64 \<Rightarrow> f64"
  m_sqrt :: "f64 \<Rightarrow> f64"
  m_cos :: "f64 \<Rightarrow> f64"

definition lag_step :: "math_lib \<Rightarrow> f64 \<Rightarrow> f64 \<Rightarrow> f64 \<Rightarrow> f64 \<Rightarrow> f64" where
  "lag_step M cur target tau_s dt_s =
     (if fp_le tau_s (Fin 0) then target
      else add64 cur (mul64 (sub64 target cur) (sub64 (Fin 1) (m_exp M (div64 (fp_neg dt_s) tau_s)))))"

section \<open>Collecting the effects\<close>

record collected =
  dim_effects :: "(string \<times> composition_op \<times> f64 list) list"
  dim_tau :: "(string \<times> f64) list"
  string_sets :: "(string \<times> string) list"

definition collect_effect :: "string \<Rightarrow> composition_op \<Rightarrow> f64 \<Rightarrow> collected \<Rightarrow> collected" where
  "collect_effect dm op v c =
     (let (op', vs) = (case map_of (dim_effects c) dm of Some e \<Rightarrow> e | None \<Rightarrow> (op, []))
      in c\<lparr>dim_effects := AList.update dm (op', vs @ [v]) (dim_effects c)\<rparr>)"

definition tau_insert :: "string \<Rightarrow> f64 \<Rightarrow> collected \<Rightarrow> collected" where
  "tau_insert dm tau c = c\<lparr>dim_tau := AList.update dm tau (dim_tau c)\<rparr>"

definition tau_or_insert :: "string \<Rightarrow> f64 \<Rightarrow> collected \<Rightarrow> collected" where
  "tau_or_insert dm tau c = (case map_of (dim_tau c) dm of None \<Rightarrow> tau_insert dm tau c | Some _ \<Rightarrow> c)"

definition string_insert :: "string \<Rightarrow> string \<Rightarrow> collected \<Rightarrow> collected" where
  "string_insert dm s c = c\<lparr>string_sets := AList.update dm s (string_sets c)\<rparr>"

definition eval_expr_or_value :: "('n, 'c) evalexpr \<Rightarrow> 'c \<Rightarrow> 'n expr_or_value \<Rightarrow> f64 option" where
  "eval_expr_or_value E ctx eov =
     (case eov of
        Literal v \<Rightarrow> Some v
      | Expr e \<Rightarrow> (case eval_float E (tree e) ctx of Inr v \<Rightarrow> Some v | Inl _ \<Rightarrow> None)
      | StringLiteral _ \<Rightarrow> None)"

definition composition_op_of :: "composition \<Rightarrow> string \<Rightarrow> composition_op" where
  "composition_op_of cps dm = (case map_of (per_dimension cps) dm of Some op \<Rightarrow> op | None \<Rightarrow> comp_default cps)"

definition add_op :: "composition_op \<Rightarrow> composition_op" where
  "add_op op = (case op of CAdd \<Rightarrow> CAdd | AddDelta \<Rightarrow> AddDelta | _ \<Rightarrow> CAdd)"

definition set_op :: "composition_op \<Rightarrow> composition_op" where
  "set_op op = (case op of CMax \<Rightarrow> CMax | CMin \<Rightarrow> CMin | _ \<Rightarrow> CMax)"

definition set_number :: "string \<Rightarrow> composition_op \<Rightarrow> f64 \<Rightarrow> f64 \<Rightarrow> collected \<Rightarrow> collected" where
  "set_number dm op v tau_s c =
     (let c1 = collect_effect dm op v c in if fp_gt tau_s (Fin 0) then tau_insert dm tau_s c1 else c1)"

definition scale_or_add :: "string \<Rightarrow> composition_op \<Rightarrow> f64 \<Rightarrow> f64 \<Rightarrow> collected \<Rightarrow> collected" where
  "scale_or_add dm op v tau_s c =
     (let c1 = collect_effect dm op v c in if fp_gt tau_s (Fin 0) then tau_or_insert dm tau_s c1 else c1)"

definition action_effect ::
  "('n, 'c) evalexpr \<Rightarrow> 'c \<Rightarrow> composition \<Rightarrow> string \<Rightarrow> 'n effect \<Rightarrow> collected \<Rightarrow> collected" where
  "action_effect E ctx cps dm eff c =
     (case eff of
        EffSet value tau_s \<Rightarrow>
          (case value of
             StringLiteral s \<Rightarrow> string_insert dm s c
           | Expr e \<Rightarrow>
               (case eval_string E (tree e) ctx of
                  Inr s \<Rightarrow> string_insert dm s c
                | Inl _ \<Rightarrow>
                    (case eval_float E (tree e) ctx of
                       Inr v \<Rightarrow> set_number dm CMax v tau_s c
                     | Inl _ \<Rightarrow> c))
           | Literal v \<Rightarrow> set_number dm CMax v tau_s c)
      | EffScale factor tau_s \<Rightarrow>
          scale_or_add dm Multiply (case eval_expr_or_value E ctx factor of Some v \<Rightarrow> v | None \<Rightarrow> Fin 1) tau_s c
      | EffAdd value tau_s \<Rightarrow>
          scale_or_add dm (add_op (composition_op_of cps dm))
            (case eval_expr_or_value E ctx value of Some v \<Rightarrow> v | None \<Rightarrow> Fin 0) tau_s c
      | EffSetTau v \<Rightarrow> tau_insert dm v c)"

definition interaction_effect ::
  "('n, 'c) evalexpr \<Rightarrow> 'c \<Rightarrow> composition \<Rightarrow> string \<Rightarrow> 'n effect \<Rightarrow> collected \<Rightarrow> collected" where
  "interaction_effect E ctx cps dm eff c =
     (case eff of
        EffScale factor tau_s \<Rightarrow>
          scale_or_add dm Multiply (case eval_expr_or_value E ctx factor of Some v \<Rightarrow> v | None \<Rightarrow> Fin 1) tau_s c
      | EffAdd value tau_s \<Rightarrow>
          scale_or_add dm (add_op (composition_op_of cps dm))
            (case eval_expr_or_value E ctx value of Some v \<Rightarrow> v | None \<Rightarrow> Fin 0) tau_s c
      | EffSet value tau_s \<Rightarrow>
          (case value of
             Literal v \<Rightarrow> set_number dm (set_op (composition_op_of cps dm)) v tau_s c
           | _ \<Rightarrow> c)
      | EffSetTau v \<Rightarrow> tau_insert dm v c)"

text \<open>The specifications of the active actions whose condition holds, in the order of activation.\<close>

definition action_applies :: "('n, 'c) evalexpr \<Rightarrow> 'c \<Rightarrow> 'n action_spec \<Rightarrow> bool" where
  "action_applies E ctx spec =
     (case as_when spec of
        None \<Rightarrow> True
      | Some w \<Rightarrow> (case eval_boolean E (tree w) ctx of Inr b \<Rightarrow> b | Inl _ \<Rightarrow> False))"

definition active_specs ::
  "('n, 'c) evalexpr \<Rightarrow> 'c \<Rightarrow> (string \<times> 'n action_spec) list \<Rightarrow> string list \<Rightarrow> 'n action_spec list" where
  "active_specs E ctx specs names = filter (action_applies E ctx) (List.map_filter (map_of specs) names)"

definition active_terms :: "'n interaction_term list \<Rightarrow> string list \<Rightarrow> 'n interaction_term list" where
  "active_terms terms names = filter (\<lambda>t. list_all (\<lambda>a. a \<in> set names) (it_actions t)) terms"

definition collect_all ::
  "('n, 'c) evalexpr \<Rightarrow> 'c \<Rightarrow> 'n scenario_config \<Rightarrow> string list \<Rightarrow> collected" where
  "collect_all E ctx cfg names =
     (let cps = sc_composition cfg;
          c0 = \<lparr> dim_effects = [], dim_tau = [], string_sets = [] \<rparr>;
          c1 = fold (\<lambda>spec. fold (\<lambda>(dm, eff). action_effect E ctx cps dm eff) (as_effects spec))
                 (active_specs E ctx (sc_actions cfg) names) c0
      in fold (\<lambda>term. fold (\<lambda>(dm, eff). interaction_effect E ctx cps dm eff) (it_effects term))
           (active_terms (sc_interactions cfg) names) c1)"

section \<open>Applying them\<close>

definition composed_target :: "composition_op \<Rightarrow> f64 list \<Rightarrow> f64 \<Rightarrow> f64" where
  "composed_target op values cur =
     (case op of
        Multiply \<Rightarrow> mul64 cur (foldl mul64 (Fin 1) values)
      | CAdd \<Rightarrow> add64 cur (foldl add64 (Fin 0) values)
      | AddDelta \<Rightarrow> add64 cur (foldl add64 (Fin 0) values)
      | CMax \<Rightarrow> foldl fp_max NInf values
      | CMin \<Rightarrow> foldl fp_min PInf values)"

definition apply_dim ::
  "math_lib \<Rightarrow> f64 \<Rightarrow> (string \<times> f64) list \<Rightarrow> string \<times> composition_op \<times> f64 list \<Rightarrow> physical_state \<Rightarrow> physical_state" where
  "apply_dim M dt_s taus e s =
     (case e of (dm, op, values) \<Rightarrow>
        if values = [] then s
        else case get_f64 s dm of
          None \<Rightarrow> s
        | Some cur \<Rightarrow>
            fst (set_f64 dm
                   (lag_step M cur (composed_target op values cur)
                      (case map_of taus dm of Some t \<Rightarrow> t | None \<Rightarrow> Fin 0) dt_s) s))"

definition apply_string :: "string \<times> string \<Rightarrow> physical_state \<Rightarrow> physical_state" where
  "apply_string e s = (case e of (dm, val) \<Rightarrow> if dm = ''kv_dtype'' then s\<lparr>ps_kv_dtype := val\<rparr> else s)"

definition apply_collected :: "math_lib \<Rightarrow> f64 \<Rightarrow> collected \<Rightarrow> physical_state \<Rightarrow> physical_state" where
  "apply_collected M dt_s c s =
     fold apply_string (string_sets c) (fold (apply_dim M dt_s (dim_tau c)) (dim_effects c) s)"

definition apply_actions ::
  "('n, 'c) evalexpr \<Rightarrow> math_lib \<Rightarrow> physical_state \<Rightarrow> engine_model \<Rightarrow> 'n scenario_config \<Rightarrow> f64 \<Rightarrow> 'c \<Rightarrow>
   sim_error + physical_state \<times> 'c" where
  "apply_actions E M s eng cfg dt_s ctx =
     (if em_active_actions eng = [] then Inr (s, ctx)
      else case physical_bind E s ctx of
        Inl e \<Rightarrow> Inl (SimPanic ''set_value should not fail'')
      | Inr ctx1 \<Rightarrow>
     (case engine_bind E eng ctx1 of
        Inl e \<Rightarrow> Inl (SimPanic ''set_value should not fail'')
      | Inr ctx2 \<Rightarrow>
          Inr (apply_collected M dt_s (collect_all E ctx2 cfg (em_active_actions eng)) s, ctx2)))"

section \<open>The effects on one field\<close>

text \<open>What is collected for one field.\<close>

type_synonym dim_view = "(composition_op \<times> f64 list) option \<times> f64 option \<times> string option"

definition view :: "collected \<Rightarrow> string \<Rightarrow> dim_view" where
  "view c d = (map_of (dim_effects c) d, map_of (dim_tau c) d, map_of (string_sets c) d)"

definition v_collect :: "composition_op \<Rightarrow> f64 \<Rightarrow> dim_view \<Rightarrow> dim_view" where
  "v_collect op x v = (case v of (e, t, s) \<Rightarrow>
     (Some (case e of Some (op', xs) \<Rightarrow> (op', xs @ [x]) | None \<Rightarrow> (op, [x])), t, s))"

definition v_tau :: "bool \<Rightarrow> f64 \<Rightarrow> dim_view \<Rightarrow> dim_view" where
  "v_tau force tau v = (case v of (e, t, s) \<Rightarrow> (e, if force \<or> t = None then Some tau else t, s))"

definition v_number :: "bool \<Rightarrow> composition_op \<Rightarrow> f64 \<Rightarrow> f64 \<Rightarrow> dim_view \<Rightarrow> dim_view" where
  "v_number force op x tau v =
     (if fp_gt tau (Fin 0) then v_tau force tau (v_collect op x v) else v_collect op x v)"

definition v_string :: "string \<Rightarrow> dim_view \<Rightarrow> dim_view" where
  "v_string x v = (case v of (e, t, s) \<Rightarrow> (e, t, Some x))"

definition v_action :: "('n, 'c) evalexpr \<Rightarrow> 'c \<Rightarrow> composition_op \<Rightarrow> 'n effect \<Rightarrow> dim_view \<Rightarrow> dim_view" where
  "v_action E ctx op eff v =
     (case eff of
        EffSet (StringLiteral s) tau_s \<Rightarrow> v_string s v
      | EffSet (Literal x) tau_s \<Rightarrow> v_number True CMax x tau_s v
      | EffSet (Expr e) tau_s \<Rightarrow>
          (case (eval_string E (tree e) ctx, eval_float E (tree e) ctx) of
             (Inr s, _) \<Rightarrow> v_string s v
           | (Inl _, Inr x) \<Rightarrow> v_number True CMax x tau_s v
           | _ \<Rightarrow> v)
      | EffScale factor tau_s \<Rightarrow>
          v_number False Multiply (case eval_expr_or_value E ctx factor of Some x \<Rightarrow> x | None \<Rightarrow> Fin 1) tau_s v
      | EffAdd value tau_s \<Rightarrow>
          v_number False (add_op op) (case eval_expr_or_value E ctx value of Some x \<Rightarrow> x | None \<Rightarrow> Fin 0) tau_s v
      | EffSetTau tau \<Rightarrow> v_tau True tau v)"

definition v_interaction :: "('n, 'c) evalexpr \<Rightarrow> 'c \<Rightarrow> composition_op \<Rightarrow> 'n effect \<Rightarrow> dim_view \<Rightarrow> dim_view" where
  "v_interaction E ctx op eff v =
     (case eff of
        EffSet (Literal x) tau_s \<Rightarrow> v_number True (set_op op) x tau_s v
      | EffSet _ tau_s \<Rightarrow> v
      | _ \<Rightarrow> v_action E ctx op eff v)"

text \<open>
  The specification: for a field, the effects on it alone, of the active actions in their order and
  then of the interactions whose actions are all active.
\<close>

definition spec_view :: "('n, 'c) evalexpr \<Rightarrow> 'c \<Rightarrow> 'n scenario_config \<Rightarrow> string list \<Rightarrow> string \<Rightarrow> dim_view" where
  "spec_view E ctx cfg names d =
     (let op = composition_op_of (sc_composition cfg) d in
      fold (\<lambda>term v. case map_of (it_effects term) d of None \<Rightarrow> v | Some eff \<Rightarrow> v_interaction E ctx op eff v)
        (active_terms (sc_interactions cfg) names)
        (fold (\<lambda>spec v. case map_of (as_effects spec) d of None \<Rightarrow> v | Some eff \<Rightarrow> v_action E ctx op eff v)
           (active_specs E ctx (sc_actions cfg) names) (None, None, None)))"

definition spec_field :: "math_lib \<Rightarrow> f64 \<Rightarrow> dim_view \<Rightarrow> f64 \<Rightarrow> f64" where
  "spec_field M dt_s v cur =
     (case v of
        (None, _, _) \<Rightarrow> cur
      | (Some (op, xs), tau, _) \<Rightarrow>
          lag_step M cur (composed_target op xs cur) (case tau of Some t \<Rightarrow> t | None \<Rightarrow> Fin 0) dt_s)"

text \<open>The keys of a map are distinct.\<close>

definition effects_distinct :: "'n scenario_config \<Rightarrow> bool" where
  "effects_distinct cfg =
     (list_all (\<lambda>(n, spec). distinct (map fst (as_effects spec))) (sc_actions cfg) \<and>
      list_all (\<lambda>term. distinct (map fst (it_effects term))) (sc_interactions cfg))"

lemma view_collect_effect:
  "view (collect_effect dm op x c) d = (if d = dm then v_collect op x (view c d) else view c d)"
  by (auto simp: view_def collect_effect_def v_collect_def update_conv split: prod.splits option.splits)

lemma view_tau_insert:
  "view (tau_insert dm t c) d = (if d = dm then v_tau True t (view c d) else view c d)"
  by (auto simp: view_def tau_insert_def v_tau_def update_conv)

lemma view_tau_or_insert:
  "view (tau_or_insert dm t c) d = (if d = dm then v_tau False t (view c d) else view c d)"
  by (auto simp: view_def tau_or_insert_def tau_insert_def v_tau_def update_conv split: option.splits)

lemma view_string_insert:
  "view (string_insert dm s c) d = (if d = dm then v_string s (view c d) else view c d)"
  by (auto simp: view_def string_insert_def v_string_def update_conv)

lemma view_set_number:
  "view (set_number dm op x t c) d = (if d = dm then v_number True op x t (view c d) else view c d)"
  by (simp add: set_number_def v_number_def view_tau_insert view_collect_effect Let_def)

lemma view_scale_or_add:
  "view (scale_or_add dm op x t c) d = (if d = dm then v_number False op x t (view c d) else view c d)"
  by (simp add: scale_or_add_def v_number_def view_tau_or_insert view_collect_effect Let_def)

lemmas view_simps = view_tau_insert view_string_insert view_set_number view_scale_or_add

lemma view_action_effect:
  "view (action_effect E ctx cps dm eff c) d =
    (if d = dm then v_action E ctx (composition_op_of cps d) eff (view c d) else view c d)"
  by (auto simp: action_effect_def v_action_def view_simps split: effect.splits expr_or_value.splits sum.splits)

lemma view_interaction_effect:
  "view (interaction_effect E ctx cps dm eff c) d =
    (if d = dm then v_interaction E ctx (composition_op_of cps d) eff (view c d) else view c d)"
  by (auto simp: interaction_effect_def v_interaction_def v_action_def view_simps split: effect.splits expr_or_value.splits)

lemma view_fold_distinct:
  assumes "\<And>dm eff c. view (f dm eff c) d = (if d = dm then g eff (view c d) else view c d)"
    and "distinct (map fst effs)"
  shows "view (fold (\<lambda>(dm, eff). f dm eff) effs c) d =
    (case map_of effs d of None \<Rightarrow> view c d | Some eff \<Rightarrow> g eff (view c d))"
  using assms(2)
proof (induction effs arbitrary: c)
  case (Cons x effs)
  obtain dm eff where x: "x = (dm, eff)" by (cases x)
  show ?case
  proof (cases "d = dm")
    case True
    then have "map_of effs d = None" using Cons.prems x by (auto simp: map_of_eq_None_iff)
    then show ?thesis using Cons True x assms(1)[of dm eff c] by simp
  qed (use Cons x in \<open>simp add: assms(1) split: option.split\<close>)
qed simp

lemma view_fold_effects:
  assumes "\<And>x c. x \<in> set xs \<Longrightarrow> view (f x c) d = g x (view c d)"
  shows "view (fold f xs c) d = fold g xs (view c d)"
  using assms by (induction xs arbitrary: c) auto

lemma active_specs_set: "spec \<in> set (active_specs E ctx specs names) \<Longrightarrow> \<exists>n. (n, spec) \<in> set specs"
  by (auto simp: active_specs_def map_filter_def) (metis map_of_SomeD)

lemma collect_all_view:
  assumes "effects_distinct cfg"
  shows "view (collect_all E ctx cfg names) d = spec_view E ctx cfg names d"
proof -
  let ?cps = "sc_composition cfg"
  let ?ga = "\<lambda>spec v. case map_of (as_effects spec) d of None \<Rightarrow> v
       | Some eff \<Rightarrow> v_action E ctx (composition_op_of ?cps d) eff v"
  let ?gi = "\<lambda>term v. case map_of (it_effects term) d of None \<Rightarrow> v
       | Some eff \<Rightarrow> v_interaction E ctx (composition_op_of ?cps d) eff v"
  have a: "view (fold (\<lambda>(dm, eff). action_effect E ctx ?cps dm eff) (as_effects spec) c) d =
      (case map_of (as_effects spec) d of None \<Rightarrow> view c d
       | Some eff \<Rightarrow> v_action E ctx (composition_op_of ?cps d) eff (view c d))"
    if "spec \<in> set (active_specs E ctx (sc_actions cfg) names)" for spec c
    using active_specs_set[OF that] assms
    by (intro view_fold_distinct) (auto simp: view_action_effect effects_distinct_def list_all_iff)
  have i: "view (fold (\<lambda>(dm, eff). interaction_effect E ctx ?cps dm eff) (it_effects term) c) d =
      (case map_of (it_effects term) d of None \<Rightarrow> view c d
       | Some eff \<Rightarrow> v_interaction E ctx (composition_op_of ?cps d) eff (view c d))"
    if "term \<in> set (active_terms (sc_interactions cfg) names)" for "term" c
    using that assms
    by (intro view_fold_distinct) (auto simp: view_interaction_effect effects_distinct_def list_all_iff active_terms_def)
  show ?thesis
    unfolding collect_all_def spec_view_def Let_def
    by (subst view_fold_effects[where g = ?gi], rule i, assumption,
        subst view_fold_effects[where g = ?ga], rule a, assumption) (simp add: view_def)
qed

text \<open>The collected maps have distinct keys, and no field has an empty list of values.\<close>

definition collected_ok :: "collected \<Rightarrow> bool" where
  "collected_ok c = (distinct (map fst (dim_effects c)) \<and> distinct (map fst (string_sets c)) \<and>
     (\<forall>d op vs. map_of (dim_effects c) d = Some (op, vs) \<longrightarrow> vs \<noteq> []))"

lemma collected_ok_intros:
  assumes "collected_ok c"
  shows "collected_ok (collect_effect dm op x c)" and "collected_ok (tau_insert dm t c)"
    and "collected_ok (tau_or_insert dm t c)" and "collected_ok (string_insert dm str c)"
  using assms
  by (auto simp: collected_ok_def collect_effect_def tau_insert_def tau_or_insert_def string_insert_def
      update_conv distinct_update simp del: map_of_eq_Some_iff Some_eq_map_of_iff
      split: prod.splits option.splits if_splits)

lemma collected_ok_effects:
  assumes "collected_ok c"
  shows "collected_ok (action_effect E ctx cps dm eff c)" and "collected_ok (interaction_effect E ctx cps dm eff c)"
  using collected_ok_intros assms
  by (auto simp: action_effect_def interaction_effect_def set_number_def scale_or_add_def Let_def
      split: effect.splits expr_or_value.splits sum.splits)

lemma collected_ok_fold:
  assumes "\<And>x c. collected_ok c \<Longrightarrow> collected_ok (f x c)" and "collected_ok c"
  shows "collected_ok (fold f xs c)"
  using assms(2) by (induction xs arbitrary: c) (auto simp: assms(1))

lemma collected_ok_empty: "collected_ok \<lparr> dim_effects = [], dim_tau = [], string_sets = [] \<rparr>"
  by (simp add: collected_ok_def)

lemma collect_all_ok: "collected_ok (collect_all E ctx cfg names)"
  unfolding collect_all_def Let_def
  by (intro collected_ok_fold collected_ok_empty) (simp_all add: collected_ok_effects split: prod.splits)

section \<open>The composed device\<close>

lemma apply_dim_modify:
  assumes "snd (snd e) \<noteq> []"
  shows "apply_dim M dt_s taus e =
    device.modify (fst e) (\<lambda>cur. lag_step M cur (composed_target (fst (snd e)) (snd (snd e)) cur)
                      (case map_of taus (fst e) of Some t \<Rightarrow> t | None \<Rightarrow> Fin 0) dt_s)"
  using assms by (auto simp: fun_eq_iff apply_dim_def device.modify_def split: prod.splits option.splits)

lemma fold_apply_string_get: "get_f64 (fold apply_string ss s) d = get_f64 s d"
proof -
  have dtype: "get_f64 (s\<lparr>ps_kv_dtype := v\<rparr>) d = get_f64 s d" for s v
    by (simp add: get_f64_def phys_fields_def)
  have "get_f64 (apply_string x s) d = get_f64 s d" for x s
    by (simp add: apply_string_def dtype split: prod.splits)
  then show ?thesis by (induction ss arbitrary: s) auto
qed

lemma fold_apply_string_dtype:
  "distinct (map fst ss) \<Longrightarrow>
   ps_kv_dtype (fold apply_string ss s) = (case map_of ss ''kv_dtype'' of Some v \<Rightarrow> v | None \<Rightarrow> ps_kv_dtype s)"
proof (induction ss arbitrary: s)
  case (Cons x ss)
  obtain dm v where x: "x = (dm, v)" by (cases x)
  show ?case
  proof (cases "dm = ''kv_dtype''")
    case True
    then have "map_of ss ''kv_dtype'' = None" using Cons.prems x by (auto simp: map_of_eq_None_iff)
    then show ?thesis using Cons True x by (simp add: apply_string_def)
  qed (use Cons x in \<open>simp add: apply_string_def\<close>)
qed simp

lemma fold_apply_dim_dtype: "ps_kv_dtype (fold (apply_dim M dt_s taus) es s) = ps_kv_dtype s"
proof -
  have "ps_kv_dtype (apply_dim M dt_s taus e s) = ps_kv_dtype s" for e s
    by (simp add: apply_dim_def split: prod.splits option.splits)
  then show ?thesis by (induction es arbitrary: s) auto
qed

lemma apply_collected_get:
  assumes "collected_ok c"
  shows "get_f64 (apply_collected M dt_s c s) d = map_option (spec_field M dt_s (view c d)) (get_f64 s d)"
proof -
  define h where "h e = (\<lambda>cur. lag_step M cur (composed_target (fst (snd e)) (snd (snd e)) cur)
      (case map_of (dim_tau c) (fst e) of Some t \<Rightarrow> t | None \<Rightarrow> Fin 0) dt_s)" for e :: "string \<times> composition_op \<times> f64 list"
  have ne: "snd (snd e) \<noteq> []" if "e \<in> set (dim_effects c)" for e
    using assms that by (cases e) (auto simp: collected_ok_def)
  have f: "fold (apply_dim M dt_s (dim_tau c)) es s = fold (\<lambda>(f, h). device.modify f h) (map (\<lambda>e. (fst e, h e)) es) s"
    if "set es \<subseteq> set (dim_effects c)" for es s
    using that ne by (induction es arbitrary: s) (auto simp: apply_dim_modify h_def)
  have m: "map_of (map (\<lambda>e. (fst e, h e)) es) d = map_option (\<lambda>v. h (d, v)) (map_of es d)" for es
    by (induction es) auto
  have "distinct (map fst (map (\<lambda>e. (fst e, h e)) (dim_effects c)))"
    using assms by (simp add: collected_ok_def comp_def)
  from device.get_fold_modify[OF this, of s d]
  have "get_f64 (apply_collected M dt_s c s) d =
      (case map_of (dim_effects c) d of None \<Rightarrow> get_f64 s d | Some v \<Rightarrow> map_option (h (d, v)) (get_f64 s d))"
    unfolding m apply_collected_def fold_apply_string_get f[OF subset_refl]
    by (cases "map_of (dim_effects c) d") simp_all
  then show ?thesis
    by (cases "map_of (dim_effects c) d") (cases "get_f64 s d"; auto simp: h_def spec_field_def view_def)+
qed

lemma apply_collected_dtype:
  assumes "collected_ok c"
  shows "ps_kv_dtype (apply_collected M dt_s c s) =
    (case snd (snd (view c ''kv_dtype'')) of Some v \<Rightarrow> v | None \<Rightarrow> ps_kv_dtype s)"
  using assms by (simp add: apply_collected_def fold_apply_string_dtype fold_apply_dim_dtype collected_ok_def view_def
      split: option.split)

lemma apply_actions_field:
  assumes "effects_distinct cfg" and "apply_actions E M s eng cfg dt_s ctx = Inr (s', ctx')"
    and "em_active_actions eng \<noteq> []"
  shows "get_f64 s' d = map_option (spec_field M dt_s (spec_view E ctx' cfg (em_active_actions eng) d)) (get_f64 s d) \<and>
    ps_kv_dtype s' = (case snd (snd (spec_view E ctx' cfg (em_active_actions eng) ''kv_dtype'')) of
       Some v \<Rightarrow> v | None \<Rightarrow> ps_kv_dtype s)"
proof -
  have "s' = apply_collected M dt_s (collect_all E ctx' cfg (em_active_actions eng)) s"
    using assms(2,3) by (auto simp: apply_actions_def split: sum.splits)
  then show ?thesis
    by (simp add: apply_collected_get[OF collect_all_ok] apply_collected_dtype[OF collect_all_ok]
        collect_all_view[OF assms(1)])
qed

definition example_engine :: "string list \<Rightarrow> engine_model" where
  "example_engine names = engine_from_config (example_initial\<lparr>in_active_actions := names\<rparr>)"

lemmas example_bind_eval =
  physical_bind_def engine_bind_def set_f64s_def set_strs_def ctx_set_f64_def ctx_set_str_def phys_fields_def
  example_lang_def example_engine_def engine_from_config_def physical_from_config_def

lemma example_runs:
  assumes "names \<noteq> []"
  shows "\<exists>s' c. apply_actions example_lang M (physical_from_config example_initial) (example_engine names)
       example_scenario (Fin 1) Map.empty = Inr (s', c)"
proof -
  let ?s = "physical_from_config example_initial" and ?e = "example_engine names"
  obtain c1 where c1: "physical_bind example_lang ?s Map.empty = Inr c1" by (simp add: example_bind_eval)
  obtain c2 where c2: "engine_bind example_lang ?e c1 = Inr c2" by (simp add: example_bind_eval)
  show ?thesis using c1 c2 by (simp add: apply_actions_def)
qed

lemma example_engine_actions [simp]: "em_active_actions (example_engine names) = names"
  by (simp add: example_engine_def engine_from_config_def)

lemma example_distinct: "effects_distinct example_scenario"
  by (simp add: effects_distinct_def example_scenario_def)

lemma example_thermal: "get_f64 (physical_from_config example_initial) ''thermal_c'' = Some (Fin 50)"
  by (simp add: get_f64_def phys_fields_def physical_from_config_def example_initial_def)

lemmas example_view_eval =
  spec_view_def active_specs_def active_terms_def action_applies_def example_scenario_def map_filter_def
  v_action_def v_number_def v_collect_def spec_field_def lag_step_def composed_target_def
  eval_expr_or_value_def to_f64_numeral

section \<open>Properties\<close>

text \<open>C11: Composition works field by field: after the active actions have been applied, each numeric
  field of the device has the value that the effects on that field alone specify, in the order of
  the actions and then of the interactions, and the cache type is the last string set for it.  So
  the order in which hash maps yield their entries does not matter.\<close>

theorem apply_actions_per_field:
  assumes "effects_distinct cfg" and "apply_actions E M s eng cfg dt_s ctx = Inr (s', ctx')"
    and "em_active_actions eng \<noteq> []"
  shows "get_f64 s' d = map_option (spec_field M dt_s (spec_view E ctx' cfg (em_active_actions eng) d)) (get_f64 s d) \<and>
    ps_kv_dtype s' = (case snd (snd (spec_view E ctx' cfg (em_active_actions eng) ''kv_dtype'')) of
       Some v \<Rightarrow> v | None \<Rightarrow> ps_kv_dtype s)"
  using assms by (rule apply_actions_field)

definition example_math :: math_lib where
  "example_math = \<lparr> m_exp = (\<lambda>x. Fin 0), m_powf = (\<lambda>x y. x), m_ln = (\<lambda>x. Fin 0), m_sqrt = id, m_cos = (\<lambda>x. Fin 1) \<rparr>"

theorem apply_actions_per_field_witness:
  "\<exists>s' ctx'. apply_actions example_lang example_math (physical_from_config example_initial) (example_engine [''hot''])
       example_scenario (Fin 1) Map.empty = Inr (s', ctx') \<and> get_f64 s' ''thermal_c'' = Some (Fin 80)"
proof -
  obtain s' c where s': "apply_actions example_lang example_math (physical_from_config example_initial)
      (example_engine [''hot'']) example_scenario (Fin 1) Map.empty = Inr (s', c)"
    using example_runs[of "[''hot'']" example_math] by auto
  from apply_actions_per_field[OF example_distinct s', of "''thermal_c''"]
  have "get_f64 s' ''thermal_c'' = Some (Fin 80)"
    by (simp add: example_thermal example_view_eval fp_max_def)
  then show ?thesis using s' by blast
qed

text \<open>The first effect collected for a field decides how all of its values are combined: with a
  scale by two before a set to 80 degrees, a device at 50 degrees ends at 50 times 2 times 80
  degrees; with the set first, the scale is lost among the candidates of the maximum.\<close>

lemma mixed_effects_conflated:
  "\<exists>s' c t' c'.
     apply_actions example_lang M (physical_from_config example_initial) (example_engine [''scale'', ''hot''])
       example_scenario (Fin 1) Map.empty = Inr (s', c) \<and> get_f64 s' ''thermal_c'' = Some (Fin 8000) \<and>
     apply_actions example_lang M (physical_from_config example_initial) (example_engine [''hot'', ''scale''])
       example_scenario (Fin 1) Map.empty = Inr (t', c') \<and> get_f64 t' ''thermal_c'' = Some (Fin 80)"
proof -
  obtain s' c where s': "apply_actions example_lang M (physical_from_config example_initial)
      (example_engine [''scale'', ''hot'']) example_scenario (Fin 1) Map.empty = Inr (s', c)"
    using example_runs[of "[''scale'', ''hot'']" M] by auto
  obtain t' c' where t': "apply_actions example_lang M (physical_from_config example_initial)
      (example_engine [''hot'', ''scale'']) example_scenario (Fin 1) Map.empty = Inr (t', c')"
    using example_runs[of "[''hot'', ''scale'']" M] by auto
  have "get_f64 s' ''thermal_c'' = Some (Fin 8000)"
    using apply_actions_field[OF example_distinct s', of "''thermal_c''"]
    by (simp add: example_thermal example_view_eval)
  moreover have "get_f64 t' ''thermal_c'' = Some (Fin 80)"
    using apply_actions_field[OF example_distinct t', of "''thermal_c''"]
    by (simp add: example_thermal example_view_eval fp_max_def)
  ultimately show ?thesis using s' t' by blast
qed

end
