(* ===== verification/Sim_Clock.thy ===== *)
theory Sim_Clock
  imports Clock Pipeline "HOL-Library.Product_Lexorder" "HOL-Library.Multiset"
begin

text \<open>
  The virtual clock of the simulator and its event queue (\<^verbatim>\<open>src/sim/clock.rs\<close>), the clock handle
  the policy reads (\<^verbatim>\<open>src/sim/clock_adapter.rs\<close>) and the recording policy of the tests
  (\<^verbatim>\<open>src/sim/mock_policy.rs\<close>).  The binary heap of the standard library is the list of its
  elements in the order they are popped.
\<close>

section \<open>Events and the queue\<close>

datatype event_kind =
    EvHeartbeat
  | SignalMemory
  | SignalCompute
  | SignalThermal
  | SignalEnergy
  | ObservationDue string duration
  | ExternalInjectionStart nat
  | ExternalInjectionEnd nat
  | Custom string

record scheduled_event =
  ev_at :: duration
  ev_id :: u64
  ev_kind :: event_kind

text \<open>The order of events: by time, then by number.\<close>

definition ev_key :: "scheduled_event \<Rightarrow> duration \<times> u64" where
  "ev_key e = (ev_at e, ev_id e)"

definition heap_push :: "scheduled_event \<Rightarrow> scheduled_event list \<Rightarrow> scheduled_event list" where
  "heap_push e h = insort_key ev_key e h"

definition heap_peek :: "scheduled_event list \<Rightarrow> scheduled_event option" where
  "heap_peek h = (case h of [] \<Rightarrow> None | e # _ \<Rightarrow> Some e)"

definition heap_pop :: "scheduled_event list \<Rightarrow> scheduled_event list" where
  "heap_pop h = tl h"

record virtual_clock =
  vc_now :: duration
  vc_events :: "scheduled_event list"
  vc_next_id :: u64

definition virtual_clock_new :: virtual_clock where
  "virtual_clock_new = \<lparr> vc_now = 0, vc_events = [], vc_next_id = 0 \<rparr>"

definition now_secs :: "virtual_clock \<Rightarrow> f64" where
  "now_secs c = as_secs_f64 (vc_now c)"

definition schedule :: "event_kind \<Rightarrow> duration \<Rightarrow> virtual_clock \<Rightarrow> virtual_clock \<times> u64" where
  "schedule kind when c =
     (let i = vc_next_id c in
      (c\<lparr>vc_next_id := i + 1,
         vc_events := heap_push \<lparr> ev_at = when, ev_id = i, ev_kind = kind \<rparr> (vc_events c)\<rparr>, i))"

text \<open>The periodic preload: nothing when an addition overflows (a panic) or the loop does not end.\<close>

partial_function (option) schedule_periodic ::
  "event_kind \<Rightarrow> duration \<Rightarrow> duration \<Rightarrow> duration \<Rightarrow> virtual_clock \<Rightarrow> virtual_clock option" where
  "schedule_periodic kind t period until c =
     (if t \<le> until
      then (case duration_checked_add t period of
              None \<Rightarrow> None
            | Some t' \<Rightarrow> schedule_periodic kind t' period until (fst (schedule kind t c)))
      else Some c)"

function drain_heap :: "duration \<Rightarrow> scheduled_event list \<Rightarrow> scheduled_event list \<times> scheduled_event list" where
  "drain_heap target h =
     (case heap_peek h of
        None \<Rightarrow> (h, [])
      | Some ev \<Rightarrow>
          if ev_at ev \<le> target then apsnd ((#) ev) (drain_heap target (heap_pop h)) else (h, []))"
  by pat_completeness auto
termination
  by (relation "measure (\<lambda>(t, h). length h)") (auto simp: heap_peek_def heap_pop_def split: list.splits)

declare drain_heap.simps [simp del]

definition drain_until :: "duration \<Rightarrow> virtual_clock \<Rightarrow> virtual_clock \<times> scheduled_event list" where
  "drain_until target c =
     (case drain_heap target (vc_events c) of (h, evs) \<Rightarrow> (c\<lparr>vc_events := h\<rparr>, evs))"

definition advance :: "duration \<Rightarrow> virtual_clock \<Rightarrow> virtual_clock res" where
  "advance dt c =
     (case duration_checked_add (vc_now c) dt of
        Some n \<Rightarrow> Inr (c\<lparr>vc_now := n\<rparr>)
      | None \<Rightarrow> Inl ''overflow when adding durations'')"

definition pending :: "virtual_clock \<Rightarrow> nat" where
  "pending c = length (vc_events c)"

section \<open>The clock handle\<close>

definition handle_now :: "virtual_clock \<Rightarrow> logical_instant" where
  "handle_now c = from_duration_since_start (vc_now c)"

text \<open>System time is the epoch plus the virtual time; the epoch is 0.\<close>

definition handle_now_system :: "virtual_clock \<Rightarrow> duration" where
  "handle_now_system c = 0 + vc_now c"

inductive clock_later :: "virtual_clock \<Rightarrow> virtual_clock \<Rightarrow> bool" where
  refl: "clock_later c c"
| scheduled: "clock_later a c \<Longrightarrow> clock_later a (fst (schedule k t c))"
| drained: "clock_later a c \<Longrightarrow> clock_later a (fst (drain_until t c))"
| advanced: "clock_later a c \<Longrightarrow> advance dt c = Inr c' \<Longrightarrow> clock_later a c'"

section \<open>The recording policy\<close>

record mock_policy =
  received_signals :: "system_signal list"
  received_heartbeats :: nat
  qcf_timeout_count :: nat
  directive_on_signal :: "(system_signal \<Rightarrow> engine_directive option) option"
  pending_qcf_directive :: "engine_directive option"

definition mock_policy_new :: mock_policy where
  "mock_policy_new =
     \<lparr> received_signals = [], received_heartbeats = 0, qcf_timeout_count = 0,
       directive_on_signal = None, pending_qcf_directive = None \<rparr>"

definition with_fixed_directive :: "engine_directive \<Rightarrow> mock_policy" where
  "with_fixed_directive d = mock_policy_new\<lparr>directive_on_signal := Some (\<lambda>_. Some d)\<rparr>"

definition mock_process_signal :: "system_signal \<Rightarrow> mock_policy \<Rightarrow> mock_policy \<times> engine_directive option" where
  "mock_process_signal s p =
     (p\<lparr>received_signals := received_signals p @ [s]\<rparr>,
      case directive_on_signal p of Some cb \<Rightarrow> cb s | None \<Rightarrow> None)"

definition mock_update_engine_state :: "engine_message \<Rightarrow> mock_policy \<Rightarrow> mock_policy" where
  "mock_update_engine_state m p = p\<lparr>received_heartbeats := received_heartbeats p + 1\<rparr>"

definition mock_mode :: "mock_policy \<Rightarrow> operating_mode" where
  "mock_mode p = ModeNormal"

definition mock_inv :: "mock_policy \<Rightarrow> bool" where
  "mock_inv p = (\<forall>cb s d. directive_on_signal p = Some cb \<longrightarrow> cb s = Some d \<longrightarrow> directive_ok d)"

interpretation mock_pol: policy_strategy "\<lambda>w. mock_process_signal" mock_update_engine_state mock_inv
  by unfold_locales
    (auto simp: mock_process_signal_def mock_update_engine_state_def mock_inv_def split: option.splits)

section \<open>The contract of the queue\<close>

text \<open>
  A queue that pops in the order of the keys.  Draining up to a time gives exactly the events due,
  in order, and leaves exactly the others.
\<close>

locale event_queue =
  fixes push :: "'e \<Rightarrow> 'q \<Rightarrow> 'q"
    and peek :: "'q \<Rightarrow> 'e option"
    and pop :: "'q \<Rightarrow> 'q"
    and contents :: "'q \<Rightarrow> 'e multiset"
    and key :: "'e \<Rightarrow> 'k :: linorder"
    and inv :: "'q \<Rightarrow> bool"
  assumes push_inv: "inv q \<Longrightarrow> inv (push e q)"
    and pop_inv: "inv q \<Longrightarrow> inv (pop q)"
    and push_contents: "contents (push e q) = add_mset e (contents q)"
    and peek_None: "peek q = None \<longleftrightarrow> contents q = {#}"
    and peek_min: "inv q \<Longrightarrow> peek q = Some e \<Longrightarrow> x \<in># contents q \<Longrightarrow> key e \<le> key x"
    and pop_contents: "peek q = Some e \<Longrightarrow> contents q = add_mset e (contents (pop q))"
begin

lemma pop_size: "peek q = Some e \<Longrightarrow> size (contents (pop q)) < size (contents q)"
  using pop_contents[of q e] by simp

end

interpretation heap: event_queue heap_push heap_peek heap_pop mset ev_key "sorted_wrt (\<lambda>a b. ev_key a \<le> ev_key b)"
proof
  fix q :: "scheduled_event list" and e x
  have s: "sorted_wrt (\<lambda>a b. ev_key a \<le> ev_key b) h \<longleftrightarrow> sorted (map ev_key h)" for h
    by (simp add: sorted_wrt_map)
  show "sorted_wrt (\<lambda>a b. ev_key a \<le> ev_key b) q \<Longrightarrow> sorted_wrt (\<lambda>a b. ev_key a \<le> ev_key b) (heap_push e q)"
    unfolding s heap_push_def by (simp add: sorted_insort_key)
  show "sorted_wrt (\<lambda>a b. ev_key a \<le> ev_key b) q \<Longrightarrow> sorted_wrt (\<lambda>a b. ev_key a \<le> ev_key b) (heap_pop q)"
    by (cases q) (simp_all add: heap_pop_def)
  show "mset (heap_push e q) = add_mset e (mset q)" by (simp add: heap_push_def)
  show "heap_peek q = None \<longleftrightarrow> mset q = {#}" by (simp add: heap_peek_def split: list.splits)
  show "sorted_wrt (\<lambda>a b. ev_key a \<le> ev_key b) q \<Longrightarrow> heap_peek q = Some e \<Longrightarrow> x \<in># mset q \<Longrightarrow> ev_key e \<le> ev_key x"
    by (auto simp: heap_peek_def split: list.splits)
  show "heap_peek q = Some e \<Longrightarrow> mset q = add_mset e (mset (heap_pop q))"
    by (auto simp: heap_peek_def heap_pop_def split: list.splits)
qed

interpretation virtual: monotone_clock clock_later handle_now
proof
  fix a b assume "clock_later a b"
  then show "as_duration_since_start (handle_now a) \<le> as_duration_since_start (handle_now b)"
    by (induction rule: clock_later.induct)
      (auto simp: handle_now_def from_duration_since_start_def schedule_def drain_until_def advance_def
        duration_checked_add_def Let_def split: prod.splits option.splits if_splits)
qed

section \<open>Draining\<close>

definition queue_inv :: "virtual_clock \<Rightarrow> bool" where
  "queue_inv c = sorted_wrt (\<lambda>a b. ev_key a \<le> ev_key b) (vc_events c)"

lemma drain_heap_spec:
  assumes "sorted_wrt (\<lambda>a b. ev_key a \<le> ev_key b) h"
  shows "sorted_wrt (\<lambda>a b. ev_key a \<le> ev_key b) (snd (drain_heap target h)) \<and>
    mset (snd (drain_heap target h)) = filter_mset (\<lambda>e. ev_at e \<le> target) (mset h) \<and>
    mset (fst (drain_heap target h)) = filter_mset (\<lambda>e. \<not> ev_at e \<le> target) (mset h) \<and>
    sorted_wrt (\<lambda>a b. ev_key a \<le> ev_key b) (fst (drain_heap target h))"
  using assms
proof (induction target h rule: drain_heap.induct)
  case (1 target h)
  show ?case
  proof (cases "heap_peek h")
    case None
    then have "h = []" using heap.peek_None[of h] by simp
    then show ?thesis by (simp add: drain_heap.simps[of target] heap_peek_def)
  next
    case (Some ev)
    have min: "\<And>x. x \<in> set h \<Longrightarrow> ev_key ev \<le> ev_key x" using heap.peek_min[OF 1(2) Some] by simp
    show ?thesis
    proof (cases "ev_at ev \<le> target")
      case True
      have pm: "mset h = add_mset ev (mset (heap_pop h))" using Some by (rule heap.pop_contents)
      note ih = 1(1)[OF Some True heap.pop_inv[OF 1(2)]]
      have d: "drain_heap target h = apsnd ((#) ev) (drain_heap target (heap_pop h))"
        using Some True by (simp add: drain_heap.simps[of target h])
      have "\<forall>x \<in> set (snd (drain_heap target (heap_pop h))). ev_key ev \<le> ev_key x"
      proof
        fix x assume "x \<in> set (snd (drain_heap target (heap_pop h)))"
        then have "x \<in># mset (snd (drain_heap target (heap_pop h)))" by simp
        then have "x \<in># mset (heap_pop h)" using ih by simp
        then have "x \<in># mset h" unfolding pm by simp
        then show "ev_key ev \<le> ev_key x" using min by simp
      qed
      then show ?thesis using ih True by (simp add: d pm)
    next
      case False
      have gt: "\<not> ev_at x \<le> target" if "x \<in> set h" for x
        using min[OF that] False by (auto simp: ev_key_def less_eq_prod_def)
      then have "filter_mset (\<lambda>e. ev_at e \<le> target) (mset h) = {#}" "filter_mset (\<lambda>e. \<not> ev_at e \<le> target) (mset h) = mset h"
        by (simp_all add: mset_filter [symmetric] filter_False filter_True del: mset_filter)
      moreover have "drain_heap target h = (h, [])" using Some False by (simp add: drain_heap.simps[of target h])
      ultimately show ?thesis using 1(2) by simp
    qed
  qed
qed

lemma schedule_inv: "queue_inv c \<Longrightarrow> queue_inv (fst (schedule k t c))"
  by (simp add: queue_inv_def schedule_def Let_def heap.push_inv)

lemma reachable_queue_inv: "clock_later virtual_clock_new c \<Longrightarrow> queue_inv c"
proof (induction virtual_clock_new c rule: clock_later.induct)
  case refl
  show ?case by (simp add: queue_inv_def virtual_clock_new_def)
next
  case (scheduled c k t)
  then show ?case by (simp add: schedule_inv)
next
  case (drained c t)
  then show ?case using drain_heap_spec[of "vc_events c" t]
    by (cases "drain_heap t (vc_events c)") (simp add: queue_inv_def drain_until_def)
next
  case (advanced c dt c')
  then show ?case by (auto simp: queue_inv_def advance_def split: option.splits)
qed

section \<open>The periodic preload\<close>

text \<open>The times from \<^term>\<open>t\<close> on in steps of the period, up to and including \<^term>\<open>until\<close>.\<close>

definition periodic_times :: "duration \<Rightarrow> duration \<Rightarrow> duration \<Rightarrow> duration list" where
  "periodic_times t period until =
     (if until < t then [] else map (\<lambda>k. t + k * period) [0..<Suc ((until - t) div period)])"

lemma periodic_times_step:
  assumes "0 < period" and "t \<le> until"
  shows "periodic_times t period until = t # periodic_times (t + period) period until"
proof (cases "until < t + period")
  case True
  then have "(until - t) div period = 0" using assms by simp
  then show ?thesis using True assms by (simp add: periodic_times_def)
next
  case False
  then have d: "(until - t) div period = Suc ((until - (t + period)) div period)"
    using assms by (simp add: div_if[of "until - t"] less_diff_conv2 add.commute)
  have "map (\<lambda>k. t + k * period) [0..<Suc (Suc n)] = t # map (\<lambda>k. t + period + k * period) [0..<Suc n]" for n
    by (simp add: upt_conv_Cons map_Suc_upt [symmetric] comp_def algebra_simps del: upt_Suc)
  then show ?thesis using False assms by (simp add: periodic_times_def d del: upt_Suc)
qed

definition scheduled_all :: "event_kind \<Rightarrow> duration list \<Rightarrow> virtual_clock \<Rightarrow> virtual_clock" where
  "scheduled_all kind ts c = fold (\<lambda>t c. fst (schedule kind t c)) ts c"

lemma schedule_periodic_returns:
  assumes "0 < period" and "until + period \<le> DURATION_MAX"
  shows "schedule_periodic kind t period until c = Some (scheduled_all kind (periodic_times t period until) c)"
proof (induction "Suc until - t" arbitrary: t c rule: less_induct)
  case less
  show ?case
  proof (cases "t \<le> until")
    case True
    then have a: "duration_checked_add t period = Some (t + period)"
      using assms by (simp add: duration_checked_add_def)
    have "Suc until - (t + period) < Suc until - t" using True assms(1) by simp
    from less.hyps[OF this, of "fst (schedule kind t c)"] show ?thesis
      using True a periodic_times_step[OF assms(1) True]
      by (simp add: schedule_periodic.simps[of kind t] scheduled_all_def)
  next
    case False
    then show ?thesis by (simp add: schedule_periodic.simps[of kind t] periodic_times_def scheduled_all_def)
  qed
qed

lemma schedule_periodic_zero:
  assumes "schedule_periodic kind t period until c = Some c'"
  shows "period = 0 \<longrightarrow> until < t"
  using assms
proof (rule schedule_periodic.raw_induct [where P = "\<lambda>kind t period until c c'. period = 0 \<longrightarrow> until < t", rotated])
  fix f kind t period until c c'
  assume IH: "\<And>kind t period until c c'. f kind t period until c = Some c' \<Longrightarrow> period = 0 \<longrightarrow> until < t"
    and e: "(if t \<le> until
      then (case duration_checked_add t period of
              None \<Rightarrow> None
            | Some t' \<Rightarrow> f kind t' period until (fst (schedule kind t c)))
      else Some c) = Some c'"
  show "period = 0 \<longrightarrow> until < t"
  proof (cases "t \<le> until")
    case True
    then obtain t' where t': "duration_checked_add t period = Some t'"
      "f kind t' period until (fst (schedule kind t c)) = Some c'"
      using e by (auto split: option.splits)
    then show ?thesis using IH[OF t'(2)] by (auto simp: duration_checked_add_def split: if_splits)
  qed simp
qed

lemma schedule_events: "mset (vc_events (fst (schedule k t c))) = add_mset \<lparr> ev_at = t, ev_id = vc_next_id c, ev_kind = k \<rparr> (mset (vc_events c))"
  by (simp add: schedule_def Let_def heap.push_contents)

lemma scheduled_all_times:
  "image_mset ev_at (mset (vc_events (scheduled_all kind ts c))) = image_mset ev_at (mset (vc_events c)) + mset ts"
proof (induction ts arbitrary: c)
  case (Cons t ts)
  then show ?case using schedule_events[of kind t c] by (simp add: scheduled_all_def)
qed (simp add: scheduled_all_def)

section \<open>Properties\<close>

text \<open>C39: Whatever was scheduled, drained and advanced since the clock was made, draining the event
  queue up to a time gives exactly the events that are due, in the order of
  their times and then of their numbers, leaves exactly the others, and keeps the queue in order.\<close>

theorem drain_until_exact:
  assumes "clock_later virtual_clock_new c" and "drain_until target c = (c', evs)"
  shows "sorted_wrt (\<lambda>a b. ev_key a \<le> ev_key b) evs \<and>
     mset evs = filter_mset (\<lambda>e. ev_at e \<le> target) (mset (vc_events c)) \<and>
     mset (vc_events c') = filter_mset (\<lambda>e. \<not> ev_at e \<le> target) (mset (vc_events c)) \<and>
     queue_inv c' \<and> vc_now c' = vc_now c"
proof -
  note inv = reachable_queue_inv[OF assms(1)]
  have "evs = snd (drain_heap target (vc_events c))" "c' = c\<lparr>vc_events := fst (drain_heap target (vc_events c))\<rparr>"
    using assms(2) by (auto simp: drain_until_def split: prod.splits)
  then show ?thesis using drain_heap_spec[OF inv[unfolded queue_inv_def], of target]
    by (simp add: queue_inv_def)
qed

definition example_clock :: virtual_clock where
  "example_clock = fst (schedule SignalMemory 3 (fst (schedule EvHeartbeat 7 virtual_clock_new)))"

theorem drain_until_exact_witness:
  "mset (snd (drain_until 5 example_clock)) = filter_mset (\<lambda>e. ev_at e \<le> 5) (mset (vc_events example_clock))"
proof -
  have "clock_later virtual_clock_new example_clock"
    unfolding example_clock_def by (intro clock_later.intros)
  from drain_until_exact[OF this, of 5 "fst (drain_until 5 example_clock)" "snd (drain_until 5 example_clock)"]
  show ?thesis by simp
qed

text \<open>Preloading a periodic event with a positive period returns, and adds one event at each of
  the times first, first + period, ... up to and including the limit; with period zero and a first
  time within the limit it never returns.\<close>

theorem schedule_periodic_exact:
  assumes "until + period \<le> DURATION_MAX" and "first \<le> until"
  shows "case schedule_periodic kind first period until c of
     None \<Rightarrow> period = 0
   | Some c' \<Rightarrow> 0 < period \<and>
       image_mset ev_at (mset (vc_events c')) =
       image_mset ev_at (mset (vc_events c)) + mset (periodic_times first period until)"
proof (cases "period = 0")
  case True
  have "schedule_periodic kind first period until c = None"
    using schedule_periodic_zero[of kind first period until c] True assms(2)
    by (cases "schedule_periodic kind first period until c") auto
  then show ?thesis using True by simp
next
  case False
  then show ?thesis using schedule_periodic_returns[of period until kind first c] assms(1) scheduled_all_times
    by simp
qed

theorem schedule_periodic_exact_witness:
  "case schedule_periodic EvHeartbeat 0 10 25 virtual_clock_new of
     None \<Rightarrow> (10 :: nat) = 0
   | Some c' \<Rightarrow> 0 < (10 :: nat) \<and> image_mset ev_at (mset (vc_events c')) = {# 0, 10, 20 #}"
proof -
  have "(25 :: nat) + 10 \<le> DURATION_MAX" by (simp add: DURATION_MAX_def NANOS_PER_SEC_def)
  from schedule_periodic_exact[OF this, where first = 0 and kind = EvHeartbeat and c = virtual_clock_new] show ?thesis
    by (simp add: virtual_clock_new_def periodic_times_def numeral_2_eq_2 split: option.splits)
qed

end
