(* ===== verification/Sim_Physics.thy ===== *)
theory Sim_Physics
  imports Sim_Compose Sim_Clock
begin

text \<open>
  The dynamics of the simulated device (\<^verbatim>\<open>src/sim/physics.rs\<close>, \<^verbatim>\<open>src/sim/derived.rs\<close>): frequency scaling,
  heating and cache growth, injections from outside, derived fields, and one step of all of them.
  An error or a panic ends the run; what it leaves of the state is not modelled.
\<close>

section \<open>Derived fields\<close>

definition DERIVED_DT :: f64 where
  "DERIVED_DT = to_f64 (5 / 100)"

fun derive_loop ::
  "('n, 'c) evalexpr \<Rightarrow> math_lib \<Rightarrow> (string \<times> 'n derived_expr) list \<Rightarrow> physical_state \<Rightarrow> 'c \<Rightarrow>
   sim_error + physical_state \<times> 'c" where
  "derive_loop E M [] s ctx = Inr (s, ctx)"
| "derive_loop E M ((name, d) # ds) s ctx =
     (case eval_float E (tree (de_expr d)) ctx of
        Inr new_val \<Rightarrow>
          (let cur = (case get_f64 s name of Some x \<Rightarrow> x | None \<Rightarrow> Fin 0);
               applied = lag_step M cur new_val (de_tau_s d) DERIVED_DT
           in case ctx_set_f64 E name applied ctx of
                Inl e \<Rightarrow> Inl (SimPanic ''set_f64 should not fail'')
              | Inr ctx' \<Rightarrow> derive_loop E M ds (fst (set_f64 name applied s)) ctx')
      | Inl e \<Rightarrow>
          (case eval_string E (tree (de_expr d)) ctx of
             Inr _ \<Rightarrow> derive_loop E M ds s ctx
           | Inl _ \<Rightarrow> Inl (SimExpr (''derived.'' @ name) e)))"

definition derived_evaluate ::
  "('n, 'c) evalexpr \<Rightarrow> math_lib \<Rightarrow> physical_state \<Rightarrow> engine_model \<Rightarrow> 'n scenario_config \<Rightarrow> 'c \<Rightarrow>
   sim_error + physical_state \<times> 'c" where
  "derived_evaluate E M s eng cfg ctx =
     (case physical_bind E s ctx of
        Inl e \<Rightarrow> Inl (SimPanic ''set_value should not fail'')
      | Inr ctx1 \<Rightarrow>
     (case engine_bind E eng ctx1 of
        Inl e \<Rightarrow> Inl (SimPanic ''set_value should not fail'')
      | Inr ctx2 \<Rightarrow> derive_loop E M (sc_derived cfg) s ctx2))"

section \<open>Frequency scaling\<close>

text \<open>The clamp of the standard library panics when its bounds are not ordered.\<close>

definition checked_clamp :: "f64 \<Rightarrow> f64 \<Rightarrow> f64 \<Rightarrow> sim_error + f64" where
  "checked_clamp x lo hi =
     (if fp_le lo hi then Inr (fp_clamp x lo hi) else Inl (SimPanic ''min > max, or either was NaN''))"

definition dvfs_target_freq :: "f64 \<Rightarrow> f64 \<Rightarrow> f64 \<Rightarrow> f64 \<Rightarrow> f64 \<Rightarrow> f64 \<Rightarrow> sim_error + f64" where
  "dvfs_target_freq t soft hard k min_freq max_freq =
     (if fp_lt t soft then Inr max_freq
      else if fp_ge t hard then Inr min_freq
      else case checked_clamp (sub64 (Fin 1) (div64 (mul64 k (sub64 t soft)) (sub64 hard soft)))
                  (div64 min_freq max_freq) (Fin 1) of
             Inl e \<Rightarrow> Inl e
           | Inr ratio \<Rightarrow> Inr (mul64 max_freq ratio))"

definition dvfs_update ::
  "math_lib \<Rightarrow> dvfs_config \<Rightarrow> f64 \<Rightarrow> physical_state \<Rightarrow> sim_error + physical_state" where
  "dvfs_update M dv dt_s s =
     (let c = dvfs_cpu dv; g = dvfs_gpu dv in
      case dvfs_target_freq (ps_cpu_cluster_thermal_c s) (soft_threshold_c c) (hard_threshold_c c) (k_thermal c)
             (ps_cpu_min_freq_mhz s) (ps_cpu_max_freq_mhz s) of
        Inl e \<Rightarrow> Inl e
      | Inr cpu_target \<Rightarrow>
          (let s1 = s\<lparr>ps_cpu_freq_mhz := lag_step M (ps_cpu_freq_mhz s) cpu_target (dv_tau_s c) dt_s\<rparr> in
           case dvfs_target_freq (ps_gpu_cluster_thermal_c s1) (soft_threshold_c g) (hard_threshold_c g) (k_thermal g)
                  (ps_gpu_min_freq_mhz s1) (ps_gpu_max_freq_mhz s1) of
             Inl e \<Rightarrow> Inl e
           | Inr gpu_target \<Rightarrow>
               Inr (s1\<lparr>ps_gpu_freq_mhz := lag_step M (ps_gpu_freq_mhz s1) gpu_target (dv_tau_s g) dt_s\<rparr>)))"

section \<open>Heating and cache growth\<close>

definition heating_coeff :: "cluster_thermal_dynamics \<Rightarrow> string \<Rightarrow> f64 \<Rightarrow> f64" where
  "heating_coeff d key def_val = (case map_of (heating d) key of Some v \<Rightarrow> v | None \<Rightarrow> def_val)"

definition target_thermal :: "math_lib \<Rightarrow> cluster_thermal_dynamics \<Rightarrow> f64 \<Rightarrow> f64 \<Rightarrow> f64 \<Rightarrow> f64 \<Rightarrow> f64 \<Rightarrow> f64" where
  "target_thermal M d coeff load freq max_freq freq_exp =
     add64 (add64 (baseline d) (mul64 coeff load))
       (mul64 (fp_max (sub64 (m_powf M (div64 freq max_freq) freq_exp) (to_f64 (1 / 2))) (Fin 0)) (Fin 20))"

definition passive_thermal ::
  "math_lib \<Rightarrow> 'n passive_dynamics_config \<Rightarrow> f64 \<Rightarrow> physical_state \<Rightarrow> physical_state" where
  "passive_thermal M pd dt_s s =
     (let cpu = pd_cpu_cluster pd; gpu = pd_gpu_cluster pd;
          cpu_target = target_thermal M cpu (heating_coeff cpu ''engine_cpu_pct_coeff'' (to_f64 (5 / 100)))
            (add64 (ps_engine_cpu_pct s) (ps_external_cpu_pct s)) (ps_cpu_freq_mhz s) (ps_cpu_max_freq_mhz s)
            (heating_coeff cpu ''cpu_freq_mhz_exp'' (to_f64 (16 / 10)));
          gpu_target = target_thermal M gpu (heating_coeff gpu ''engine_gpu_pct_coeff'' (to_f64 (9 / 100)))
            (add64 (ps_engine_gpu_pct s) (ps_external_gpu_pct s)) (ps_gpu_freq_mhz s) (ps_gpu_max_freq_mhz s)
            (heating_coeff gpu ''gpu_freq_mhz_exp'' (to_f64 (14 / 10)));
          new_cpu = lag_step M (ps_cpu_cluster_thermal_c s) cpu_target (ct_tau_s cpu) dt_s;
          new_gpu = lag_step M (ps_gpu_cluster_thermal_c s) gpu_target (ct_tau_s gpu) dt_s;
          c2g = cpu_to_gpu (pd_coupling pd); g2c = gpu_to_cpu (pd_coupling pd);
          gap = sub64 new_cpu new_gpu;
          cpu1 = sub64 new_cpu (mul64 (mul64 c2g gap) dt_s);
          gpu1 = add64 new_gpu (mul64 (mul64 c2g gap) dt_s);
          gap2 = sub64 new_gpu new_cpu;
          cpu2 = add64 cpu1 (mul64 (mul64 g2c gap2) dt_s);
          gpu2 = sub64 gpu1 (mul64 (mul64 g2c gap2) dt_s)
      in s\<lparr>ps_cpu_cluster_thermal_c := cpu2, ps_gpu_cluster_thermal_c := gpu2\<rparr>)"

definition kv_growth :: "'n kv_cache_growth \<Rightarrow> engine_model \<Rightarrow> f64 \<Rightarrow> physical_state \<Rightarrow> physical_state" where
  "kv_growth grow eng dt_s s =
     (if em_phase eng = ''decode'' \<or> em_phase eng = ''prefill'' then
        (case map_of (growth_per_token grow) (ps_kv_dtype s) of
           None \<Rightarrow> s
         | Some bytes_per_token \<Rightarrow>
             (let tokens_per_dt = (if fp_gt (ps_throughput_tps s) (Fin 0) then mul64 (ps_throughput_tps s) dt_s else Fin 1);
                  growth = mul64 (f64_of_u64 bytes_per_token) tokens_per_dt
              in s\<lparr>ps_kv_cache_bytes := fp_min (add64 (ps_kv_cache_bytes s) growth) (ps_kv_cache_capacity_bytes s)\<rparr>))
      else s)"

definition passive_dynamics ::
  "math_lib \<Rightarrow> engine_model \<Rightarrow> 'n scenario_config \<Rightarrow> f64 \<Rightarrow> physical_state \<Rightarrow> physical_state" where
  "passive_dynamics M eng cfg dt_s s =
     kv_growth (pd_kv_cache (sc_passive_dynamics cfg)) eng dt_s (passive_thermal M (sc_passive_dynamics cfg) dt_s s)"

section \<open>Injections\<close>

definition in_window :: "external_injection \<Rightarrow> f64 \<Rightarrow> bool" where
  "in_window ij now_s = (fp_ge now_s (t_start ij) \<and> fp_lt now_s (add64 (t_start ij) (inj_duration ij)))"

definition injection_delta :: "external_injection \<Rightarrow> f64 option" where
  "injection_delta ij = (case inj_delta ij of Some d \<Rightarrow> Some d | None \<Rightarrow> inj_delta_mb ij)"

definition apply_injection ::
  "math_lib \<Rightarrow> f64 \<Rightarrow> f64 \<Rightarrow> external_injection \<Rightarrow> physical_state \<Rightarrow> physical_state" where
  "apply_injection M now_s dt_s ij s =
     (if \<not> in_window ij now_s then s
      else case injection_delta ij of
        None \<Rightarrow> s
      | Some delta \<Rightarrow>
          if inj_op ij = ''add'' then
            (case get_f64 s (inj_var ij) of
               None \<Rightarrow> s
             | Some cur \<Rightarrow>
                 (let target = add64 cur delta;
                      new_val = (if fp_gt (inj_tau_s ij) (Fin 0) then lag_step M cur target (inj_tau_s ij) dt_s else target)
                  in fst (set_f64 (inj_var ij) new_val s)))
          else if inj_op ij = ''set'' then
            (let new_val = (if fp_gt (inj_tau_s ij) (Fin 0)
                            then (case get_f64 s (inj_var ij) of
                                    Some cur \<Rightarrow> lag_step M cur delta (inj_tau_s ij) dt_s
                                  | None \<Rightarrow> delta)
                            else delta)
             in fst (set_f64 (inj_var ij) new_val s))
          else s)"

definition external_injection_apply ::
  "math_lib \<Rightarrow> external_injection list \<Rightarrow> f64 \<Rightarrow> f64 \<Rightarrow> physical_state \<Rightarrow> physical_state" where
  "external_injection_apply M injs now_s dt_s s = fold (apply_injection M now_s dt_s) injs s"

section \<open>One step\<close>

definition physics_step ::
  "('n, 'c) evalexpr \<Rightarrow> math_lib \<Rightarrow> engine_model \<Rightarrow> 'n scenario_config \<Rightarrow> virtual_clock \<Rightarrow> duration \<Rightarrow>
   physical_state \<Rightarrow> 'c \<Rightarrow> sim_error + physical_state \<times> 'c" where
  "physics_step E M eng cfg clk dt s ctx =
     (let now_s = now_secs clk; dt_s = as_secs_f64 dt in
      case dvfs_update M (sc_dvfs cfg) dt_s s of
        Inl e \<Rightarrow> Inl e
      | Inr s1 \<Rightarrow>
          (let s2 = passive_dynamics M eng cfg dt_s s1;
               s3 = external_injection_apply M (sc_external_injections cfg) now_s dt_s s2
           in case apply_actions E M s3 eng cfg dt_s ctx of
                Inl e \<Rightarrow> Inl e
              | Inr (s4, ctx1) \<Rightarrow> derived_evaluate E M s4 eng cfg ctx1))"

text \<open>A duration from seconds: nothing when the seconds are negative, not a number or too many.\<close>

definition duration_from_secs_f64 :: "f64 \<Rightarrow> duration option" where
  "duration_from_secs_f64 x =
     (case x of
        Fin q \<Rightarrow> if 0 \<le> q \<and> nat (rne (q * 1000000000)) \<le> DURATION_MAX then Some (nat (rne (q * 1000000000))) else None
      | _ \<Rightarrow> None)"

definition step_raw ::
  "('n, 'c) evalexpr \<Rightarrow> math_lib \<Rightarrow> engine_model \<Rightarrow> 'n scenario_config \<Rightarrow> f64 \<Rightarrow> f64 \<Rightarrow>
   physical_state \<Rightarrow> 'c \<Rightarrow> sim_error + physical_state \<times> 'c" where
  "step_raw E M eng cfg now_s dt_s s ctx =
     (case (duration_from_secs_f64 now_s, duration_from_secs_f64 dt_s) of
        (Some now, Some dt) \<Rightarrow>
          (case advance now virtual_clock_new of
             Inl e \<Rightarrow> Inl (SimPanic e)
           | Inr clk \<Rightarrow> physics_step E M eng cfg clk dt s ctx)
      | _ \<Rightarrow> Inl (SimPanic ''can not convert float seconds to Duration''))"

section \<open>Facts\<close>

lemma fp_min_le2: "b \<noteq> NaN \<Longrightarrow> fp_le (fp_min a b) b"
  by (auto simp: fp_min_def dest: fp_linear intro: fp_lt_imp_le)

lemma kv_growth_bounded:
  assumes "fp_le (ps_kv_cache_bytes s) (ps_kv_cache_capacity_bytes s)"
  shows "fp_le (ps_kv_cache_bytes (kv_growth grow eng dt_s s)) (ps_kv_cache_capacity_bytes (kv_growth grow eng dt_s s))"
proof -
  have "ps_kv_cache_capacity_bytes s \<noteq> NaN" using assms by (cases "ps_kv_cache_capacity_bytes s") auto
  then show ?thesis using assms by (simp add: kv_growth_def Let_def fp_min_le2 split: option.splits)
qed

lemma kv_growth_frame:
  "\<exists>b. kv_growth grow eng dt_s s = s\<lparr>ps_kv_cache_bytes := b\<rparr>"
proof (cases "kv_growth grow eng dt_s s = s")
  case True
  then have "kv_growth grow eng dt_s s = s\<lparr>ps_kv_cache_bytes := ps_kv_cache_bytes s\<rparr>" by simp
  then show ?thesis ..
next
  case False
  then show ?thesis by (auto simp: kv_growth_def Let_def split: if_splits option.splits)
qed

lemma apply_injection_other: "inj_var ij \<noteq> d \<Longrightarrow> get_f64 (apply_injection M now_s dt_s ij s) d = get_f64 s d"
  by (auto simp: apply_injection_def Let_def get_f64_set_f64 split: option.splits)

lemma apply_injection_dtype: "ps_kv_dtype (apply_injection M now_s dt_s ij s) = ps_kv_dtype s"
  by (auto simp: apply_injection_def Let_def split: option.splits)

lemma injections_dtype: "ps_kv_dtype (external_injection_apply M injs now_s dt_s s) = ps_kv_dtype s"
  unfolding external_injection_apply_def by (induction injs arbitrary: s) (simp_all add: apply_injection_dtype)

lemma injections_outside:
  assumes "list_all (\<lambda>ij. in_window ij now_s \<longrightarrow> inj_var ij \<noteq> d) injs"
  shows "get_f64 (external_injection_apply M injs now_s dt_s s) d = get_f64 s d"
  unfolding external_injection_apply_def using assms
proof (induction injs arbitrary: s)
  case (Cons ij injs)
  have "get_f64 (apply_injection M now_s dt_s ij s) d = get_f64 s d"
  proof (cases "in_window ij now_s")
    case True
    then show ?thesis using Cons.prems by (simp add: apply_injection_other)
  qed (simp add: apply_injection_def)
  then show ?case using Cons by simp
qed simp

text \<open>The lag moves a value towards its target, never away from it.\<close>

lemma fp_mul_nonneg:
  assumes "fp_le (Fin 0) a" and "fp_le (Fin 0) b" and "is_finite a" and "is_finite b"
  shows "fp_le (Fin 0) (mul64 a b)"
proof -
  obtain x y where "a = Fin x" "b = Fin y" using assms by (cases a; cases b) auto
  then show ?thesis using assms to_fmt_mono[of 0 "x * y" 53 "-1074" 1024] by simp
qed

lemma sub64_sign:
  assumes "is_finite a" and "is_finite b"
  shows "fp_le b a \<Longrightarrow> fp_le (Fin 0) (sub64 a b)" and "fp_le a b \<Longrightarrow> fp_le (sub64 a b) (Fin 0)"
proof -
  obtain x y where xy: "a = Fin x" "b = Fin y" using assms by (cases a; cases b) auto
  show "fp_le b a \<Longrightarrow> fp_le (Fin 0) (sub64 a b)"
    using xy to_fmt_mono[of 0 "x - y" 53 "-1074" 1024] by (simp add: fp_sub_def)
  show "fp_le a b \<Longrightarrow> fp_le (sub64 a b) (Fin 0)"
    using xy to_fmt_mono[of "x - y" 0 53 "-1074" 1024] by (simp add: fp_sub_def)
qed

lemma lag_step_direction:
  assumes "is_f64 cur" and "is_finite cur" and "is_finite target" and "is_finite (sub64 target cur)"
    and "fp_le (Fin 0) (sub64 (Fin 1) (m_exp M (div64 (fp_neg dt_s) tau_s)))"
    and "is_finite (sub64 (Fin 1) (m_exp M (div64 (fp_neg dt_s) tau_s)))"
  shows "fp_le cur target \<Longrightarrow> fp_le cur (lag_step M cur target tau_s dt_s)"
    and "fp_le target cur \<Longrightarrow> fp_le (lag_step M cur target tau_s dt_s) cur"
proof -
  define k where "k = sub64 (Fin 1) (m_exp M (div64 (fp_neg dt_s) tau_s))"
  obtain x where x: "cur = Fin x" "to_f64 x = Fin x" using assms(1,2) by (cases cur) auto
  obtain d where d: "sub64 target cur = Fin d" using assms(4) by (cases "sub64 target cur") auto
  obtain q where q: "k = Fin q" using assms(6) by (cases k) (auto simp: k_def)
  have q0: "0 \<le> q" using assms(5) q by (simp add: k_def)
  have eq: "lag_step M cur target tau_s dt_s = (if fp_le tau_s (Fin 0) then target else add64 cur (to_f64 (d * q)))"
    using d q by (simp add: lag_step_def k_def [symmetric])
  have up: "fp_le cur (add64 cur v)" if "fp_le (Fin 0) v" for v
  proof (cases v)
    case (Fin w)
    then show ?thesis using that x to_fmt_mono[of x "x + w" 53 "-1074" 1024] by simp
  qed (use that x in simp_all)
  have down: "fp_le (add64 cur v) cur" if "fp_le v (Fin 0)" for v
  proof (cases v)
    case (Fin w)
    then show ?thesis using that x to_fmt_mono[of "x + w" x 53 "-1074" 1024] by simp
  qed (use that x in simp_all)
  {
    assume le: "fp_le cur target"
    then have "0 \<le> d" using sub64_sign(1)[OF assms(3,2)] d by simp
    then have "fp_le (Fin 0) (to_f64 (d * q))" using q0 to_fmt_mono[of 0 "d * q" 53 "-1074" 1024] by simp
    then show "fp_le cur (lag_step M cur target tau_s dt_s)" using le up eq by simp
  next
    assume le: "fp_le target cur"
    then have "d \<le> 0" using sub64_sign(2)[OF assms(3,2)] d by simp
    then have "fp_le (to_f64 (d * q)) (Fin 0)"
      using q0 to_fmt_mono[of "d * q" 0 53 "-1074" 1024] by (simp add: mult_nonpos_nonneg)
    then show "fp_le (lag_step M cur target tau_s dt_s) cur" using le down eq by simp
  }
qed

section \<open>What a step leaves alone\<close>

text \<open>Nothing that is going on at this time writes the field: no open injection, no effect of an active
  action, no effect of an interaction whose actions are all active, no derived field.  Actions and
  interactions that mention the field and are not active do not count.\<close>

definition not_written :: "'n scenario_config \<Rightarrow> engine_model \<Rightarrow> f64 \<Rightarrow> string \<Rightarrow> bool" where
  "not_written cfg eng now_s d =
     (list_all (\<lambda>ij. in_window ij now_s \<longrightarrow> inj_var ij \<noteq> d) (sc_external_injections cfg) \<and>
      list_all (\<lambda>n. case map_of (sc_actions cfg) n of
          Some spec \<Rightarrow> d \<notin> fst ` set (as_effects spec) | None \<Rightarrow> True) (em_active_actions eng) \<and>
      list_all (\<lambda>term. d \<notin> fst ` set (it_effects term)) (active_terms (sc_interactions cfg) (em_active_actions eng)) \<and>
      d \<notin> fst ` set (sc_derived cfg))"

lemma fold_id: "(\<And>x. x \<in> set xs \<Longrightarrow> f x v = v) \<Longrightarrow> fold f xs v = v"
  by (induction xs) auto

lemma spec_view_not_written:
  assumes "not_written cfg eng now_s d"
  shows "spec_view E ctx cfg (em_active_actions eng) d = (None, None, None)"
proof -
  have a: "map_of (as_effects spec) d = None"
    if spec: "spec \<in> set (active_specs E ctx (sc_actions cfg) (em_active_actions eng))" for spec
  proof -
    obtain n where n: "n \<in> set (em_active_actions eng)" "map_of (sc_actions cfg) n = Some spec"
      using spec by (auto simp: active_specs_def map_filter_def)
    have "case map_of (sc_actions cfg) n of Some spec \<Rightarrow> d \<notin> fst ` set (as_effects spec) | None \<Rightarrow> True"
      using assms n(1) unfolding not_written_def list_all_iff by blast
    then show ?thesis using n(2) by (simp add: map_of_eq_None_iff)
  qed
  have i: "map_of (it_effects term) d = None"
    if "term \<in> set (active_terms (sc_interactions cfg) (em_active_actions eng))" for "term"
    using that assms by (auto simp: not_written_def list_all_iff map_of_eq_None_iff)
  show ?thesis unfolding spec_view_def Let_def by (subst fold_id, simp add: a, rule fold_id, simp add: i)
qed

lemma apply_actions_not_written:
  assumes "effects_distinct cfg" and "apply_actions E M s eng cfg dt_s ctx = Inr (s', ctx')" and "not_written cfg eng now_s d"
  shows "get_f64 s' d = get_f64 s d"
proof (cases "em_active_actions eng = []")
  case True
  then show ?thesis using assms(2) by (simp add: apply_actions_def)
next
  case False
  from apply_actions_field[OF assms(1,2) False, of d] show ?thesis
    by (cases "get_f64 s d") (simp_all add: spec_view_not_written[OF assms(3)] spec_field_def)
qed

lemma derive_loop_not_written:
  assumes "derive_loop E M ds s ctx = Inr (s', ctx')" and "d \<notin> fst ` set ds"
  shows "get_f64 s' d = get_f64 s d"
  using assms
proof (induction E M ds s ctx rule: derive_loop.induct)
  case (2 E M name dd ds s ctx)
  then show ?case by (auto simp: Let_def get_f64_set_f64 split: sum.splits)
qed simp

lemma derived_not_written:
  assumes "derived_evaluate E M s eng cfg ctx = Inr (s', ctx')" and "not_written cfg eng now_s d"
  shows "get_f64 s' d = get_f64 s d"
  using assms derive_loop_not_written[of E M "sc_derived cfg" s _ s' ctx' d]
  by (auto simp: derived_evaluate_def not_written_def split: sum.splits)

lemma physics_step_not_written:
  assumes "physics_step E M eng cfg clk dt s ctx = Inr (s', ctx')" and "effects_distinct cfg"
  obtains s1 where "dvfs_update M (sc_dvfs cfg) (as_secs_f64 dt) s = Inr s1"
    and "\<And>d. not_written cfg eng (now_secs clk) d \<Longrightarrow>
      get_f64 s' d = get_f64 (passive_dynamics M eng cfg (as_secs_f64 dt) s1) d"
proof -
  obtain s1 s4 ctx1 where s1: "dvfs_update M (sc_dvfs cfg) (as_secs_f64 dt) s = Inr s1"
    and s4: "apply_actions E M (external_injection_apply M (sc_external_injections cfg) (now_secs clk) (as_secs_f64 dt)
        (passive_dynamics M eng cfg (as_secs_f64 dt) s1)) eng cfg (as_secs_f64 dt) ctx = Inr (s4, ctx1)"
    and s': "derived_evaluate E M s4 eng cfg ctx1 = Inr (s', ctx')"
    using assms(1) by (auto simp: physics_step_def Let_def split: sum.splits prod.splits)
  have "get_f64 s' d = get_f64 (passive_dynamics M eng cfg (as_secs_f64 dt) s1) d" if "not_written cfg eng (now_secs clk) d" for d
    using derived_not_written[OF s' that] apply_actions_not_written[OF assms(2) s4 that] that
      injections_outside[of "now_secs clk" d "sc_external_injections cfg" M "as_secs_f64 dt"]
    by (simp add: not_written_def)
  then show ?thesis using that s1 by blast
qed

lemma dvfs_update_kv:
  "dvfs_update M dv dt_s s = Inr s1 \<Longrightarrow>
   ps_kv_cache_bytes s1 = ps_kv_cache_bytes s \<and> ps_kv_cache_capacity_bytes s1 = ps_kv_cache_capacity_bytes s"
  by (auto simp: dvfs_update_def Let_def split: sum.splits)

lemma passive_thermal_kv:
  "ps_kv_cache_bytes (passive_thermal M pd dt_s s) = ps_kv_cache_bytes s \<and>
   ps_kv_cache_capacity_bytes (passive_thermal M pd dt_s s) = ps_kv_cache_capacity_bytes s"
  by (simp add: passive_thermal_def Let_def)

lemma get_kv_bytes: "get_f64 s ''kv_cache_bytes'' = Some (ps_kv_cache_bytes s)"
  and get_kv_capacity: "get_f64 s ''kv_cache_capacity_bytes'' = Some (ps_kv_cache_capacity_bytes s)"
  by (simp_all add: get_f64_def phys_fields_def)

section \<open>Properties\<close>

text \<open>C33: A step of the simulated device keeps the cache within its capacity, however much it grows,
  when nothing active at that time writes the size or the capacity of the cache: no injection that is
  open, no effect of an action or an interaction that is active, and no derived field.\<close>

theorem step_keeps_cache_within_capacity:
  assumes "physics_step E M eng cfg clk dt s ctx = Inr (s', ctx')" and "effects_distinct cfg"
    and "not_written cfg eng (now_secs clk) ''kv_cache_bytes''" and "not_written cfg eng (now_secs clk) ''kv_cache_capacity_bytes''"
    and "fp_le (ps_kv_cache_bytes s) (ps_kv_cache_capacity_bytes s)"
  shows "fp_le (ps_kv_cache_bytes s') (ps_kv_cache_capacity_bytes s')"
proof -
  obtain s1 where s1: "dvfs_update M (sc_dvfs cfg) (as_secs_f64 dt) s = Inr s1"
    and g: "\<And>d. not_written cfg eng (now_secs clk) d \<Longrightarrow>
      get_f64 s' d = get_f64 (passive_dynamics M eng cfg (as_secs_f64 dt) s1) d"
    using physics_step_not_written[OF assms(1,2)] by blast
  have "fp_le (ps_kv_cache_bytes (passive_dynamics M eng cfg (as_secs_f64 dt) s1))
      (ps_kv_cache_capacity_bytes (passive_dynamics M eng cfg (as_secs_f64 dt) s1))"
    unfolding passive_dynamics_def using dvfs_update_kv[OF s1] assms(5)
    by (intro kv_growth_bounded) (simp add: passive_thermal_kv)
  then show ?thesis using g[OF assms(3)] g[OF assms(4)] by (simp add: get_kv_bytes get_kv_capacity)
qed

text \<open>A scenario with an eviction that writes the size of the cache, alone and together with another
  action, as those of the repository have it; here another action runs.\<close>

definition evict_scenario :: "string scenario_config" where
  "evict_scenario = example_scenario
     \<lparr> sc_actions := sc_actions example_scenario @
         [(''Evict'', \<lparr> as_when = None, as_effects = [(''kv_cache_bytes'', EffScale (Literal (Fin (1/2))) (Fin 0))] \<rparr>)],
       sc_interactions :=
         [\<lparr> it_actions = [''hot'', ''Evict''], it_effects = [(''kv_cache_bytes'', EffSetTau (Fin (3/2)))] \<rparr>] \<rparr>"

theorem step_keeps_cache_within_capacity_witness:
  "\<exists>s' ctx'. physics_step example_lang example_math (example_engine [''hot'']) evict_scenario
       virtual_clock_new 50000000 (physical_from_config example_initial) Map.empty = Inr (s', ctx') \<and>
     fp_le (ps_kv_cache_bytes s') (ps_kv_cache_capacity_bytes s')"
proof -
  let ?s = "physical_from_config example_initial" and ?e = "example_engine [''hot'']"
  have dv: "\<exists>s1. dvfs_update M (sc_dvfs evict_scenario) dt ?s = Inr s1" for M dt
    by (simp add: dvfs_update_def dvfs_target_freq_def Let_def evict_scenario_def example_defs physical_from_config_def)
  have der: "\<exists>r. derived_evaluate example_lang M s ?e evict_scenario c = Inr r" for M s c
    by (simp add: derived_evaluate_def example_bind_eval evict_scenario_def example_defs ctx_set_f64_def Let_def)
  have act: "\<exists>r. apply_actions example_lang M s ?e evict_scenario dt c = Inr r" for M s dt c
    by (simp add: apply_actions_def example_bind_eval)
  obtain s1 where s1: "dvfs_update example_math (sc_dvfs evict_scenario) (as_secs_f64 50000000) ?s = Inr s1"
    using dv by blast
  let ?s2 = "passive_dynamics example_math ?e evict_scenario (as_secs_f64 50000000) s1"
  have inj: "external_injection_apply example_math (sc_external_injections evict_scenario) t dt s = s" for t dt s
    by (simp add: external_injection_apply_def evict_scenario_def example_scenario_def)
  obtain s4 c4 where a: "apply_actions example_lang example_math ?s2 ?e evict_scenario (as_secs_f64 50000000) Map.empty = Inr (s4, c4)"
    using act by (metis surj_pair)
  obtain s' ctx' where d: "derived_evaluate example_lang example_math s4 ?e evict_scenario c4 = Inr (s', ctx')"
    using der by (metis surj_pair)
  have step: "physics_step example_lang example_math ?e evict_scenario virtual_clock_new 50000000 ?s Map.empty = Inr (s', ctx')"
    by (simp add: physics_step_def s1 inj a d)
  have dist: "effects_distinct evict_scenario"
    by (simp add: effects_distinct_def evict_scenario_def example_scenario_def)
  have u: "not_written evict_scenario ?e t ''kv_cache_bytes''" "not_written evict_scenario ?e t ''kv_cache_capacity_bytes''" for t
    by (simp_all add: not_written_def evict_scenario_def example_scenario_def active_terms_def)
  have "fp_le (ps_kv_cache_bytes ?s) (ps_kv_cache_capacity_bytes ?s)"
    by (simp add: physical_from_config_def example_initial_def f64_of_u64_mono)
  from step_keeps_cache_within_capacity[OF step dist u this] step show ?thesis by blast
qed

text \<open>Derived fields are evaluated in the order in which the hash map of the configuration yields
  them, and a field that reads another derived field sees the new or the old value accordingly: the
  same scenario gives a time between tokens of 16 in one order and of 0 in the other.\<close>

lemma derived_order_matters:
  "\<exists>s' c t' c'.
     derived_evaluate example_lang M (physical_from_config example_initial) (engine_from_config example_initial)
       example_scenario Map.empty = Inr (s', c) \<and> ps_tbt_ms s' = Fin 16 \<and>
     derived_evaluate example_lang M (physical_from_config example_initial) (engine_from_config example_initial)
       (example_scenario\<lparr>sc_derived := rev (sc_derived example_scenario)\<rparr>) Map.empty = Inr (t', c') \<and>
     ps_tbt_ms t' = Fin 0"
  by (simp add: derived_evaluate_def example_bind_eval example_defs lag_step_def set_f64_def Let_def)

definition inverted_initial :: initial_state where
  "inverted_initial = example_initial\<lparr>in_cpu_min_freq_mhz := 8, in_cpu_cluster_thermal_c := Fin 90\<rparr>"

text \<open>A scenario whose least frequency is above its greatest passes the validation of its initial
  state, and a step panics whenever the temperature is between the two thresholds of the frequency
  scaling.\<close>

lemma inverted_frequencies_panic:
  "validate_scenario (example_scenario\<lparr>sc_initial_state := inverted_initial\<rparr>) = [] \<and>
   (\<exists>msg. physics_step E M eng (example_scenario\<lparr>sc_initial_state := inverted_initial\<rparr>) clk dt
      (physical_from_config inverted_initial) ctx = Inl (SimPanic msg))"
proof
  show "validate_scenario (example_scenario\<lparr>sc_initial_state := inverted_initial\<rparr>) = []"
    by (simp add: validate_scenario_def validate_kv_cache_capacity_def validate_device_memory_def
        validate_kv_token_capacity_def inverted_initial_def example_initial_def)
  have "div64 (f64_of_u32 8) (f64_of_u32 4) = Fin 2" by (simp add: f64_of_u32_def to_f64_numeral)
  then show "\<exists>msg. physics_step E M eng (example_scenario\<lparr>sc_initial_state := inverted_initial\<rparr>) clk dt
      (physical_from_config inverted_initial) ctx = Inl (SimPanic msg)"
    by (simp add: physics_step_def dvfs_update_def dvfs_target_freq_def checked_clamp_def Let_def example_defs
        inverted_initial_def physical_from_config_def)
qed

end
