(* ===== verification/Sim_Noise.thy ===== *)
theory Sim_Noise
  imports Sim_Physics "HOL-Library.AList"
begin

text \<open>
  Reproducible noise (\<^verbatim>\<open>src/sim/noise.rs\<close>): one random stream per key, seeded from the master seed and
  the key.  The generator is a parameter, and so are the logarithm, the root and the cosine.
\<close>

unbundle bit_operations_syntax

section \<open>Seeds\<close>

definition FNV_OFFSET :: u64 where "FNV_OFFSET = 14695981039346656037"
definition FNV_PRIME :: u64 where "FNV_PRIME = 1099511628211"

definition fnv_byte :: "u8 \<Rightarrow> u64 \<Rightarrow> u64" where
  "fnv_byte b hash = (hash XOR ucast b) * FNV_PRIME"

definition to_le_bytes :: "u64 \<Rightarrow> u8 list" where
  "to_le_bytes w = map (\<lambda>i. ucast (drop_bit (8 * i) w)) [0..<8]"

definition str_bytes :: "string \<Rightarrow> u8 list" where
  "str_bytes s = map (\<lambda>c. of_nat (of_char c)) s"

definition derive_stream_seed :: "u64 \<Rightarrow> string \<Rightarrow> u64" where
  "derive_stream_seed master_seed key = fold fnv_byte (str_bytes key) (fold fnv_byte (to_le_bytes master_seed) FNV_OFFSET)"

section \<open>Samples\<close>

record 'r generator =
  seed_from_u64 :: "u64 \<Rightarrow> 'r"
  next_u32 :: "'r \<Rightarrow> u32 \<times> 'r"

text \<open>Drawing until the number is not zero; nothing when that never happens.\<close>

partial_function (option) draw_nonzero :: "'r generator \<Rightarrow> 'r \<Rightarrow> (u32 \<times> 'r) option" where
  "draw_nonzero G r =
     (let (raw, r') = next_u32 G r in if raw \<noteq> 0 then Some (raw, r') else draw_nonzero G r')"

definition TAU :: f64 where
  "TAU = to_f64 (628318530717958647692528676655900576839433879875021 / 10 ^ 50)"

definition unit_of_u32 :: "u32 \<Rightarrow> f64" where
  "unit_of_u32 w = div64 (f64_of_u32 w) (f64_of_u32 (- 1))"

definition box_muller :: "math_lib \<Rightarrow> 'r generator \<Rightarrow> 'r \<Rightarrow> (f64 \<times> 'r) option" where
  "box_muller M G r =
     (case draw_nonzero G r of
        None \<Rightarrow> None
      | Some (raw, r1) \<Rightarrow>
          (let (raw2, r2) = next_u32 G r1;
               u1 = unit_of_u32 raw; u2 = unit_of_u32 raw2
           in Some (mul64 (m_sqrt M (mul64 (Fin (-2)) (m_ln M u1))) (m_cos M (mul64 TAU u2)), r2)))"

record 'r noise_rng =
  streams :: "(string \<times> 'r) list"
  master_seed :: u64

definition noise_rng_new :: "u64 \<Rightarrow> 'r noise_rng" where
  "noise_rng_new seed = \<lparr> streams = [], master_seed = seed \<rparr>"

definition gaussian ::
  "math_lib \<Rightarrow> 'r generator \<Rightarrow> string \<Rightarrow> f64 \<Rightarrow> 'r noise_rng \<Rightarrow> (f64 \<times> 'r noise_rng) option" where
  "gaussian M G key sigma n =
     (if fp_eq sigma (Fin 0) then Some (Fin 0, n)
      else
        (let r = (case map_of (streams n) key of
                    Some r \<Rightarrow> r
                  | None \<Rightarrow> seed_from_u64 G (derive_stream_seed (master_seed n) key))
         in case box_muller M G r of
              None \<Rightarrow> None
            | Some (z, r') \<Rightarrow> Some (mul64 z sigma, n\<lparr>streams := AList.update key r' (streams n)\<rparr>)))"

definition no_noise :: "'r noise_rng \<Rightarrow> f64" where
  "no_noise n = Fin 0"

definition maybe_create :: "'n scenario_config \<Rightarrow> 'r noise_rng option" where
  "maybe_create cfg = map_option noise_rng_new (sc_rng_seed cfg)"

section \<open>Independence of the streams\<close>

fun gaussians ::
  "math_lib \<Rightarrow> 'r generator \<Rightarrow> (string \<times> f64) list \<Rightarrow> 'r noise_rng \<Rightarrow> ((string \<times> f64) list \<times> 'r noise_rng) option" where
  "gaussians M G [] n = Some ([], n)"
| "gaussians M G ((key, sigma) # rs) n =
     (case gaussian M G key sigma n of
        None \<Rightarrow> None
      | Some (z, n') \<Rightarrow> map_option (apfst ((#) (key, z))) (gaussians M G rs n'))"

text \<open>The generator a key would use next.\<close>

definition stream_of :: "'r generator \<Rightarrow> string \<Rightarrow> 'r noise_rng \<Rightarrow> 'r" where
  "stream_of G key n =
     (case map_of (streams n) key of
        Some r \<Rightarrow> r
      | None \<Rightarrow> seed_from_u64 G (derive_stream_seed (master_seed n) key))"

lemma gaussian_stream:
  "gaussian M G key sigma n =
     (if fp_eq sigma (Fin 0) then Some (Fin 0, n)
      else case box_muller M G (stream_of G key n) of
             None \<Rightarrow> None
           | Some (z, r') \<Rightarrow> Some (mul64 z sigma, n\<lparr>streams := AList.update key r' (streams n)\<rparr>))"
  by (simp add: gaussian_def stream_of_def Let_def)

lemma stream_of_update:
  "stream_of G k (n\<lparr>streams := AList.update key r (streams n)\<rparr>) = (if k = key then r else stream_of G k n)"
  by (simp add: stream_of_def update_conv' split: option.split)

lemma gaussian_other:
  assumes "gaussian M G key sigma n = Some (z, n')" and "k \<noteq> key"
  shows "stream_of G k n' = stream_of G k n"
  using assms by (auto simp: gaussian_stream stream_of_update split: if_splits option.splits)

lemma gaussian_same:
  assumes "gaussian M G key sigma n = Some (z, n')" and "stream_of G key m = stream_of G key n"
  shows "\<exists>m'. gaussian M G key sigma m = Some (z, m') \<and> stream_of G key m' = stream_of G key n'"
  using assms by (auto simp: gaussian_stream stream_of_update split: if_splits option.splits)

lemma gaussians_filter:
  assumes "gaussians M G rs n = Some (zs, n')" and "stream_of G k m = stream_of G k n"
  shows "\<exists>m'. gaussians M G (filter (\<lambda>x. fst x = k) rs) m = Some (filter (\<lambda>x. fst x = k) zs, m')"
  using assms
proof (induction rs arbitrary: n m zs)
  case (Cons x rs)
  obtain key sigma where x: "x = (key, sigma)" by (cases x)
  obtain z n1 zs' where g: "gaussian M G key sigma n = Some (z, n1)" "gaussians M G rs n1 = Some (zs', n')"
    "zs = (key, z) # zs'"
    using Cons.prems(1) x by (auto split: option.splits)
  show ?case
  proof (cases "key = k")
    case True
    then obtain m1 where m1: "gaussian M G k sigma m = Some (z, m1)" "stream_of G k m1 = stream_of G k n1"
      using gaussian_same[OF g(1)] Cons.prems(2) by auto
    then obtain m' where "gaussians M G (filter (\<lambda>x. fst x = k) rs) m1 = Some (filter (\<lambda>x. fst x = k) zs', m')"
      using Cons.IH[OF g(2)] by auto
    then show ?thesis using m1 True x g(3) by auto
  next
    case False
    then have "stream_of G k m = stream_of G k n1" using gaussian_other[OF g(1)] Cons.prems(2) by simp
    from Cons.IH[OF g(2) this] show ?thesis using False x g(3) by auto
  qed
qed simp

section \<open>Properties\<close>

text \<open>C34: The samples drawn for a key depend only on the master seed and on the draws for that key:
  in any sequence of draws they are what the draws for that key alone give from a fresh generator
  with the same seed.\<close>

theorem noise_streams_independent:
  assumes "gaussians M G rs (noise_rng_new seed) = Some (zs, n')"
  shows "\<exists>m'. gaussians M G (filter (\<lambda>x. fst x = k) rs) (noise_rng_new seed) = Some (filter (\<lambda>x. fst x = k) zs, m')"
  using gaussians_filter[OF assms] by simp

definition counter_generator :: "u32 generator" where
  "counter_generator = \<lparr> seed_from_u64 = (\<lambda>s. 1), next_u32 = (\<lambda>r. (r, r + 1)) \<rparr>"

theorem noise_streams_independent_witness:
  "\<exists>zs n' m'. gaussians example_math counter_generator [(''a'', Fin 1), (''b'', Fin 1)] (noise_rng_new 7) = Some (zs, n') \<and>
     gaussians example_math counter_generator [(''a'', Fin 1)] (noise_rng_new 7) = Some (filter (\<lambda>x. fst x = ''a'') zs, m')"
proof -
  obtain zs n' where g: "gaussians example_math counter_generator [(''a'', Fin 1), (''b'', Fin 1)] (noise_rng_new 7) = Some (zs, n')"
    by (simp add: gaussian_def box_muller_def draw_nonzero.simps counter_generator_def noise_rng_new_def Let_def fp_eq_def)
  from noise_streams_independent[OF g, of "''a''"] show ?thesis using g by auto
qed

end
