(* ===== verification/Sim_Signal.thy ===== *)
theory Sim_Signal
  imports Sim_Noise Memory_Monitor Thermal_Monitor Compute_Monitor
begin

text \<open>
  What the simulated device reports (\<^verbatim>\<open>src/sim/signal.rs\<close>): the heartbeat of the engine and the four
  signals, with the levels of the production monitors.  The noise generator is threaded through;
  the value is nothing when a draw does not return.
\<close>

section \<open>Levels\<close>

datatype resource_level = RNormal | RWarning | RCritical

definition compute_level_from_usage :: "f64 \<Rightarrow> f64 \<Rightarrow> level" where
  "compute_level_from_usage cpu_pct gpu_pct = compute_level_from_pcts cpu_pct gpu_pct"

definition to_resource_level :: "level \<Rightarrow> resource_level" where
  "to_resource_level l = (case l of Normal \<Rightarrow> RNormal | Warning \<Rightarrow> RWarning | Critical \<Rightarrow> RCritical | Emergency \<Rightarrow> RCritical)"

section \<open>Noise\<close>

definition draw_noise ::
  "math_lib \<Rightarrow> 'r generator \<Rightarrow> string \<Rightarrow> f64 \<Rightarrow> 'r noise_rng option \<Rightarrow> (f64 \<times> 'r noise_rng option) option" where
  "draw_noise M G key sigma rng =
     (case rng of
        None \<Rightarrow> Some (Fin 0, None)
      | Some n \<Rightarrow> map_option (apsnd Some) (gaussian M G key sigma n))"

definition sigma_of :: "(noise_spec \<Rightarrow> f64 option) \<Rightarrow> (string \<times> noise_spec) list \<Rightarrow> string \<Rightarrow> f64" where
  "sigma_of sel specs key =
     (case map_of specs key of
        Some n \<Rightarrow> (case sel n of Some x \<Rightarrow> x | None \<Rightarrow> Fin 0)
      | None \<Rightarrow> Fin 0)"

section \<open>The heartbeat\<close>

text \<open>
  The sources compute levels, throughput, loads, cache use and engine state here and drop them all;
  what remains of that is the draws of noise.
\<close>

definition heartbeat_status :: engine_status where
  "heartbeat_status =
     \<lparr> kv_cache_bytes = 1024, kv_cache_budget_bytes = 4096, kv_cache_tokens = 32, tbt_ms = to_f32 (125 / 10),
       status_phase = PhaseDecode, status_state = EngineRunning \<rparr>"

definition derive_heartbeat ::
  "math_lib \<Rightarrow> 'r generator \<Rightarrow> physical_state \<Rightarrow> engine_model \<Rightarrow> 'n scenario_config \<Rightarrow> 'r noise_rng option \<Rightarrow>
   (engine_message \<times> 'r noise_rng option) option" where
  "derive_heartbeat M G s eng cfg rng =
     (let noise = hb_noise (obs_heartbeat (sc_observation cfg)) in
      case draw_noise M G ''hb.tps'' (sigma_of ns_sigma noise ''throughput_tps'') rng of
        None \<Rightarrow> None
      | Some (throughput_noise, rng1) \<Rightarrow>
     (case draw_noise M G ''hb.cpu'' (sigma_of ns_sigma noise ''self_cpu_pct'') rng1 of
        None \<Rightarrow> None
      | Some (cpu_noise, rng2) \<Rightarrow> Some (Heartbeat heartbeat_status, rng2)))"

section \<open>The signals\<close>

definition mb_to_bytes :: "f64 \<Rightarrow> f64" where
  "mb_to_bytes x = mul64 (mul64 x (Fin 1024)) (Fin 1024)"

definition smax0 :: "'l::len word \<Rightarrow> 'l word" where
  "smax0 w = (if sint w < 0 then 0 else w)"

definition derive_memory_signal ::
  "math_lib \<Rightarrow> 'r generator \<Rightarrow> physical_state \<Rightarrow> 'n scenario_config \<Rightarrow> 'r noise_rng option \<Rightarrow>
   (system_signal \<times> 'r noise_rng option) option" where
  "derive_memory_signal M G s cfg rng =
     (case draw_noise M G ''sig.mem''
             (sigma_of ns_sigma_mb (ssc_noise (obs_memory (obs_signals (sc_observation cfg)))) ''available_bytes'') rng of
        None \<Rightarrow> None
      | Some (noise_mb, rng1) \<Rightarrow>
          (let total_bytes = u64_of_f64 (mb_to_bytes (ps_device_memory_total_mb s));
               noise_bytes = i64_of_f64 (mb_to_bytes noise_mb);
               used_bytes = i64_of_f64 (mb_to_bytes (ps_device_memory_used_mb s));
               available_bytes = smax0 (total_bytes - used_bytes + noise_bytes);
               available_pct =
                 (if 0 < total_bytes
                  then mul64 (div64 (f64_of_u64 available_bytes) (f64_of_u64 total_bytes)) (Fin 100)
                  else Fin 100);
               level = memory_level_from_available_pct available_pct;
               reclaim =
                 (case level of
                    Normal \<Rightarrow> 0
                  | Warning \<Rightarrow> u64_of_f64 (mul64 (f64_of_u64 total_bytes) (to_f64 (5/100)))
                  | Critical \<Rightarrow> u64_of_f64 (mul64 (f64_of_u64 total_bytes) (to_f64 (10/100)))
                  | Emergency \<Rightarrow> u64_of_f64 (mul64 (f64_of_u64 total_bytes) (to_f64 (20/100))))
           in Some (MemoryPressure level available_bytes total_bytes reclaim, rng1)))"

definition sim_compute_recommendation :: "f64 \<Rightarrow> f64 \<Rightarrow> f64 \<Rightarrow> f64 \<Rightarrow> recommended_backend \<times> compute_reason" where
  "sim_compute_recommendation cpu_pct gpu_pct gpu_thermal_c warning_pct =
     (if Critical \<le> thermal_level_from_temp_c gpu_thermal_c then (Cpu, GpuBottleneck)
      else compute_recommendation cpu_pct gpu_pct warning_pct)"

definition derive_compute_signal ::
  "math_lib \<Rightarrow> 'r generator \<Rightarrow> physical_state \<Rightarrow> 'n scenario_config \<Rightarrow> 'r noise_rng option \<Rightarrow>
   (system_signal \<times> 'r noise_rng option) option" where
  "derive_compute_signal M G s cfg rng =
     (let cpu_usage = fp_min (add64 (ps_engine_cpu_pct s) (ps_external_cpu_pct s)) (Fin 100);
          gpu_usage = fp_min (add64 (ps_engine_gpu_pct s) (ps_external_gpu_pct s)) (Fin 100)
      in case draw_noise M G ''sig.cpu'' (to_f64 (1 / 2)) rng of
           None \<Rightarrow> None
         | Some (noise, rng1) \<Rightarrow>
             (let cpu_with_noise =
                    (case rng of None \<Rightarrow> cpu_usage | Some _ \<Rightarrow> fp_clamp (add64 cpu_usage noise) (Fin 0) (Fin 100));
                  (backend, reason) =
                    sim_compute_recommendation cpu_with_noise gpu_usage (ps_gpu_cluster_thermal_c s)
                      (cpu_warning_pct compute_monitor_config_default)
              in Some (ComputeGuidance (compute_level_from_usage cpu_with_noise gpu_usage) backend reason
                         cpu_with_noise gpu_usage, rng1)))"

definition derive_thermal_signal ::
  "math_lib \<Rightarrow> 'r generator \<Rightarrow> physical_state \<Rightarrow> 'n scenario_config \<Rightarrow> 'r noise_rng option \<Rightarrow>
   (system_signal \<times> 'r noise_rng option) option" where
  "derive_thermal_signal M G s cfg rng =
     (case draw_noise M G ''sig.therm''
             (div64 (sigma_of ns_sigma_mc (ssc_noise (obs_thermal (obs_signals (sc_observation cfg)))) ''temperature_mc'')
                (Fin 1000)) rng of
        None \<Rightarrow> None
      | Some (noise_c, rng1) \<Rightarrow>
          (let temp_c = add64 (ps_thermal_c s) noise_c;
               temperature_mc = i32_of_f64 (mul64 temp_c (Fin 1000));
               throttling_active = fp_ge (ps_thermal_c s) (soft_threshold_c (dvfs_cpu (sc_dvfs cfg)));
               throttle_ratio =
                 (if fp_gt (ps_cpu_max_freq_mhz s) (Fin 0)
                  then fp_clamp (div64 (ps_cpu_freq_mhz s) (ps_cpu_max_freq_mhz s)) (Fin 0) (Fin 1)
                  else Fin 1)
           in Some (ThermalAlert (thermal_level_from_temp_c temp_c) temperature_mc throttling_active throttle_ratio, rng1)))"

definition BASELINE_MW :: u32 where "BASELINE_MW = 5000"
definition WARNING_MW :: u32 where "WARNING_MW = 3000"
definition CRITICAL_MW :: u32 where "CRITICAL_MW = 1500"
definition EMERGENCY_MW :: u32 where "EMERGENCY_MW = 500"

definition derive_energy_signal ::
  "math_lib \<Rightarrow> 'r generator \<Rightarrow> physical_state \<Rightarrow> 'r noise_rng option \<Rightarrow> (system_signal \<times> 'r noise_rng option) option" where
  "derive_energy_signal M G s rng =
     (case draw_noise M G ''sig.energy'' (Fin 100) rng of
        None \<Rightarrow> None
      | Some (noise, rng1) \<Rightarrow>
          (let power_budget_mw = smax0 (BASELINE_MW + i32_of_f64 noise);
               thermal_lv = thermal_level_from_temp_c (ps_thermal_c s);
               (level, reason) =
                 (if thermal_lv = Emergency then (Emergency, ThermalPower)
                  else if Critical \<le> thermal_lv then (Critical, ThermalPower)
                  else (Normal, NoReason))
           in Some (EnergyConstraint level reason power_budget_mw, rng1)))"

definition derive_signal ::
  "math_lib \<Rightarrow> 'r generator \<Rightarrow> event_kind \<Rightarrow> physical_state \<Rightarrow> 'n scenario_config \<Rightarrow> 'r noise_rng option \<Rightarrow>
   (system_signal option \<times> 'r noise_rng option) option" where
  "derive_signal M G ev s cfg rng =
     (case ev of
        SignalMemory \<Rightarrow> map_option (apfst Some) (derive_memory_signal M G s cfg rng)
      | SignalCompute \<Rightarrow> map_option (apfst Some) (derive_compute_signal M G s cfg rng)
      | SignalThermal \<Rightarrow> map_option (apfst Some) (derive_thermal_signal M G s cfg rng)
      | SignalEnergy \<Rightarrow> map_option (apfst Some) (derive_energy_signal M G s rng)
      | _ \<Rightarrow> Some (None, rng))"

text \<open>The versions the tests call.\<close>

definition derive_memory_signal_pub where "derive_memory_signal_pub = derive_memory_signal"
definition derive_compute_signal_pub where "derive_compute_signal_pub = derive_compute_signal"
definition derive_thermal_signal_pub where "derive_thermal_signal_pub = derive_thermal_signal"

text \<open>The power budget of the simulated energy signal is the baseline at every level: the budgets for
  the higher levels are never used, while the monitor sends less power at a higher level.\<close>

lemma sim_energy_budget_ignores_level:
  "\<exists>l r. derive_energy_signal M G s None = Some (EnergyConstraint l r BASELINE_MW, None)"
  by (auto simp: derive_energy_signal_def draw_noise_def Let_def BASELINE_MW_def smax0_def i32_of_f64_def trunc_def)

section \<open>Properties\<close>

text \<open>C35: The memory signal of the simulated device is the signal that the production memory monitor
  with its default configuration sends at its first poll of a device with the same total and the
  same available memory.\<close>

theorem sim_memory_signal_matches_monitor:
  assumes "derive_memory_signal M G s cfg rng = Some (MemoryPressure l available tot reclaim, rng')"
    and "parse_meminfo fs ''/proc/meminfo'' = Inr (tot, available)"
  shows "snd (memory_poll fs (memory_monitor_new memory_monitor_config_default poll_ms)) =
    Some (MemoryPressure l available tot reclaim)"
proof -
  have l: "l = memory_level_from_available_pct (available_pct tot available) \<and> reclaim = reclaim_share l tot"
    using assms(1) by (auto simp: derive_memory_signal_def available_pct_def reclaim_share_def Let_def word_neq_0_conv split: option.splits)
  have p: "meminfo_path (memory_monitor_new memory_monitor_config_default poll_ms) = ''/proc/meminfo''"
    by (simp add: memory_monitor_new_def)
  show ?thesis
    using l assms(2) memory_level_first_reading[of "available_pct tot available" poll_ms]
    by (simp add: memory_poll_def p Let_def memory_build_signal_def)
qed

definition example_device :: physical_state where
  "example_device = (physical_from_config example_initial)
     \<lparr>ps_device_memory_total_mb := Fin 1, ps_device_memory_used_mb := Fin (3 / 4)\<rparr>"

theorem sim_memory_signal_matches_monitor_witness:
  "\<exists>l r. derive_memory_signal example_math counter_generator example_device example_scenario None =
       Some (MemoryPressure l (256 * 1024) (1024 * 1024) r, None) \<and>
     snd (memory_poll (example_files (meminfo_line ''MemTotal:'' 1 1024 @ [CHR 0x0A] @
         meminfo_line ''MemAvailable:'' 1 256 @ [CHR 0x0A])) (memory_monitor_new memory_monitor_config_default 1000)) =
       Some (MemoryPressure l (256 * 1024) (1024 * 1024) r)"
proof -
  have p: "parse_meminfo (example_files (meminfo_line ''MemTotal:'' 1 1024 @ [CHR 0x0A] @
      meminfo_line ''MemAvailable:'' 1 256 @ [CHR 0x0A])) ''/proc/meminfo'' = Inr (1024 * 1024, 256 * 1024)"
    by (rule parse_meminfo_kernel[of _ _ 1 1024 "[]" 1 256 "[]"]) (simp_all add: example_files_def)
  have t: "mb_to_bytes (Fin 1) = Fin 1048576" and u: "mb_to_bytes (Fin (3 / 4)) = Fin 786432"
    and z: "mb_to_bytes (Fin 0) = Fin 0"
    by (simp_all add: mb_to_bytes_def to_f64_numeral)
  obtain l r where d: "derive_memory_signal example_math counter_generator example_device example_scenario None =
      Some (MemoryPressure l (256 * 1024) (1024 * 1024) r, None)"
    by (simp add: derive_memory_signal_def draw_noise_def example_device_def t u z u64_of_f64_def i64_of_f64_def
        trunc_def smax0_def Let_def)
  from sim_memory_signal_matches_monitor[OF d p] show ?thesis using d by blast
qed

text \<open>The heartbeat of the simulated engine is the same whatever the state of the device and of the
  engine: a constant cache of 1024 bytes and 32 tokens, 12.5 milliseconds between tokens, decoding.\<close>

lemma heartbeat_ignores_state:
  "case derive_heartbeat M G s eng cfg rng of
     None \<Rightarrow> rng \<noteq> None
   | Some (msg, rng') \<Rightarrow> msg = Heartbeat heartbeat_status"
  by (cases rng) (simp_all add: derive_heartbeat_def draw_noise_def Let_def split: option.splits prod.splits)

end
