(* ===== verification/Sim_Trajectory.thy ===== *)
theory Sim_Trajectory
  imports Sim_Signal
begin

text \<open>
  The record of a simulation (\<^verbatim>\<open>src/sim/trajectory.rs\<close>): what is recorded, the questions tests ask of
  a record, and its summary.  The text of a command (its derived debug output) is a parameter; the
  reports in which a record is printed are in \<^verbatim>\<open>Sim_Report\<close>.  A sorted map is an association list.
\<close>

section \<open>Snapshots and dumps\<close>

record physical_state_snapshot =
  sn_kv_cache_bytes :: f64
  sn_kv_cache_tokens :: f64
  sn_kv_dtype :: string
  sn_device_memory_used_mb :: f64
  sn_device_memory_total_mb :: f64
  sn_memory_bw_utilization_pct :: f64
  sn_engine_cpu_pct :: f64
  sn_engine_gpu_pct :: f64
  sn_cpu_freq_mhz :: f64
  sn_gpu_freq_mhz :: f64
  sn_thermal_c :: f64
  sn_cpu_cluster_thermal_c :: f64
  sn_gpu_cluster_thermal_c :: f64
  sn_throughput_tps :: f64
  sn_tbt_ms :: f64

definition snapshot_from_state :: "physical_state \<Rightarrow> physical_state_snapshot" where
  "snapshot_from_state s =
     \<lparr> sn_kv_cache_bytes = ps_kv_cache_bytes s,
       sn_kv_cache_tokens = ps_kv_cache_tokens s,
       sn_kv_dtype = ps_kv_dtype s,
       sn_device_memory_used_mb = ps_device_memory_used_mb s,
       sn_device_memory_total_mb = ps_device_memory_total_mb s,
       sn_memory_bw_utilization_pct = ps_memory_bw_utilization_pct s,
       sn_engine_cpu_pct = ps_engine_cpu_pct s,
       sn_engine_gpu_pct = ps_engine_gpu_pct s,
       sn_cpu_freq_mhz = ps_cpu_freq_mhz s,
       sn_gpu_freq_mhz = ps_gpu_freq_mhz s,
       sn_thermal_c = ps_thermal_c s,
       sn_cpu_cluster_thermal_c = ps_cpu_cluster_thermal_c s,
       sn_gpu_cluster_thermal_c = ps_gpu_cluster_thermal_c s,
       sn_throughput_tps = ps_throughput_tps s,
       sn_tbt_ms = ps_tbt_ms s \<rparr>"

record engine_state_snapshot =
  es_active_device :: string
  es_active_actions :: "string list"
  es_phase :: string
  es_partition_ratio :: f64
  es_throttle_delay_ms :: f64
  es_skip_ratio :: f64

definition snapshot_from_engine :: "engine_model \<Rightarrow> engine_state_snapshot" where
  "snapshot_from_engine e =
     \<lparr> es_active_device = em_active_device e,
       es_active_actions = em_active_actions e,
       es_phase = em_phase e,
       es_partition_ratio = em_partition_ratio e,
       es_throttle_delay_ms = em_throttle_delay_ms e,
       es_skip_ratio = em_skip_ratio e \<rparr>"

record engine_message_dump =
  md_kind :: string
  md_tbt_ms :: "f32 option"
  md_kv_cache_bytes :: "u64 option"
  md_kv_cache_budget_bytes :: "u64 option"
  md_kv_cache_tokens :: "u64 option"
  md_phase :: "string option"

definition phase_debug :: "phase \<Rightarrow> string" where
  "phase_debug p = (case p of PhaseIdle \<Rightarrow> ''Idle'' | PhasePrefill \<Rightarrow> ''Prefill'' | PhaseDecode \<Rightarrow> ''Decode'')"

definition dump_message :: "engine_message \<Rightarrow> engine_message_dump" where
  "dump_message msg =
     (case msg of
        Heartbeat st \<Rightarrow>
          \<lparr> md_kind = ''heartbeat'', md_tbt_ms = Some (tbt_ms st), md_kv_cache_bytes = Some (kv_cache_bytes st),
            md_kv_cache_budget_bytes = Some (kv_cache_budget_bytes st),
            md_kv_cache_tokens = Some (kv_cache_tokens st), md_phase = Some (phase_debug (status_phase st)) \<rparr>
      | Response _ \<Rightarrow>
          \<lparr> md_kind = ''other'', md_tbt_ms = None, md_kv_cache_bytes = None, md_kv_cache_budget_bytes = None,
            md_kv_cache_tokens = None, md_phase = None \<rparr>)"

datatype json_value = JU64 u64 | JU32 u32 | JI32 i32 | JF64 f64 | JBool bool

record signal_dump =
  sd_kind :: string
  sd_level :: string
  sd_detail :: "(string \<times> json_value) list"

definition level_debug :: "level \<Rightarrow> string" where
  "level_debug l =
     (case l of Normal \<Rightarrow> ''Normal'' | Warning \<Rightarrow> ''Warning'' | Critical \<Rightarrow> ''Critical'' | Emergency \<Rightarrow> ''Emergency'')"

definition dump_signal :: "system_signal \<Rightarrow> signal_dump" where
  "dump_signal sig =
     (case sig of
        MemoryPressure l available tot reclaim \<Rightarrow>
          \<lparr> sd_kind = ''memory_pressure'', sd_level = level_debug l,
            sd_detail = [(''available_bytes'', JU64 available), (''total_bytes'', JU64 tot),
                         (''reclaim_target_bytes'', JU64 reclaim)] \<rparr>
      | ComputeGuidance l _ _ cpu gpu \<Rightarrow>
          \<lparr> sd_kind = ''compute_guidance'', sd_level = level_debug l,
            sd_detail = [(''cpu_usage_pct'', JF64 cpu), (''gpu_usage_pct'', JF64 gpu)] \<rparr>
      | ThermalAlert l mc throttling _ \<Rightarrow>
          \<lparr> sd_kind = ''thermal_alert'', sd_level = level_debug l,
            sd_detail = [(''temperature_mc'', JI32 mc), (''throttling_active'', JBool throttling)] \<rparr>
      | EnergyConstraint l _ mw \<Rightarrow>
          \<lparr> sd_kind = ''energy_constraint'', sd_level = level_debug l,
            sd_detail = [(''power_budget_mw'', JU32 mw)] \<rparr>)"

record directive_dump =
  dd_seq_id :: u64
  dd_commands :: "string list"

definition dump_directive :: "(engine_command \<Rightarrow> string) \<Rightarrow> engine_directive \<Rightarrow> directive_dump" where
  "dump_directive debug d = \<lparr> dd_seq_id = seq_id d, dd_commands = map debug (commands d) \<rparr>"

section \<open>Entries\<close>

datatype trajectory_entry =
    StateSnapshot f64 physical_state_snapshot engine_state_snapshot
  | HeartbeatEntry f64 engine_message_dump
  | SignalEntry f64 signal_dump
  | DirectiveEntry f64 signal_dump directive_dump
  | ObservationDueEntry f64 string f64
  | InjectionEvent f64 nat bool
  | CustomEntry f64 string
  | ReliefUpdate f64 string "f32 list" "f32 list" "f32 list" u32 f64
  | ObservationOverrun f64 u64
  | LevelTransition f64 string "string option" string physical_state_snapshot

type_synonym trajectory = "trajectory_entry list"

definition trajectory_new :: trajectory where
  "trajectory_new = []"

definition record_state_snapshot :: "duration \<Rightarrow> physical_state \<Rightarrow> engine_model \<Rightarrow> trajectory \<Rightarrow> trajectory" where
  "record_state_snapshot t s e tr =
     tr @ [StateSnapshot (as_secs_f64 t) (snapshot_from_state s) (snapshot_from_engine e)]"

definition record_heartbeat :: "duration \<Rightarrow> engine_message \<Rightarrow> trajectory \<Rightarrow> trajectory" where
  "record_heartbeat t msg tr = tr @ [HeartbeatEntry (as_secs_f64 t) (dump_message msg)]"

definition record_signal :: "duration \<Rightarrow> system_signal \<Rightarrow> trajectory \<Rightarrow> trajectory" where
  "record_signal t sig tr = tr @ [SignalEntry (as_secs_f64 t) (dump_signal sig)]"

definition record_directive ::
  "(engine_command \<Rightarrow> string) \<Rightarrow> duration \<Rightarrow> system_signal \<Rightarrow> engine_directive \<Rightarrow> trajectory \<Rightarrow> trajectory" where
  "record_directive debug t sig d tr =
     tr @ [DirectiveEntry (as_secs_f64 t) (dump_signal sig) (dump_directive debug d)]"

definition record_observation_due :: "duration \<Rightarrow> string \<Rightarrow> duration \<Rightarrow> trajectory \<Rightarrow> trajectory" where
  "record_observation_due t action recorded_at tr =
     tr @ [ObservationDueEntry (as_secs_f64 t) action (as_secs_f64 recorded_at)]"

definition record_injection_event :: "duration \<Rightarrow> nat \<Rightarrow> bool \<Rightarrow> trajectory \<Rightarrow> trajectory" where
  "record_injection_event t idx started tr = tr @ [InjectionEvent (as_secs_f64 t) idx started]"

definition record_custom :: "duration \<Rightarrow> string \<Rightarrow> trajectory \<Rightarrow> trajectory" where
  "record_custom t name tr = tr @ [CustomEntry (as_secs_f64 t) name]"

definition record_observation_overrun :: "duration \<Rightarrow> u64 \<Rightarrow> trajectory \<Rightarrow> trajectory" where
  "record_observation_overrun t total_count tr = tr @ [ObservationOverrun (as_secs_f64 t) total_count]"

definition record_level_transition ::
  "duration \<Rightarrow> string \<Rightarrow> string option \<Rightarrow> string \<Rightarrow> physical_state \<Rightarrow> trajectory \<Rightarrow> trajectory" where
  "record_level_transition t kind from to s tr =
     tr @ [LevelTransition (as_secs_f64 t) kind from to (snapshot_from_state s)]"

section \<open>Questions\<close>

fun is_directive :: "trajectory_entry \<Rightarrow> bool" where
  "is_directive (DirectiveEntry _ _ _) = True"
| "is_directive _ = False"

fun is_heartbeat :: "trajectory_entry \<Rightarrow> bool" where
  "is_heartbeat (HeartbeatEntry _ _) = True"
| "is_heartbeat _ = False"

fun signal_of :: "trajectory_entry \<Rightarrow> signal_dump option" where
  "signal_of (SignalEntry _ d) = Some d"
| "signal_of _ = None"

fun observation_of :: "trajectory_entry \<Rightarrow> string option" where
  "observation_of (ObservationDueEntry _ a _) = Some a"
| "observation_of _ = None"

definition directive_count :: "trajectory \<Rightarrow> nat" where
  "directive_count tr = length (filter is_directive tr)"

definition heartbeat_count :: "trajectory \<Rightarrow> nat" where
  "heartbeat_count tr = length (filter is_heartbeat tr)"

definition signal_count :: "trajectory \<Rightarrow> nat" where
  "signal_count tr = length (filter (\<lambda>e. signal_of e \<noteq> None) tr)"

definition signal_count_by_kind :: "string \<Rightarrow> trajectory \<Rightarrow> nat" where
  "signal_count_by_kind kind tr = length (filter (\<lambda>e. map_option sd_kind (signal_of e) = Some kind) tr)"

definition observation_due_count :: "trajectory \<Rightarrow> nat" where
  "observation_due_count tr = length (filter (\<lambda>e. observation_of e \<noteq> None) tr)"

definition observation_due_count_for :: "string \<Rightarrow> trajectory \<Rightarrow> nat" where
  "observation_due_count_for action tr = length (filter (\<lambda>e. observation_of e = Some action) tr)"

definition directives_for_signal :: "(signal_dump \<Rightarrow> bool) \<Rightarrow> trajectory \<Rightarrow> directive_dump list" where
  "directives_for_signal matcher tr =
     List.map_filter (\<lambda>e. case e of DirectiveEntry _ trigger d \<Rightarrow> if matcher trigger then Some d else None | _ \<Rightarrow> None) tr"

definition first_directive_at_or_after :: "f64 \<Rightarrow> trajectory \<Rightarrow> f64 option" where
  "first_directive_at_or_after t_s tr =
     (case List.map_filter (\<lambda>e. case e of DirectiveEntry t _ _ \<Rightarrow> if fp_ge t t_s then Some t else None | _ \<Rightarrow> None) tr of
        [] \<Rightarrow> None
      | t # _ \<Rightarrow> Some t)"

fun state_at_loop ::
  "(physical_state_snapshot \<Rightarrow> f64) \<Rightarrow> f64 \<Rightarrow> trajectory \<Rightarrow> (f64 \<times> f64) option \<Rightarrow> (f64 \<times> f64) option" where
  "state_at_loop proj t_s [] best = best"
| "state_at_loop proj t_s (StateSnapshot t s _ # tr) best =
     (let dist = fp_abs (sub64 t t_s) in
      state_at_loop proj t_s tr
        (case best of
           None \<Rightarrow> Some (dist, proj s)
         | Some (d, v) \<Rightarrow> if fp_lt dist d then Some (dist, proj s) else best))"
| "state_at_loop proj t_s (_ # tr) best = state_at_loop proj t_s tr best"

definition state_at :: "(physical_state_snapshot \<Rightarrow> f64) \<Rightarrow> f64 \<Rightarrow> trajectory \<Rightarrow> f64 option" where
  "state_at proj t_s tr = map_option snd (state_at_loop proj t_s tr None)"

definition assert_contains_directive_kind :: "string \<Rightarrow> trajectory \<Rightarrow> unit res" where
  "assert_contains_directive_kind kind tr =
     (if list_ex (\<lambda>e. case e of DirectiveEntry _ _ d \<Rightarrow> list_ex (\<lambda>c. find_sub kind c \<noteq> None) (dd_commands d) | _ \<Rightarrow> False) tr
      then Inr () else Inl (''no directive containing '' @ kind @ '' found in trajectory''))"

fun entry_at_s :: "trajectory_entry \<Rightarrow> f64" where
  "entry_at_s (StateSnapshot t _ _) = t"
| "entry_at_s (HeartbeatEntry t _) = t"
| "entry_at_s (SignalEntry t _) = t"
| "entry_at_s (DirectiveEntry t _ _) = t"
| "entry_at_s (ObservationDueEntry t _ _) = t"
| "entry_at_s (InjectionEvent t _ _) = t"
| "entry_at_s (CustomEntry t _) = t"
| "entry_at_s (ReliefUpdate t _ _ _ _ _ _) = t"
| "entry_at_s (ObservationOverrun t _) = t"
| "entry_at_s (LevelTransition t _ _ _ _) = t"

definition last_at_s :: "trajectory \<Rightarrow> f64 option" where
  "last_at_s tr = (if tr = [] then None else Some (entry_at_s (last tr)))"

section \<open>The summary\<close>

text \<open>Rounding to an integer, halves away from zero.\<close>

fun fp_round :: "f64 \<Rightarrow> f64" where
  "fp_round (Fin q) = Fin (of_int (if 0 \<le> q then \<lfloor>q + 1 / 2\<rfloor> else \<lceil>q - 1 / 2\<rceil>))"
| "fp_round v = v"

definition round_to :: "rat \<Rightarrow> f64 \<Rightarrow> f64" where
  "round_to k v = div64 (fp_round (mul64 v (Fin k))) (Fin k)"

record physical_state_summary =
  sm_kv_cache_bytes_mib :: f64
  sm_device_memory_used_mb :: f64
  sm_engine_cpu_pct :: f64
  sm_engine_gpu_pct :: f64
  sm_cpu_freq_ratio :: f64
  sm_gpu_freq_ratio :: f64
  sm_thermal_c :: f64
  sm_throughput_tps :: f64

definition summary_from_snapshot :: "physical_state_snapshot \<Rightarrow> f64 \<Rightarrow> f64 \<Rightarrow> physical_state_summary" where
  "summary_from_snapshot s cfg_cpu_max cfg_gpu_max =
     (let cpu_max = (if fp_gt cfg_cpu_max (Fin 0) then cfg_cpu_max else fp_max (sn_cpu_freq_mhz s) (Fin 1));
          gpu_max = (if fp_gt cfg_gpu_max (Fin 0) then cfg_gpu_max else fp_max (sn_gpu_freq_mhz s) (Fin 1))
      in \<lparr> sm_kv_cache_bytes_mib = round_to 100 (div64 (sn_kv_cache_bytes s) (Fin 1048576)),
           sm_device_memory_used_mb = round_to 10 (sn_device_memory_used_mb s),
           sm_engine_cpu_pct = round_to 10 (sn_engine_cpu_pct s),
           sm_engine_gpu_pct = round_to 10 (sn_engine_gpu_pct s),
           sm_cpu_freq_ratio = round_to 1000 (div64 (sn_cpu_freq_mhz s) cpu_max),
           sm_gpu_freq_ratio = round_to 1000 (div64 (sn_gpu_freq_mhz s) gpu_max),
           sm_thermal_c = round_to 10 (sn_thermal_c s),
           sm_throughput_tps = round_to 100 (sn_throughput_tps s) \<rparr>)"

definition bump :: "string \<Rightarrow> (string \<times> nat) list \<Rightarrow> (string \<times> nat) list" where
  "bump k m = AList.update k (case map_of m k of Some n \<Rightarrow> n + 1 | None \<Rightarrow> 1) m"

definition command_kind :: "string \<Rightarrow> string" where
  "command_kind cmd = (if CHR 0x7B \<in> set cmd then trim (takeWhile (\<lambda>c. c \<noteq> CHR 0x7B) cmd) else cmd)"

fun count_signals :: "trajectory \<Rightarrow> (string \<times> nat) list \<Rightarrow> (string \<times> nat) list" where
  "count_signals [] m = m"
| "count_signals (e # tr) m =
     count_signals tr (case signal_of e of Some d \<Rightarrow> bump (sd_kind d) m | None \<Rightarrow> m)"

record directive_tally =
  dt_kinds :: "(string \<times> nat) list"
  dt_first :: "f64 option"
  dt_count :: nat

fun count_directives :: "trajectory \<Rightarrow> directive_tally \<Rightarrow> directive_tally" where
  "count_directives [] t = t"
| "count_directives (DirectiveEntry at_s _ d # tr) t =
     count_directives tr
       \<lparr> dt_kinds = fold (\<lambda>c. bump (command_kind c)) (dd_commands d) (dt_kinds t),
         dt_first = (case dt_first t of None \<Rightarrow> Some (round_to 100 at_s) | Some f \<Rightarrow> Some f),
         dt_count = dt_count t + 1 \<rparr>"
| "count_directives (_ # tr) t = count_directives tr t"

fun last_snapshot :: "trajectory \<Rightarrow> physical_state_snapshot option" where
  "last_snapshot [] = None"
| "last_snapshot (StateSnapshot _ s _ # tr) = (case last_snapshot tr of None \<Rightarrow> Some s | Some r \<Rightarrow> Some r)"
| "last_snapshot (_ # tr) = last_snapshot tr"

record trajectory_summary =
  ts_duration_s :: f64
  ts_heartbeat_count :: nat
  ts_signal_count_by_kind :: "(string \<times> nat) list"
  ts_directive_count :: nat
  ts_directive_kinds :: "(string \<times> nat) list"
  ts_first_directive_at_s :: "f64 option"
  ts_state_final :: "physical_state_summary option"

definition summary_from_trajectory :: "trajectory \<Rightarrow> f64 \<Rightarrow> f64 \<Rightarrow> trajectory_summary" where
  "summary_from_trajectory tr cpu_max_mhz gpu_max_mhz =
     (let tally = count_directives tr \<lparr> dt_kinds = [], dt_first = None, dt_count = 0 \<rparr>
      in \<lparr> ts_duration_s = (case last_at_s tr of Some v \<Rightarrow> round_to 100 v | None \<Rightarrow> Fin 0),
           ts_heartbeat_count = heartbeat_count tr,
           ts_signal_count_by_kind = count_signals tr [],
           ts_directive_count = dt_count tally,
           ts_directive_kinds = dt_kinds tally,
           ts_first_directive_at_s = dt_first tally,
           ts_state_final = map_option (\<lambda>s. summary_from_snapshot s cpu_max_mhz gpu_max_mhz) (last_snapshot tr) \<rparr>)"

section \<open>Facts\<close>

abbreviation tally :: "(string \<times> nat) list \<Rightarrow> string \<Rightarrow> nat" where
  "tally m k \<equiv> (case map_of m k of Some n \<Rightarrow> n | None \<Rightarrow> 0)"

lemma tally_bump: "tally (bump k m) k' = tally m k' + (if k = k' then 1 else 0)"
  by (auto simp: bump_def update_conv' split: option.splits)

lemma tally_fold_bump: "tally (fold (\<lambda>c. bump (f c)) cs m) k = tally m k + length (filter (\<lambda>c. f c = k) cs)"
  by (induction cs arbitrary: m) (auto simp: tally_bump)

lemma count_signals_tally: "tally (count_signals tr m) k = tally m k + signal_count_by_kind k tr"
proof (induction tr m rule: count_signals.induct)
  case (2 e tr m)
  then show ?case by (cases "signal_of e") (auto simp: tally_bump signal_count_by_kind_def)
qed (simp add: signal_count_by_kind_def)

definition commands_of_kind :: "string \<Rightarrow> trajectory_entry \<Rightarrow> nat" where
  "commands_of_kind k e =
     (case e of DirectiveEntry _ _ d \<Rightarrow> length (filter (\<lambda>c. command_kind c = k) (dd_commands d)) | _ \<Rightarrow> 0)"

lemma count_directives_tally:
  "tally (dt_kinds (count_directives tr t)) k = tally (dt_kinds t) k + sum_list (map (commands_of_kind k) tr) \<and>
   dt_count (count_directives tr t) = dt_count t + directive_count tr"
  by (induction tr t rule: count_directives.induct)
    (auto simp: tally_fold_bump directive_count_def commands_of_kind_def)

lemma count_directives_first:
  "dt_first (count_directives tr t) =
   (case dt_first t of Some f \<Rightarrow> Some f
    | None \<Rightarrow> map_option (\<lambda>e. round_to 100 (entry_at_s e)) (List.find is_directive tr))"
  by (induction tr t rule: count_directives.induct) (auto split: option.splits)

text \<open>The distances the search of \<^term>\<open>state_at\<close> compares.\<close>

definition snapshot_dist :: "f64 \<Rightarrow> trajectory_entry \<Rightarrow> f64" where
  "snapshot_dist t_s e = fp_abs (sub64 (entry_at_s e) t_s)"

definition snapshots :: "trajectory \<Rightarrow> (f64 \<times> physical_state_snapshot) list" where
  "snapshots tr = List.map_filter (\<lambda>e. case e of StateSnapshot t s _ \<Rightarrow> Some (t, s) | _ \<Rightarrow> None) tr"

lemma snapshots_simps [simp]:
  "snapshots [] = []"
  "snapshots (StateSnapshot t s e # tr) = (t, s) # snapshots tr"
  "(\<And>t s e. x \<noteq> StateSnapshot t s e) \<Longrightarrow> snapshots (x # tr) = snapshots tr"
  by (auto simp: snapshots_def map_filter_def split: trajectory_entry.splits)

definition better :: "(physical_state_snapshot \<Rightarrow> f64) \<Rightarrow> f64 \<Rightarrow> f64 \<times> physical_state_snapshot \<Rightarrow> (f64 \<times> f64) option \<Rightarrow> (f64 \<times> f64) option" where
  "better proj t_s x best =
     (let dist = fp_abs (sub64 (fst x) t_s) in
      case best of None \<Rightarrow> Some (dist, proj (snd x)) | Some (d, v) \<Rightarrow> if fp_lt dist d then Some (dist, proj (snd x)) else best)"

lemma state_at_loop_fold: "state_at_loop proj t_s tr best = fold (better proj t_s) (snapshots tr) best"
proof (induction tr arbitrary: best)
  case (Cons e tr)
  have "state_at_loop proj t_s (StateSnapshot t s g # tr) best = state_at_loop proj t_s tr (better proj t_s (t, s) best)"
    for t s g by (simp add: better_def Let_def split: option.split)
  then show ?case using Cons by (cases e) (simp_all del: state_at_loop.simps(2))
qed simp

definition nearest :: "(physical_state_snapshot \<Rightarrow> f64) \<Rightarrow> f64 \<Rightarrow> (f64 \<times> physical_state_snapshot) list \<Rightarrow> f64 \<times> f64 \<Rightarrow> f64 \<times> f64 \<Rightarrow> bool" where
  "nearest proj t_s xs start r =
     (fst r \<noteq> NaN \<and> fp_le (fst r) (fst start) \<and> list_all (\<lambda>x. fp_le (fst r) (fp_abs (sub64 (fst x) t_s))) xs \<and>
      (r = start \<or> list_ex (\<lambda>x. r = (fp_abs (sub64 (fst x) t_s), proj (snd x))) xs))"

lemma fold_better_nearest:
  assumes "list_all (\<lambda>x. fp_abs (sub64 (fst x) t_s) \<noteq> NaN) xs" and "fst start \<noteq> NaN"
  shows "\<exists>r. fold (better proj t_s) xs (Some start) = Some r \<and> nearest proj t_s xs start r"
  using assms
proof (induction xs arbitrary: start)
  case (Cons x xs)
  define dx where "dx = fp_abs (sub64 (fst x) t_s)"
  have dx: "dx \<noteq> NaN" and xs: "list_all (\<lambda>x. fp_abs (sub64 (fst x) t_s) \<noteq> NaN) xs"
    using Cons.prems(1) by (simp_all add: dx_def)
  show ?case
  proof (cases "fp_lt dx (fst start)")
    case True
    have "fold (better proj t_s) (x # xs) (Some start) = fold (better proj t_s) xs (Some (dx, proj (snd x)))"
      using True by (cases start) (simp add: better_def dx_def Let_def)
    moreover obtain r where "fold (better proj t_s) xs (Some (dx, proj (snd x))) = Some r"
      "nearest proj t_s xs (dx, proj (snd x)) r"
      using Cons.IH[OF xs, of "(dx, proj (snd x))"] dx by auto
    ultimately show ?thesis using fp_lt_imp_le[OF True]
      by (auto simp: nearest_def dx_def [symmetric] intro: fp_le_trans)
  next
    case False
    have "fold (better proj t_s) (x # xs) (Some start) = fold (better proj t_s) xs (Some start)"
      using False by (cases start) (simp add: better_def dx_def Let_def)
    moreover obtain r where "fold (better proj t_s) xs (Some start) = Some r" "nearest proj t_s xs start r"
      using Cons.IH[OF xs Cons.prems(2)] by auto
    moreover have "fp_le (fst start) dx" using False fp_not_lt dx Cons.prems(2) by blast
    ultimately show ?thesis
      by (auto simp: nearest_def dx_def [symmetric] intro: fp_le_trans)
  qed
qed (simp add: nearest_def)

section \<open>Properties\<close>

text \<open>The summary of a record agrees with the questions asked of the record itself: for every kind
  the signals counted and the commands counted, the number of directives, and the time of the first.\<close>

lemma summary_agrees_with_record:
  "tally (ts_signal_count_by_kind (summary_from_trajectory tr c g)) k = signal_count_by_kind k tr \<and>
   tally (ts_directive_kinds (summary_from_trajectory tr c g)) k = sum_list (map (commands_of_kind k) tr) \<and>
   ts_directive_count (summary_from_trajectory tr c g) = directive_count tr \<and>
   ts_first_directive_at_s (summary_from_trajectory tr c g) =
     map_option (\<lambda>e. round_to 100 (entry_at_s e)) (List.find is_directive tr)"
  by (simp add: summary_from_trajectory_def Let_def count_signals_tally count_directives_tally count_directives_first)

text \<open>The state at a time is that of a snapshot whose distance to the time is least among all
  snapshots, and there is none only when nothing was recorded.\<close>

lemma state_at_nearest:
  assumes "list_all (\<lambda>x. fp_abs (sub64 (fst x) t_s) \<noteq> NaN) (snapshots tr)"
  shows "case state_at proj t_s tr of
     None \<Rightarrow> snapshots tr = []
   | Some v \<Rightarrow> list_ex (\<lambda>x. v = proj (snd x) \<and>
       list_all (\<lambda>y. fp_le (fp_abs (sub64 (fst x) t_s)) (fp_abs (sub64 (fst y) t_s))) (snapshots tr)) (snapshots tr)"
proof (cases "snapshots tr")
  case Nil
  then show ?thesis by (simp add: state_at_def state_at_loop_fold)
next
  case (Cons x xs)
  define dx where "dx = fp_abs (sub64 (fst x) t_s)"
  have "dx \<noteq> NaN" "list_all (\<lambda>x. fp_abs (sub64 (fst x) t_s) \<noteq> NaN) xs" using assms Cons by (simp_all add: dx_def)
  then obtain r where r: "fold (better proj t_s) xs (Some (dx, proj (snd x))) = Some r"
    "nearest proj t_s xs (dx, proj (snd x)) r"
    using fold_better_nearest[of t_s xs "(dx, proj (snd x))" proj] by auto
  have "fold (better proj t_s) (snapshots tr) None = Some r"
    using r(1) Cons by (simp add: better_def dx_def Let_def)
  then have st: "state_at proj t_s tr = Some (snd r)" by (simp add: state_at_def state_at_loop_fold)
  have "list_ex (\<lambda>x. r = (fp_abs (sub64 (fst x) t_s), proj (snd x))) (snapshots tr)"
    and le: "list_all (\<lambda>y. fp_le (fst r) (fp_abs (sub64 (fst y) t_s))) (snapshots tr)"
    using r(2) Cons by (auto simp: nearest_def dx_def)
  then obtain y where "y \<in> set (snapshots tr)" "r = (fp_abs (sub64 (fst y) t_s), proj (snd y))"
    by (auto simp: list_ex_iff)
  then show ?thesis using le unfolding st by (auto simp: list_ex_iff)
qed

definition example_record :: trajectory where
  "example_record =
     [StateSnapshot (Fin 1) (snapshot_from_state example_device) (snapshot_from_engine (example_engine [])),
      StateSnapshot (Fin 4) (snapshot_from_state (example_device\<lparr>ps_thermal_c := Fin 70\<rparr>))
        (snapshot_from_engine (example_engine []))]"

theorem state_at_nearest_witness: "state_at sn_thermal_c (Fin 3) example_record = Some (Fin 70)"
proof -
  have n: "to_f64 (- 2) = Fin (- 2)" using to_f64_int[of "- 2"] by simp
  have "list_all (\<lambda>x. fp_abs (sub64 (fst x) (Fin 3)) \<noteq> NaN) (snapshots example_record)"
    by (simp add: example_record_def fp_sub_def n to_f64_one)
  from state_at_nearest[OF this, of sn_thermal_c] show ?thesis
    by (auto simp: example_record_def fp_sub_def n to_f64_one snapshot_from_state_def split: option.splits)
qed

end
