(* ===== verification/Sim_Harness.thy ===== *)
theory Sim_Harness
  imports Sim_Trajectory Lua_Policy
begin

text \<open>
  The simulation loop (\<^verbatim>\<open>src/sim/harness.rs\<close>): preloading of periodic events, one tick, runs of a given
  length and runs up to a condition.  The policy is any policy of the pipeline, given by its
  operations.  The value is nothing when a draw of noise, the preload or the loop itself does not
  return.
\<close>

section \<open>The simulator\<close>

datatype harness_error = HPolicy string string | HPhysics sim_error | HPanic string | MaxDurationExceeded

type_synonym 'a outcome = "(harness_error + 'a) option"

definition ok :: "'a \<Rightarrow> 'a outcome" where
  "ok x = Some (Inr x)"

definition fail :: "harness_error \<Rightarrow> 'a outcome" where
  "fail e = Some (Inl e)"

definition and_then :: "'a outcome \<Rightarrow> ('a \<Rightarrow> 'b outcome) \<Rightarrow> 'b outcome" where
  "and_then x f = Option.bind x (\<lambda>r. case r of Inl e \<Rightarrow> fail e | Inr a \<Rightarrow> f a)"

definition checked_add :: "duration \<Rightarrow> duration \<Rightarrow> duration outcome" where
  "checked_add a b =
     (case duration_checked_add a b of
        Some d \<Rightarrow> ok d
      | None \<Rightarrow> fail (HPanic ''overflow when adding durations''))"

definition secs :: "f64 \<Rightarrow> duration outcome" where
  "secs x =
     (case duration_from_secs_f64 x of
        Some d \<Rightarrow> ok d
      | None \<Rightarrow> fail (HPanic ''can not convert float seconds to Duration''))"

text \<open>The operations of a policy the harness uses.\<close>

record 'p policy_ops =
  po_process_signal :: "host_view \<Rightarrow> system_signal \<Rightarrow> 'p \<Rightarrow> 'p \<times> engine_directive option"
  po_update_engine_state :: "engine_message \<Rightarrow> 'p \<Rightarrow> 'p"
  po_cancel_last_observation :: "'p \<Rightarrow> 'p"
  po_inspect_state :: "'p \<Rightarrow> record_entry list"

text \<open>What stays fixed during a simulation: the libraries, the policy's operations, what the policy sees of
  the world outside the simulation at its first decision, its second and so on, the scenario.\<close>

record ('n, 'c, 'r, 'p) sim_env =
  se_expr :: "('n, 'c) evalexpr"
  se_math :: math_lib
  se_gen :: "'r generator"
  se_policy :: "'p policy_ops"
  se_host :: "nat \<Rightarrow> host_view"
  se_debug :: "engine_command \<Rightarrow> string"
  se_cfg :: "'n scenario_config"

record ('c, 'r, 'p) simulator =
  sim_clock :: virtual_clock
  sim_state :: physical_state
  sim_engine :: engine_model
  sim_policy :: 'p
  sim_trajectory :: trajectory
  sim_rng :: "'r noise_rng option"
  sim_tick_dt :: duration
  sim_ctx :: 'c
  sim_last_overrun :: u64
  sim_dedup :: directive_deduplicator
  sim_levels :: "(string \<times> string) list"

definition simulator_new :: "('n, 'c, 'r, 'p) sim_env \<Rightarrow> 'p \<Rightarrow> eval_error + ('c, 'r, 'p) simulator" where
  "simulator_new V p =
     (case expr_context_new (se_expr V) of
        Inl e \<Rightarrow> Inl e
      | Inr c \<Rightarrow>
          Inr \<lparr> sim_clock = virtual_clock_new,
                sim_state = physical_from_config (sc_initial_state (se_cfg V)),
                sim_engine = engine_from_config (sc_initial_state (se_cfg V)),
                sim_policy = p, sim_trajectory = [], sim_rng = maybe_create (se_cfg V),
                sim_tick_dt = 50000000, sim_ctx = c, sim_last_overrun = 0,
                sim_dedup = dedup_with_cooldown (Fin 60), sim_levels = [] \<rparr>)"

text \<open>The two policies of the crate.  Cancelling the last observation is the empty default of the
  interface in both, and so is the inspection in the recording policy.\<close>

definition lua_ops :: "'vm lua_machine \<Rightarrow> ('vm lua_policy \<times> u64) policy_ops" where
  "lua_ops M =
     \<lparr> po_process_signal = process_signal M, po_update_engine_state = update_engine_state,
       po_cancel_last_observation = (\<lambda>p. p), po_inspect_state = (\<lambda>p. inspect_state (fst p)) \<rparr>"

definition mock_ops :: "mock_policy policy_ops" where
  "mock_ops =
     \<lparr> po_process_signal = (\<lambda>h. mock_process_signal), po_update_engine_state = mock_update_engine_state,
       po_cancel_last_observation = (\<lambda>p. p), po_inspect_state = (\<lambda>p. []) \<rparr>"

definition with_lua_policy ::
  "('n, 'c, 'r, 'vm lua_policy \<times> u64) sim_env \<Rightarrow> 'vm lua_machine \<Rightarrow> host_view \<Rightarrow> string \<Rightarrow> adaptation_config \<Rightarrow> u64 \<Rightarrow>
   harness_error + ('c, 'r, 'vm lua_policy \<times> u64) simulator" where
  "with_lua_policy V M h path cfg counter =
     (case lua_policy_new M h path cfg VirtualClockHandle of
        Inl e \<Rightarrow> Inl (HPolicy ''init'' e)
      | Inr p \<Rightarrow> (case simulator_new V (p, counter) of
                   Inl e \<Rightarrow> Inl (HPanic ''builtins'')
                 | Inr sim \<Rightarrow> Inr sim))"

definition with_dedup_cooldown :: "f64 \<Rightarrow> ('c, 'r, 'p) simulator \<Rightarrow> ('c, 'r, 'p) simulator" where
  "with_dedup_cooldown s sim = sim\<lparr>sim_dedup := dedup_with_cooldown s\<rparr>"

definition with_tick_dt :: "duration \<Rightarrow> ('c, 'r, 'p) simulator \<Rightarrow> ('c, 'r, 'p) simulator" where
  "with_tick_dt dt sim = sim\<lparr>sim_tick_dt := dt\<rparr>"

section \<open>Preloading\<close>

text \<open>The first multiple of the period after now; the cast to 64 bits of nanoseconds wraps.\<close>

definition schedule_periodic_from ::
  "event_kind \<Rightarrow> duration \<Rightarrow> duration \<Rightarrow> duration \<Rightarrow> virtual_clock \<Rightarrow> virtual_clock option" where
  "schedule_periodic_from kind now period until c =
     (if period = 0 then Some c
      else schedule_periodic kind (((now div period + 1) * period) mod 2 ^ 64) period until c)"

definition preload_one ::
  "event_kind \<Rightarrow> f64 \<Rightarrow> duration \<Rightarrow> duration \<Rightarrow> virtual_clock \<Rightarrow> virtual_clock outcome" where
  "preload_one kind interval now until c =
     and_then (secs interval) (\<lambda>period.
       Option.bind (schedule_periodic_from kind now period until c) ok)"

definition preload_injection ::
  "duration \<Rightarrow> duration \<Rightarrow> nat \<times> external_injection \<Rightarrow> virtual_clock \<Rightarrow> virtual_clock outcome" where
  "preload_injection now until x c =
     (case x of (idx, ij) \<Rightarrow>
      and_then (secs (t_start ij)) (\<lambda>start.
      and_then (secs (inj_duration ij)) (\<lambda>len.
      and_then (checked_add start len) (\<lambda>stop.
        let c1 = (if now < start \<and> start \<le> until then fst (schedule (ExternalInjectionStart idx) start c) else c);
            c2 = (if now < stop \<and> stop \<le> until then fst (schedule (ExternalInjectionEnd idx) stop c1) else c1)
        in ok c2))))"

fun fold_outcome :: "('a \<Rightarrow> 'b \<Rightarrow> 'b outcome) \<Rightarrow> 'a list \<Rightarrow> 'b \<Rightarrow> 'b outcome" where
  "fold_outcome f [] b = ok b"
| "fold_outcome f (x # xs) b = and_then (f x b) (fold_outcome f xs)"

definition preload_periodic :: "'n scenario_config \<Rightarrow> (event_kind \<times> f64) list" where
  "preload_periodic cfg =
     (let ob = sc_observation cfg; sg = obs_signals ob in
      [(EvHeartbeat, interval_s (obs_heartbeat ob)),
       (SignalMemory, ssc_poll_interval_s (obs_memory sg)),
       (SignalCompute, ssc_poll_interval_s (obs_compute sg)),
       (SignalThermal, ssc_poll_interval_s (obs_thermal sg)),
       (SignalEnergy, ssc_poll_interval_s (obs_energy sg))])"

definition preload_events ::
  "('n, 'c, 'r, 'p) sim_env \<Rightarrow> duration \<Rightarrow> ('c, 'r, 'p) simulator \<Rightarrow> ('c, 'r, 'p) simulator outcome" where
  "preload_events V until sim =
     (let now = vc_now (sim_clock sim) in
      and_then (fold_outcome (\<lambda>(kind, interval). preload_one kind interval now until)
                  (preload_periodic (se_cfg V)) (sim_clock sim)) (\<lambda>c1.
      and_then (fold_outcome (preload_injection now until) (enumerate 0 (sc_external_injections (se_cfg V))) c1) (\<lambda>c2.
        ok (sim\<lparr>sim_clock := c2\<rparr>))))"

section \<open>One tick\<close>

definition OBSERVATION_DELAY :: duration where
  "OBSERVATION_DELAY = 3000000000"

definition observable_action_name :: "engine_command \<Rightarrow> string option" where
  "observable_action_name cmd = (case cmd of KvCompress _ \<Rightarrow> Some ''kv.compress'' | _ \<Rightarrow> None)"

definition schedule_observation :: "engine_command \<Rightarrow> virtual_clock \<Rightarrow> virtual_clock outcome" where
  "schedule_observation cmd c =
     (case observable_action_name cmd of
        None \<Rightarrow> ok c
      | Some action \<Rightarrow>
          and_then (checked_add (vc_now c) OBSERVATION_DELAY) (\<lambda>due.
            ok (fst (schedule (ObservationDue action (vc_now c)) due c))))"

definition sim_apply_directive ::
  "engine_directive \<Rightarrow> ('c, 'r, 'p) simulator \<Rightarrow> ('c, 'r, 'p) simulator outcome" where
  "sim_apply_directive d sim =
     and_then (fold_outcome schedule_observation (commands d) (sim_clock sim)) (\<lambda>c.
       ok (sim\<lparr>sim_engine := apply_directive d (sim_engine sim), sim_clock := c\<rparr>))"

definition note_level :: "duration \<Rightarrow> system_signal \<Rightarrow> ('c, 'r, 'p) simulator \<Rightarrow> ('c, 'r, 'p) simulator" where
  "note_level t sig sim =
     (let dump = dump_signal sig; prev = map_of (sim_levels sim) (sd_kind dump) in
      if prev \<noteq> Some (sd_level dump)
      then sim\<lparr>sim_trajectory := record_level_transition t (sd_kind dump) prev (sd_level dump) (sim_state sim) (sim_trajectory sim),
               sim_levels := AList.update (sd_kind dump) (sd_level dump) (sim_levels sim)\<rparr>
      else sim)"

definition enact_decision ::
  "('n, 'c, 'r, 'p) sim_env \<Rightarrow> duration \<Rightarrow> system_signal \<Rightarrow> engine_directive \<Rightarrow> ('c, 'r, 'p) simulator \<Rightarrow> ('c, 'r, 'p) simulator outcome" where
  "enact_decision V t sig d sim =
     (case dedup_process d (as_secs_f64 t) (sim_dedup sim) of
        (dd, Some d') \<Rightarrow>
          and_then (sim_apply_directive d' (sim\<lparr>sim_dedup := dd\<rparr>)) (\<lambda>sim1.
            ok (sim1\<lparr>sim_trajectory := record_directive (se_debug V) t sig d' (sim_trajectory sim1)\<rparr>))
      | (dd, None) \<Rightarrow>
          ok (sim\<lparr>sim_dedup := dd, sim_policy := po_cancel_last_observation (se_policy V) (sim_policy sim)\<rparr>))"

definition handle_signal ::
  "('n, 'c, 'r, 'p) sim_env \<Rightarrow> duration \<Rightarrow> system_signal \<Rightarrow> ('c, 'r, 'p) simulator \<Rightarrow> ('c, 'r, 'p) simulator outcome" where
  "handle_signal V t sig sim =
     (let sim1 = note_level t sig sim;
          host = se_host V (signal_count (sim_trajectory sim1));
          (p, decision) = po_process_signal (se_policy V) host sig (sim_policy sim1);
          sim2 = sim1\<lparr>sim_policy := p\<rparr>
      in and_then (case decision of None \<Rightarrow> ok sim2 | Some d \<Rightarrow> enact_decision V t sig d sim2)
           (\<lambda>sim3. ok (sim3\<lparr>sim_trajectory := record_signal t sig (sim_trajectory sim3)\<rparr>)))"

definition handle_event ::
  "('n, 'c, 'r, 'p) sim_env \<Rightarrow> scheduled_event \<Rightarrow> ('c, 'r, 'p) simulator \<Rightarrow> ('c, 'r, 'p) simulator outcome" where
  "handle_event V ev sim =
     (let t = ev_at ev in
      case ev_kind ev of
        EvHeartbeat \<Rightarrow>
          Option.bind (derive_heartbeat (se_math V) (se_gen V) (sim_state sim) (sim_engine sim) (se_cfg V) (sim_rng sim))
            (\<lambda>(msg, rng). ok (sim\<lparr>sim_rng := rng,
                sim_policy := po_update_engine_state (se_policy V) msg (sim_policy sim),
                sim_trajectory := record_heartbeat t msg (sim_trajectory sim)\<rparr>))
      | ObservationDue action recorded_at \<Rightarrow>
          ok (sim\<lparr>sim_trajectory := record_observation_due t action recorded_at (sim_trajectory sim)\<rparr>)
      | ExternalInjectionStart idx \<Rightarrow>
          ok (sim\<lparr>sim_trajectory := record_injection_event t idx True (sim_trajectory sim)\<rparr>)
      | ExternalInjectionEnd idx \<Rightarrow>
          ok (sim\<lparr>sim_trajectory := record_injection_event t idx False (sim_trajectory sim)\<rparr>)
      | Custom name \<Rightarrow> ok (sim\<lparr>sim_trajectory := record_custom t name (sim_trajectory sim)\<rparr>)
      | kind \<Rightarrow>
          Option.bind (derive_signal (se_math V) (se_gen V) kind (sim_state sim) (se_cfg V) (sim_rng sim))
            (\<lambda>(sig, rng). case sig of
               None \<Rightarrow> ok (sim\<lparr>sim_rng := rng\<rparr>)
             | Some sg \<Rightarrow> handle_signal V t sg (sim\<lparr>sim_rng := rng\<rparr>)))"

definition note_overrun :: "('n, 'c, 'r, 'p) sim_env \<Rightarrow> duration \<Rightarrow> ('c, 'r, 'p) simulator \<Rightarrow> ('c, 'r, 'p) simulator" where
  "note_overrun V tick_end sim =
     (let n = get_observation_overrun_count (po_inspect_state (se_policy V) (sim_policy sim)) in
      if sim_last_overrun sim < n
      then sim\<lparr>sim_last_overrun := n, sim_trajectory := record_observation_overrun tick_end n (sim_trajectory sim)\<rparr>
      else sim)"

definition sim_physics ::
  "('n, 'c, 'r, 'p) sim_env \<Rightarrow> ('c, 'r, 'p) simulator \<Rightarrow> ('c, 'r, 'p) simulator outcome" where
  "sim_physics V sim =
     (case physics_step (se_expr V) (se_math V) (sim_engine sim) (se_cfg V) (sim_clock sim) (sim_tick_dt sim)
             (sim_state sim) (sim_ctx sim) of
        Inl e \<Rightarrow> fail (HPhysics e)
      | Inr (s, c) \<Rightarrow> ok (sim\<lparr>sim_state := s, sim_ctx := c\<rparr>))"

definition sim_tick ::
  "('n, 'c, 'r, 'p) sim_env \<Rightarrow> ('c, 'r, 'p) simulator \<Rightarrow> ('c, 'r, 'p) simulator outcome" where
  "sim_tick V sim =
     and_then (checked_add (vc_now (sim_clock sim)) (sim_tick_dt sim)) (\<lambda>tick_end.
     let (clk, events) = drain_until tick_end (sim_clock sim) in
     and_then (fold_outcome (handle_event V) events (sim\<lparr>sim_clock := clk\<rparr>)) (\<lambda>sim1.
     and_then (sim_physics V (note_overrun V tick_end sim1)) (\<lambda>sim2.
     let sim3 = sim2\<lparr>sim_trajectory := record_state_snapshot tick_end (sim_state sim2) (sim_engine sim2) (sim_trajectory sim2)\<rparr> in
     case advance (sim_tick_dt sim3) (sim_clock sim3) of
       Inl e \<Rightarrow> fail (HPanic e)
     | Inr c \<Rightarrow> ok (sim3\<lparr>sim_clock := c\<rparr>))))"

section \<open>Runs\<close>

partial_function (option) run_loop ::
  "('n, 'c, 'r, 'p) sim_env \<Rightarrow> duration \<Rightarrow> ('c, 'r, 'p) simulator \<Rightarrow> ('c, 'r, 'p) simulator outcome" where
  "run_loop V stop sim =
     (if vc_now (sim_clock sim) < stop
      then Option.bind (sim_tick V sim) (\<lambda>r. case r of Inl e \<Rightarrow> fail e | Inr sim' \<Rightarrow> run_loop V stop sim')
      else ok sim)"

definition run_for ::
  "('n, 'c, 'r, 'p) sim_env \<Rightarrow> duration \<Rightarrow> ('c, 'r, 'p) simulator \<Rightarrow> ('c, 'r, 'p) simulator outcome" where
  "run_for V dur sim =
     and_then (checked_add (vc_now (sim_clock sim)) dur) (\<lambda>stop.
     and_then (preload_events V stop sim) (run_loop V stop))"

partial_function (option) until_loop ::
  "('n, 'c, 'r, 'p) sim_env \<Rightarrow> (('c, 'r, 'p) simulator \<Rightarrow> bool) \<Rightarrow> duration \<Rightarrow> ('c, 'r, 'p) simulator \<Rightarrow>
   ('c, 'r, 'p) simulator outcome" where
  "until_loop V pred stop sim =
     (if pred sim then ok sim
      else if stop \<le> vc_now (sim_clock sim) then fail MaxDurationExceeded
      else Option.bind (sim_tick V sim) (\<lambda>r. case r of Inl e \<Rightarrow> fail e | Inr sim' \<Rightarrow> until_loop V pred stop sim'))"

definition HORIZON :: duration where
  "HORIZON = 60000000000"

definition run_until ::
  "('n, 'c, 'r, 'p) sim_env \<Rightarrow> (('c, 'r, 'p) simulator \<Rightarrow> bool) \<Rightarrow> duration \<Rightarrow> ('c, 'r, 'p) simulator \<Rightarrow>
   ('c, 'r, 'p) simulator outcome" where
  "run_until V pred max_dur sim =
     and_then (checked_add (vc_now (sim_clock sim)) (min max_dur HORIZON)) (\<lambda>until.
     and_then (preload_events V until sim) (\<lambda>sim1.
     and_then (checked_add (vc_now (sim_clock sim1)) max_dur) (\<lambda>stop. until_loop V pred stop sim1)))"

text \<open>Everything a client may do with a simulator: ticks and runs that succeed, in any order.\<close>

inductive sim_reaches ::
  "('n, 'c, 'r, 'p) sim_env \<Rightarrow> ('c, 'r, 'p) simulator \<Rightarrow> ('c, 'r, 'p) simulator \<Rightarrow> bool" for V where
  start: "sim_reaches V a a"
| ticked: "sim_reaches V a b \<Longrightarrow> sim_tick V b = Some (Inr c) \<Longrightarrow> sim_reaches V a c"
| ran_for: "sim_reaches V a b \<Longrightarrow> run_for V dur b = Some (Inr c) \<Longrightarrow> sim_reaches V a c"
| ran_until: "sim_reaches V a b \<Longrightarrow> run_until V pred max_dur b = Some (Inr c) \<Longrightarrow> sim_reaches V a c"

section \<open>Outcomes\<close>

lemma ok_iff [simp]: "ok x = Some (Inr y) \<longleftrightarrow> x = y" "ok x \<noteq> None" "ok x \<noteq> Some (Inl e)"
  by (auto simp: ok_def)

lemma fail_iff [simp]: "fail e \<noteq> Some (Inr y)" "fail e \<noteq> None"
  by (auto simp: fail_def)

lemma and_then_success [simp]: "and_then x f = Some (Inr b) \<longleftrightarrow> (\<exists>a. x = Some (Inr a) \<and> f a = Some (Inr b))"
  by (cases x) (auto simp: and_then_def fail_def split: sum.splits)

lemma and_then_None [simp]: "and_then x f = None \<longleftrightarrow> x = None \<or> (\<exists>a. x = Some (Inr a) \<and> f a = None)"
  by (cases x) (auto simp: and_then_def fail_def split: sum.splits)

lemma and_then_ok: "and_then (ok a) f = f a" "and_then (Some (Inr a)) f = f a"
  by (simp_all add: and_then_def ok_def)

lemma checked_add_success [simp]: "checked_add a b = Some (Inr c) \<longleftrightarrow> a + b \<le> DURATION_MAX \<and> c = a + b"
  by (auto simp: checked_add_def duration_checked_add_def fail_def)

lemma checked_add_None [simp]: "checked_add a b \<noteq> None"
  by (auto simp: checked_add_def ok_def fail_def split: option.splits)

lemma fold_outcome_inv:
  assumes "fold_outcome f xs b = Some (Inr b')" and "I b"
    and "\<And>x b b'. x \<in> set xs \<Longrightarrow> I b \<Longrightarrow> f x b = Some (Inr b') \<Longrightarrow> I b'"
  shows "I b'"
  using assms by (induction xs arbitrary: b) auto

lemma fold_outcome_succeeds:
  assumes "I b" and "\<And>x b. x \<in> set xs \<Longrightarrow> I b \<Longrightarrow> \<exists>b'. f x b = Some (Inr b') \<and> I b'"
  shows "\<exists>b'. fold_outcome f xs b = Some (Inr b') \<and> I b'"
  using assms
proof (induction xs arbitrary: b)
  case (Cons x xs)
  obtain b1 where b1: "f x b = Some (Inr b1)" "I b1" using Cons.prems by auto
  then show ?case using Cons.IH[OF b1(2)] Cons.prems(2) by auto
qed simp

lemma fold_outcome_total:
  "(\<And>x b. x \<in> set xs \<Longrightarrow> \<exists>b'. f x b = Some (Inr b')) \<Longrightarrow> \<exists>b'. fold_outcome f xs b = Some (Inr b')"
  using fold_outcome_succeeds[of "\<lambda>_. True" b xs f] by blast

section \<open>What a tick does\<close>

text \<open>While the events of a tick are handled the clock stands still and gains only observations, due
  after the delay.\<close>

definition is_observation :: "event_kind \<Rightarrow> bool" where
  "is_observation k = (case k of ObservationDue _ _ \<Rightarrow> True | _ \<Rightarrow> False)"

definition only_gains :: "virtual_clock \<Rightarrow> virtual_clock \<Rightarrow> bool" where
  "only_gains c c' =
     (vc_now c' = vc_now c \<and> (queue_inv c \<longrightarrow> queue_inv c') \<and>
      (\<exists>new. mset (vc_events c') = mset (vc_events c) + new \<and>
        (\<forall>ev \<in># new. ev_at ev = vc_now c + OBSERVATION_DELAY \<and> is_observation (ev_kind ev))))"

lemma only_gains_refl [simp]: "only_gains c c"
  by (simp add: only_gains_def)

lemma only_gains_trans:
  assumes "only_gains a b" and "only_gains b c"
  shows "only_gains a c"
proof -
  obtain n where n: "mset (vc_events b) = mset (vc_events a) + n"
    "\<forall>ev \<in># n. ev_at ev = vc_now a + OBSERVATION_DELAY \<and> is_observation (ev_kind ev)"
    using assms(1) unfolding only_gains_def by blast
  obtain m where m: "mset (vc_events c) = mset (vc_events b) + m"
    "\<forall>ev \<in># m. ev_at ev = vc_now a + OBSERVATION_DELAY \<and> is_observation (ev_kind ev)"
    using assms unfolding only_gains_def by metis
  have "mset (vc_events c) = mset (vc_events a) + (n + m)" using n(1) m(1) by (simp add: add.assoc)
  moreover have "\<forall>ev \<in># n + m. ev_at ev = vc_now a + OBSERVATION_DELAY \<and> is_observation (ev_kind ev)"
    using n(2) m(2) by auto
  ultimately show ?thesis using assms by (auto simp: only_gains_def)
qed

lemma schedule_now [simp]: "vc_now (fst (schedule k t c)) = vc_now c"
  by (simp add: schedule_def Let_def)

lemma schedule_observation_gains:
  assumes "schedule_observation cmd c = Some (Inr c')"
  shows "only_gains c c'"
proof (cases "observable_action_name cmd")
  case None
  then show ?thesis using assms by (simp add: schedule_observation_def)
next
  case (Some action)
  then have "c' = fst (schedule (ObservationDue action (vc_now c)) (vc_now c + OBSERVATION_DELAY) c)"
    using assms by (auto simp: schedule_observation_def)
  moreover have "mset (vc_events (fst (schedule k t c))) = mset (vc_events c) +
      {# \<lparr> ev_at = t, ev_id = vc_next_id c, ev_kind = k \<rparr> #}" for k t
    by (simp add: schedule_events)
  ultimately show ?thesis unfolding only_gains_def by (fastforce simp: schedule_inv is_observation_def)
qed

lemma apply_directive_gains:
  assumes "sim_apply_directive d sim = Some (Inr sim')"
  shows "only_gains (sim_clock sim) (sim_clock sim')"
proof -
  obtain c where c: "fold_outcome schedule_observation (commands d) (sim_clock sim) = Some (Inr c)" "sim_clock sim' = c"
    using assms by (auto simp: sim_apply_directive_def)
  have "only_gains (sim_clock sim) c"
    by (rule fold_outcome_inv[OF c(1)]) (auto intro: only_gains_trans schedule_observation_gains)
  then show ?thesis using c(2) by simp
qed

text \<open>What handling an event keeps: the length of a tick, a missing noise generator,
  the snapshots, the device and the active actions; the heartbeats recorded are counted.\<close>

definition keeps :: "nat \<Rightarrow> ('c, 'r, 'p) simulator \<Rightarrow> ('c, 'r, 'p) simulator \<Rightarrow> bool" where
  "keeps n a b = (sim_tick_dt b = sim_tick_dt a \<and> (sim_rng a = None \<longrightarrow> sim_rng b = None) \<and>
     snapshots (sim_trajectory b) = snapshots (sim_trajectory a) \<and>
     heartbeat_count (sim_trajectory b) = heartbeat_count (sim_trajectory a) + n \<and>
     sim_state b = sim_state a \<and> sim_ctx b = sim_ctx a \<and>
     set (em_active_actions (sim_engine b)) \<subseteq> set (em_active_actions (sim_engine a)) \<and>
     only_gains (sim_clock a) (sim_clock b))"

lemma keeps_refl [simp]: "keeps 0 a a"
  by (simp add: keeps_def)

lemma keeps_trans: "keeps n a b \<Longrightarrow> keeps m b c \<Longrightarrow> keeps (n + m) a c"
  by (auto simp: keeps_def intro: only_gains_trans)

lemma snapshots_append: "snapshots (xs @ ys) = snapshots xs @ snapshots ys"
  by (simp add: snapshots_def map_filter_def)

lemma heartbeat_count_append: "heartbeat_count (xs @ ys) = heartbeat_count xs + heartbeat_count ys"
  by (simp add: heartbeat_count_def)

lemma heartbeat_count_single [simp]: "heartbeat_count [e] = (if is_heartbeat e then 1 else 0)"
  by (simp add: heartbeat_count_def)

lemmas trace_simps = snapshots_append heartbeat_count_append

lemmas record_defs =
  record_heartbeat_def record_signal_def record_directive_def record_observation_due_def record_injection_event_def
  record_custom_def record_observation_overrun_def record_level_transition_def

lemma apply_directive_keeps: "sim_apply_directive d sim = Some (Inr sim') \<Longrightarrow> keeps 0 sim sim'"
  using apply_directive_gains[of d sim sim'] apply_directives_actions[of "[d]" "sim_engine sim"]
  by (auto simp: sim_apply_directive_def keeps_def)

lemma note_level_keeps: "keeps 0 sim (note_level t sig sim)"
  by (simp add: note_level_def keeps_def Let_def record_defs trace_simps)

lemma enact_decision_keeps:
  assumes "enact_decision V t sig d sim = Some (Inr sim')"
  shows "keeps 0 sim sim'"
proof -
  obtain dd r where r: "dedup_process d (as_secs_f64 t) (sim_dedup sim) = (dd, r)"
    by (cases "dedup_process d (as_secs_f64 t) (sim_dedup sim)")
  show ?thesis
  proof (cases r)
    case None
    then show ?thesis using assms r by (auto simp: enact_decision_def keeps_def)
  next
    case (Some d')
    then obtain sim1 where "sim_apply_directive d' (sim\<lparr>sim_dedup := dd\<rparr>) = Some (Inr sim1)"
      "sim' = sim1\<lparr>sim_trajectory := record_directive (se_debug V) t sig d' (sim_trajectory sim1)\<rparr>"
      using assms r by (auto simp: enact_decision_def)
    then show ?thesis using apply_directive_keeps[of d' "sim\<lparr>sim_dedup := dd\<rparr>" sim1]
      by (auto simp: keeps_def record_defs trace_simps)
  qed
qed

lemma handle_signal_cases:
  assumes "handle_signal V t sig sim = Some (Inr sim')"
  obtains p decision sim3 where
    "po_process_signal (se_policy V) (se_host V (signal_count (sim_trajectory (note_level t sig sim)))) sig
       (sim_policy (note_level t sig sim)) = (p, decision)"
    and "(case decision of None \<Rightarrow> ok ((note_level t sig sim)\<lparr>sim_policy := p\<rparr>)
          | Some d \<Rightarrow> enact_decision V t sig d ((note_level t sig sim)\<lparr>sim_policy := p\<rparr>)) = Some (Inr sim3)"
    and "sim' = sim3\<lparr>sim_trajectory := record_signal t sig (sim_trajectory sim3)\<rparr>"
  using assms by (auto simp: handle_signal_def Let_def split: prod.splits)

lemma handle_signal_keeps:
  assumes "handle_signal V t sig sim = Some (Inr sim')"
  shows "keeps 0 sim sim'"
  using assms
proof (rule handle_signal_cases)
  fix p decision sim3
  assume c: "(case decision of None \<Rightarrow> ok ((note_level t sig sim)\<lparr>sim_policy := p\<rparr>)
          | Some d \<Rightarrow> enact_decision V t sig d ((note_level t sig sim)\<lparr>sim_policy := p\<rparr>)) = Some (Inr sim3)"
    and s': "sim' = sim3\<lparr>sim_trajectory := record_signal t sig (sim_trajectory sim3)\<rparr>"
  have "keeps 0 sim ((note_level t sig sim)\<lparr>sim_policy := p\<rparr>)"
    using note_level_keeps[of sim t sig] by (auto simp: keeps_def)
  moreover have "keeps 0 ((note_level t sig sim)\<lparr>sim_policy := p\<rparr>) sim3"
    using c enact_decision_keeps by (cases decision) auto
  ultimately have "keeps 0 sim sim3" using keeps_trans by fastforce
  then show ?thesis by (auto simp: s' keeps_def record_defs trace_simps)
qed

lemma draw_noise_none [simp]: "draw_noise M G key sigma None = Some (Fin 0, None)"
  by (simp add: draw_noise_def)

lemma derive_signal_none: "\<exists>r. derive_signal M G kind s cfg None = Some (r, None)"
  by (cases kind) (simp_all add: derive_signal_def derive_memory_signal_def derive_compute_signal_def
      derive_thermal_signal_def derive_energy_signal_def Let_def split: prod.splits)

lemma derive_heartbeat_none: "derive_heartbeat M G s e cfg None = Some (Heartbeat heartbeat_status, None)"
  by (simp add: derive_heartbeat_def Let_def)

lemma handle_event_keeps:
  assumes "handle_event V ev sim = Some (Inr sim')"
  shows "keeps (if ev_kind ev = EvHeartbeat then 1 else 0) sim sim'"
proof -
  have k: "keeps 0 sim (sim\<lparr>sim_rng := rng\<rparr>)" if "sim_rng sim = None \<Longrightarrow> rng = None" for rng
    using that by (simp add: keeps_def)
  have sig: "keeps 0 sim sim'" if d: "derive_signal (se_math V) (se_gen V) kind (sim_state sim) (se_cfg V) (sim_rng sim) = Some (sg, rng)"
    and h: "(case sg of None \<Rightarrow> ok (sim\<lparr>sim_rng := rng\<rparr>) | Some sg' \<Rightarrow> handle_signal V (ev_at ev) sg' (sim\<lparr>sim_rng := rng\<rparr>)) = Some (Inr sim')"
    for kind sg rng
  proof -
    have "sim_rng sim = None \<Longrightarrow> rng = None"
      using d derive_signal_none[of "se_math V" "se_gen V" kind "sim_state sim" "se_cfg V"] by auto
    note k' = k[OF this]
    show ?thesis
    proof (cases sg)
      case None
      then show ?thesis using h k' by simp
    next
      case (Some a)
      then have "handle_signal V (ev_at ev) a (sim\<lparr>sim_rng := rng\<rparr>) = Some (Inr sim')" using h by simp
      then show ?thesis using keeps_trans[OF k' handle_signal_keeps] by fastforce
    qed
  qed
  have hb: "rng = None" if "derive_heartbeat (se_math V) (se_gen V) (sim_state sim) (sim_engine sim) (se_cfg V) (sim_rng sim) = Some (msg, rng)"
    and "sim_rng sim = None" for msg rng
    using that by (simp add: derive_heartbeat_none)
  show ?thesis
  proof (cases "ev_kind ev")
    case EvHeartbeat
    then obtain msg rng where r: "derive_heartbeat (se_math V) (se_gen V) (sim_state sim) (sim_engine sim) (se_cfg V) (sim_rng sim) = Some (msg, rng)"
      and s': "sim' = sim\<lparr>sim_rng := rng, sim_policy := po_update_engine_state (se_policy V) msg (sim_policy sim),
        sim_trajectory := record_heartbeat (ev_at ev) msg (sim_trajectory sim)\<rparr>"
      using assms by (auto simp: handle_event_def Let_def bind_eq_Some_conv)
    show ?thesis using hb[OF r] EvHeartbeat by (simp add: s' keeps_def record_defs trace_simps)
  next
    case SignalMemory
    then show ?thesis using assms sig by (auto simp: handle_event_def Let_def bind_eq_Some_conv)
  next
    case SignalCompute
    then show ?thesis using assms sig by (auto simp: handle_event_def Let_def bind_eq_Some_conv)
  next
    case SignalThermal
    then show ?thesis using assms sig by (auto simp: handle_event_def Let_def bind_eq_Some_conv)
  next
    case SignalEnergy
    then show ?thesis using assms sig by (auto simp: handle_event_def Let_def bind_eq_Some_conv)
  qed (use assms in \<open>auto simp: handle_event_def Let_def keeps_def record_defs trace_simps\<close>)
qed

text \<open>With room for the delay of an observation and no noise, handling an event succeeds.\<close>

lemma schedule_observation_succeeds:
  assumes "vc_now c + OBSERVATION_DELAY \<le> DURATION_MAX"
  shows "\<exists>c'. schedule_observation cmd c = Some (Inr c') \<and> vc_now c' + OBSERVATION_DELAY \<le> DURATION_MAX"
  using assms by (cases "observable_action_name cmd") (simp_all add: schedule_observation_def)

lemma apply_directive_succeeds:
  assumes "vc_now (sim_clock sim) + OBSERVATION_DELAY \<le> DURATION_MAX"
  shows "\<exists>sim'. sim_apply_directive d sim = Some (Inr sim')"
  using fold_outcome_succeeds[of "\<lambda>c. vc_now c + OBSERVATION_DELAY \<le> DURATION_MAX" "sim_clock sim" "commands d" schedule_observation]
    schedule_observation_succeeds assms
  by (auto simp: sim_apply_directive_def)

lemma handle_signal_succeeds:
  assumes "vc_now (sim_clock sim) + OBSERVATION_DELAY \<le> DURATION_MAX"
  shows "\<exists>sim'. handle_signal V t sig sim = Some (Inr sim')"
proof -
  have n: "sim_clock (note_level t sig sim) = sim_clock sim" by (simp add: note_level_def Let_def)
  have e: "\<exists>sim'. enact_decision V t sig d ((note_level t sig sim)\<lparr>sim_policy := p\<rparr>) = Some (Inr sim')" for d p
    using assms n by (auto simp: enact_decision_def intro!: apply_directive_succeeds split: prod.splits option.splits)
  obtain p decision where p: "po_process_signal (se_policy V) (se_host V (signal_count (sim_trajectory (note_level t sig sim)))) sig
      (sim_policy (note_level t sig sim)) = (p, decision)"
    by (cases "po_process_signal (se_policy V) (se_host V (signal_count (sim_trajectory (note_level t sig sim)))) sig
      (sim_policy (note_level t sig sim))")
  then show ?thesis using e by (cases decision) (auto simp: handle_signal_def Let_def)
qed

lemma handle_event_succeeds:
  assumes "sim_rng sim = None" and "vc_now (sim_clock sim) + OBSERVATION_DELAY \<le> DURATION_MAX"
  shows "\<exists>sim'. handle_event V ev sim = Some (Inr sim')"
proof -
  have "\<exists>sim'. Option.bind (derive_signal (se_math V) (se_gen V) kind (sim_state sim) (se_cfg V) (sim_rng sim))
            (\<lambda>(sig, rng). case sig of
               None \<Rightarrow> ok (sim\<lparr>sim_rng := rng\<rparr>)
             | Some sg \<Rightarrow> handle_signal V t sg (sim\<lparr>sim_rng := rng\<rparr>)) = Some (Inr sim')" for kind t
    using derive_signal_none[of "se_math V" "se_gen V" kind "sim_state sim" "se_cfg V"] assms
      handle_signal_succeeds[of "sim\<lparr>sim_rng := None\<rparr>"]
    by (auto split: option.splits)
  then show ?thesis using assms
    by (cases "ev_kind ev") (simp_all add: handle_event_def derive_heartbeat_none Let_def)
qed

definition beats :: "scheduled_event list \<Rightarrow> nat" where
  "beats evs = length (filter (\<lambda>ev. ev_kind ev = EvHeartbeat) evs)"

lemma handle_events_keep:
  "fold_outcome (handle_event V) evs sim = Some (Inr sim') \<Longrightarrow> keeps (beats evs) sim sim'"
proof (induction evs arbitrary: sim)
  case (Cons ev evs)
  then obtain s1 where s1: "handle_event V ev sim = Some (Inr s1)" "keeps (beats evs) s1 sim'" by auto
  then show ?case using keeps_trans[OF handle_event_keeps[OF s1(1)] s1(2)] by (simp add: beats_def split: if_splits)
qed (simp add: beats_def)

definition roomy :: "('c, 'r, 'p) simulator \<Rightarrow> bool" where
  "roomy s = (sim_rng s = None \<and> vc_now (sim_clock s) + OBSERVATION_DELAY \<le> DURATION_MAX)"

lemma handle_events_succeed:
  assumes "sim_rng sim = None" and "vc_now (sim_clock sim) + OBSERVATION_DELAY \<le> DURATION_MAX"
  shows "\<exists>sim'. fold_outcome (handle_event V) evs sim = Some (Inr sim')"
proof -
  have "\<exists>s'. handle_event V ev s = Some (Inr s') \<and> roomy s'" if i: "roomy s" for ev s
  proof -
    obtain s' where s': "handle_event V ev s = Some (Inr s')"
      using handle_event_succeeds[of s V ev] i by (auto simp: roomy_def)
    then show ?thesis using handle_event_keeps[OF s'] i by (simp add: keeps_def only_gains_def roomy_def)
  qed
  then show ?thesis using fold_outcome_succeeds[of roomy sim evs "handle_event V"] assms by (auto simp: roomy_def)
qed

lemma note_overrun_frame [simp]:
  "sim_clock (note_overrun V t sim) = sim_clock sim" "sim_tick_dt (note_overrun V t sim) = sim_tick_dt sim"
  "sim_rng (note_overrun V t sim) = sim_rng sim" "sim_dedup (note_overrun V t sim) = sim_dedup sim"
  "sim_policy (note_overrun V t sim) = sim_policy sim" "sim_engine (note_overrun V t sim) = sim_engine sim"
  "sim_state (note_overrun V t sim) = sim_state sim" "sim_ctx (note_overrun V t sim) = sim_ctx sim"
  "snapshots (sim_trajectory (note_overrun V t sim)) = snapshots (sim_trajectory sim)"
  "heartbeat_count (sim_trajectory (note_overrun V t sim)) = heartbeat_count (sim_trajectory sim)"
  by (simp_all add: note_overrun_def Let_def record_defs trace_simps)

lemma sim_physics_frame:
  "sim_physics V sim = Some (Inr sim') \<Longrightarrow> \<exists>s c. sim' = sim\<lparr>sim_state := s, sim_ctx := c\<rparr>"
  by (auto simp: sim_physics_def split: sum.splits) blast

lemma sim_tick_cases:
  assumes "sim_tick V sim = Some (Inr sim')"
  obtains clk evs sim1 s c where
    "drain_until (vc_now (sim_clock sim) + sim_tick_dt sim) (sim_clock sim) = (clk, evs)"
    and "fold_outcome (handle_event V) evs (sim\<lparr>sim_clock := clk\<rparr>) = Some (Inr sim1)"
    and "sim' = (note_overrun V (vc_now (sim_clock sim) + sim_tick_dt sim) sim1)
       \<lparr>sim_state := s, sim_ctx := c,
        sim_trajectory := record_state_snapshot (vc_now (sim_clock sim) + sim_tick_dt sim) s (sim_engine sim1)
          (sim_trajectory (note_overrun V (vc_now (sim_clock sim) + sim_tick_dt sim) sim1)),
        sim_clock := (sim_clock sim1)\<lparr>vc_now := vc_now (sim_clock sim1) + sim_tick_dt sim1\<rparr>\<rparr>"
proof -
  obtain clk evs where d: "drain_until (vc_now (sim_clock sim) + sim_tick_dt sim) (sim_clock sim) = (clk, evs)"
    by (cases "drain_until (vc_now (sim_clock sim) + sim_tick_dt sim) (sim_clock sim)")
  obtain sim1 sim2 where s1: "fold_outcome (handle_event V) evs (sim\<lparr>sim_clock := clk\<rparr>) = Some (Inr sim1)"
    and s2: "sim_physics V (note_overrun V (vc_now (sim_clock sim) + sim_tick_dt sim) sim1) = Some (Inr sim2)"
    and s': "(case advance (sim_tick_dt sim2) (sim_clock sim2) of
       Inl e \<Rightarrow> fail (HPanic e)
     | Inr c \<Rightarrow> ok (sim2\<lparr>sim_trajectory := record_state_snapshot (vc_now (sim_clock sim) + sim_tick_dt sim) (sim_state sim2)
          (sim_engine sim2) (sim_trajectory sim2), sim_clock := c\<rparr>)) = Some (Inr sim')"
    using assms d by (auto simp: sim_tick_def Let_def)
  obtain s c where "sim2 = (note_overrun V (vc_now (sim_clock sim) + sim_tick_dt sim) sim1)\<lparr>sim_state := s, sim_ctx := c\<rparr>"
    using sim_physics_frame[OF s2] by blast
  with that[OF d s1] s' show thesis
    by (auto simp: advance_def duration_checked_add_def split: sum.splits if_splits)
qed

lemma drain_now: "drain_until t c = (clk, evs) \<Longrightarrow> vc_now clk = vc_now c"
  by (auto simp: drain_until_def split: prod.splits)

text \<open>A tick that succeeds moves the clock by the length of a tick and adds one snapshot, at its end.\<close>

lemma sim_tick_step:
  assumes "sim_tick V sim = Some (Inr sim')"
  shows "vc_now (sim_clock sim') = vc_now (sim_clock sim) + sim_tick_dt sim"
    and "sim_tick_dt sim' = sim_tick_dt sim"
    and "sim_rng sim = None \<Longrightarrow> sim_rng sim' = None"
    and "map fst (snapshots (sim_trajectory sim')) =
      map fst (snapshots (sim_trajectory sim)) @ [as_secs_f64 (vc_now (sim_clock sim) + sim_tick_dt sim)]"
proof -
  obtain clk evs sim1 s c where
    d: "drain_until (vc_now (sim_clock sim) + sim_tick_dt sim) (sim_clock sim) = (clk, evs)"
    and e: "fold_outcome (handle_event V) evs (sim\<lparr>sim_clock := clk\<rparr>) = Some (Inr sim1)"
    and s': "sim' = (note_overrun V (vc_now (sim_clock sim) + sim_tick_dt sim) sim1)
       \<lparr>sim_state := s, sim_ctx := c,
        sim_trajectory := record_state_snapshot (vc_now (sim_clock sim) + sim_tick_dt sim) s (sim_engine sim1)
          (sim_trajectory (note_overrun V (vc_now (sim_clock sim) + sim_tick_dt sim) sim1)),
        sim_clock := (sim_clock sim1)\<lparr>vc_now := vc_now (sim_clock sim1) + sim_tick_dt sim1\<rparr>\<rparr>"
    using assms by (rule sim_tick_cases)
  note k = handle_events_keep[OF e]
  show "vc_now (sim_clock sim') = vc_now (sim_clock sim) + sim_tick_dt sim"
    using k drain_now[OF d] by (simp add: s' keeps_def only_gains_def)
  show "sim_tick_dt sim' = sim_tick_dt sim" "sim_rng sim = None \<Longrightarrow> sim_rng sim' = None"
    using k by (simp_all add: s' keeps_def)
  show "map fst (snapshots (sim_trajectory sim')) =
      map fst (snapshots (sim_trajectory sim)) @ [as_secs_f64 (vc_now (sim_clock sim) + sim_tick_dt sim)]"
    using k by (simp add: s' keeps_def record_state_snapshot_def snapshots_append)
qed

lemma sim_tick_outcome:
  assumes "sim_rng sim = None" and "vc_now (sim_clock sim) + OBSERVATION_DELAY \<le> DURATION_MAX"
    and "vc_now (sim_clock sim) + sim_tick_dt sim \<le> DURATION_MAX"
  shows "\<exists>r. sim_tick V sim = Some r \<and> (\<forall>e. r = Inl e \<longrightarrow> (\<exists>x eng clk. e = HPhysics x \<and>
    physics_step (se_expr V) (se_math V) eng (se_cfg V) clk (sim_tick_dt sim) (sim_state sim) (sim_ctx sim) = Inl x \<and>
    set (em_active_actions eng) \<subseteq> set (em_active_actions (sim_engine sim))))"
proof -
  let ?fin = "vc_now (sim_clock sim) + sim_tick_dt sim"
  obtain clk evs where d: "drain_until ?fin (sim_clock sim) = (clk, evs)"
    by (cases "drain_until ?fin (sim_clock sim)")
  have n: "vc_now clk = vc_now (sim_clock sim)" using drain_now[OF d] .
  obtain sim1 where e: "fold_outcome (handle_event V) evs (sim\<lparr>sim_clock := clk\<rparr>) = Some (Inr sim1)"
    using handle_events_succeed[of "sim\<lparr>sim_clock := clk\<rparr>" V evs] assms n by auto
  have k: "sim_tick_dt sim1 = sim_tick_dt sim" "vc_now (sim_clock sim1) = vc_now (sim_clock sim)"
      "sim_state sim1 = sim_state sim" "sim_ctx sim1 = sim_ctx sim"
      "set (em_active_actions (sim_engine sim1)) \<subseteq> set (em_active_actions (sim_engine sim))"
    using handle_events_keep[OF e] n by (auto simp: keeps_def only_gains_def)
  have a: "checked_add (vc_now (sim_clock sim)) (sim_tick_dt sim) = ok ?fin"
    using assms(3) by (simp add: checked_add_def duration_checked_add_def)
  let ?s = "note_overrun V ?fin sim1"
  have t: "sim_tick V sim = and_then (sim_physics V ?s) (\<lambda>sim2.
     case advance (sim_tick_dt sim2) (sim_clock sim2) of
       Inl e \<Rightarrow> fail (HPanic e)
     | Inr c \<Rightarrow> ok (sim2\<lparr>sim_trajectory := record_state_snapshot ?fin (sim_state sim2) (sim_engine sim2) (sim_trajectory sim2),
                 sim_clock := c\<rparr>))"
    by (simp add: sim_tick_def a d e and_then_def ok_def Let_def)
  show ?thesis
  proof (cases "sim_physics V ?s")
    case None
    then show ?thesis by (simp add: sim_physics_def fail_def ok_def split: sum.splits prod.splits)
  next
    case (Some r)
    show ?thesis
    proof (cases r)
      case (Inl x)
      then obtain y where "x = HPhysics y" "physics_step (se_expr V) (se_math V) (sim_engine sim1) (se_cfg V)
          (sim_clock sim1) (sim_tick_dt sim) (sim_state sim) (sim_ctx sim) = Inl y"
        using Some k by (auto simp: sim_physics_def fail_def split: sum.splits)
      then show ?thesis using Some Inl k(5) by (auto simp: t and_then_def fail_def)
    next
      case (Inr sim2)
      then have "sim_tick_dt sim2 = sim_tick_dt sim" "vc_now (sim_clock sim2) = vc_now (sim_clock sim)"
        using sim_physics_frame[of V ?s sim2] Some k by auto
      then have "advance (sim_tick_dt sim2) (sim_clock sim2) = Inr ((sim_clock sim2)\<lparr>vc_now := ?fin\<rparr>)"
        using assms(3) by (simp add: advance_def duration_checked_add_def)
      then show ?thesis using Some Inr by (simp add: t and_then_def ok_def)
    qed
  qed
qed

section \<open>What a run does\<close>

lemma run_loop_inv:
  assumes "run_loop V stop sim = Some r" and "r = Inr sim'" and "I sim"
    and step: "\<And>s s'. I s \<Longrightarrow> vc_now (sim_clock s) < stop \<Longrightarrow> sim_tick V s = Some (Inr s') \<Longrightarrow> I s'"
  shows "I sim' \<and> stop \<le> vc_now (sim_clock sim')"
proof -
  have "(\<forall>s s'. I s \<longrightarrow> vc_now (sim_clock s) < stop \<longrightarrow> sim_tick V s = Some (Inr s') \<longrightarrow> I s') \<longrightarrow>
      I sim \<longrightarrow> r = Inr sim' \<longrightarrow> I sim' \<and> stop \<le> vc_now (sim_clock sim')"
  proof (rule run_loop.raw_induct[where P = "\<lambda>V stop sim r.
      (\<forall>s s'. I s \<longrightarrow> vc_now (sim_clock s) < stop \<longrightarrow> sim_tick V s = Some (Inr s') \<longrightarrow> I s') \<longrightarrow>
      I sim \<longrightarrow> r = Inr sim' \<longrightarrow> I sim' \<and> stop \<le> vc_now (sim_clock sim')", OF _ assms(1)], intro impI)
    fix f V stop sim r
    assume IH: "\<And>V stop sim r. f V stop sim = Some r \<Longrightarrow>
        (\<forall>s s'. I s \<longrightarrow> vc_now (sim_clock s) < stop \<longrightarrow> sim_tick V s = Some (Inr s') \<longrightarrow> I s') \<longrightarrow>
        I sim \<longrightarrow> r = Inr sim' \<longrightarrow> I sim' \<and> stop \<le> vc_now (sim_clock sim')"
      and e: "(if vc_now (sim_clock sim) < stop
        then Option.bind (sim_tick V sim) (\<lambda>r. case r of Inl e \<Rightarrow> fail e | Inr sim' \<Rightarrow> f V stop sim')
        else ok sim) = Some r"
      and st: "\<forall>s s'. I s \<longrightarrow> vc_now (sim_clock s) < stop \<longrightarrow> sim_tick V s = Some (Inr s') \<longrightarrow> I s'"
      and i: "I sim" and r: "r = Inr sim'"
    show "I sim' \<and> stop \<le> vc_now (sim_clock sim')"
    proof (cases "vc_now (sim_clock sim) < stop")
      case True
      then obtain s1 where s1: "sim_tick V sim = Some (Inr s1)" "f V stop s1 = Some r"
        using e r by (auto simp: and_then_def [symmetric])
      then show ?thesis using IH[OF s1(2)] st i True r by blast
    next
      case False
      then show ?thesis using e r i by auto
    qed
  qed
  then show ?thesis using assms(2,3) step by blast
qed

lemma until_loop_inv:
  assumes "until_loop V pred stop sim = Some r" and "r = Inr sim'" and "I sim"
    and step: "\<And>s s'. I s \<Longrightarrow> sim_tick V s = Some (Inr s') \<Longrightarrow> I s'"
  shows "I sim' \<and> pred sim'"
proof -
  have "(\<forall>s s'. I s \<longrightarrow> sim_tick V s = Some (Inr s') \<longrightarrow> I s') \<longrightarrow> I sim \<longrightarrow> r = Inr sim' \<longrightarrow> I sim' \<and> pred sim'"
  proof (rule until_loop.raw_induct[where P = "\<lambda>V pred stop sim r.
      (\<forall>s s'. I s \<longrightarrow> sim_tick V s = Some (Inr s') \<longrightarrow> I s') \<longrightarrow> I sim \<longrightarrow> r = Inr sim' \<longrightarrow> I sim' \<and> pred sim'",
      OF _ assms(1)], intro impI)
    fix f V pred stop sim r
    assume IH: "\<And>V pred stop sim r. f V pred stop sim = Some r \<Longrightarrow>
        (\<forall>s s'. I s \<longrightarrow> sim_tick V s = Some (Inr s') \<longrightarrow> I s') \<longrightarrow> I sim \<longrightarrow> r = Inr sim' \<longrightarrow> I sim' \<and> pred sim'"
      and e: "(if pred sim then ok sim
        else if stop \<le> vc_now (sim_clock sim) then fail MaxDurationExceeded
        else Option.bind (sim_tick V sim) (\<lambda>r. case r of Inl e \<Rightarrow> fail e | Inr sim' \<Rightarrow> f V pred stop sim')) = Some r"
      and st: "\<forall>s s'. I s \<longrightarrow> sim_tick V s = Some (Inr s') \<longrightarrow> I s'"
      and i: "I sim" and r: "r = Inr sim'"
    show "I sim' \<and> pred sim'"
    proof (cases "pred sim")
      case True
      then show ?thesis using e r i by auto
    next
      case False
      then obtain s1 where s1: "sim_tick V sim = Some (Inr s1)" "f V pred stop s1 = Some r"
        using e r by (auto simp: and_then_def [symmetric] split: if_splits)
      then show ?thesis using IH[OF s1(2)] st i r by blast
    qed
  qed
  then show ?thesis using assms(2,3) step by blast
qed

text \<open>The number of ticks a loop makes.\<close>

definition ticks_needed :: "duration \<Rightarrow> duration \<Rightarrow> duration \<Rightarrow> nat" where
  "ticks_needed now stop dt = (stop - now + (dt - 1)) div dt"

lemma ticks_needed_0: "0 < dt \<Longrightarrow> stop \<le> now \<Longrightarrow> ticks_needed now stop dt = 0"
  by (simp add: ticks_needed_def)

lemma ticks_needed_Suc:
  assumes "0 < dt" and "now < stop"
  shows "ticks_needed now stop dt = Suc (ticks_needed (now + dt) stop dt)"
proof -
  have e: "stop - now + (dt - 1) = (stop - now - 1) + dt" using assms by simp
  have "(stop - now + (dt - 1)) div dt = Suc ((stop - now - 1) div dt)"
    unfolding e by (subst div_add_self2) (use assms in auto)
  moreover have "(stop - (now + dt) + (dt - 1)) div dt = (stop - now - 1) div dt"
  proof (cases "now + dt \<le> stop")
    case True
    then have "stop - (now + dt) + (dt - 1) = stop - now - 1" using assms by simp
    then show ?thesis by simp
  next
    case False
    then show ?thesis using assms by (simp add: div_less)
  qed
  ultimately show ?thesis by (simp only: ticks_needed_def)
qed

definition tick_ends :: "duration \<Rightarrow> duration \<Rightarrow> nat \<Rightarrow> f64 list" where
  "tick_ends now dt k = map (\<lambda>i. as_secs_f64 (now + i * dt)) [1..<Suc k]"

lemma tick_ends_Suc: "tick_ends now dt (Suc k) = as_secs_f64 (now + dt) # tick_ends (now + dt) dt k"
proof -
  have "[1..<Suc (Suc k)] = 1 # map Suc [1..<Suc k]" by (simp add: map_Suc_upt upt_conv_Cons del: upt_Suc)
  then show ?thesis by (simp add: tick_ends_def comp_def algebra_simps del: upt_Suc)
qed

text \<open>The clock and the times of the snapshots after a loop of whole ticks up to a time.\<close>

definition ran_to :: "duration \<Rightarrow> ('c, 'r, 'p) simulator \<Rightarrow> ('c, 'r, 'p) simulator \<Rightarrow> bool" where
  "ran_to stop a b =
     (let now = vc_now (sim_clock a); dt = sim_tick_dt a; k = ticks_needed now stop dt in
      vc_now (sim_clock b) = now + k * dt \<and>
      map fst (snapshots (sim_trajectory b)) = map fst (snapshots (sim_trajectory a)) @ tick_ends now dt k)"

lemma ran_to_refl: "0 < sim_tick_dt sim \<Longrightarrow> stop \<le> vc_now (sim_clock sim) \<Longrightarrow> ran_to stop sim sim"
  by (simp add: ran_to_def ticks_needed_0 tick_ends_def)

lemma ran_to_step:
  assumes "sim_tick V sim = Some (Inr s1)" and "0 < sim_tick_dt sim" and "vc_now (sim_clock sim) < stop"
    and "ran_to stop s1 sim'"
  shows "ran_to stop sim sim'"
  using assms(4) ticks_needed_Suc[OF assms(2,3)] sim_tick_step[OF assms(1)]
  by (simp add: ran_to_def Let_def tick_ends_Suc)

lemma run_loop_exact:
  assumes "sim_rng sim = None" and "0 < sim_tick_dt sim"
    and "stop + OBSERVATION_DELAY \<le> DURATION_MAX" and "stop + sim_tick_dt sim \<le> DURATION_MAX"
  shows "\<exists>r. run_loop V stop sim = Some r \<and> (case r of Inl e \<Rightarrow> \<exists>x. e = HPhysics x | Inr sim' \<Rightarrow> ran_to stop sim sim')"
  using assms
proof (induction "stop - vc_now (sim_clock sim)" arbitrary: sim rule: less_induct)
  case less
  show ?case
  proof (cases "vc_now (sim_clock sim) < stop")
    case False
    then show ?thesis using ran_to_refl[OF less.prems(2)] by (simp add: run_loop.simps[of V stop sim] ok_def)
  next
    case True
    obtain r1 where r1: "sim_tick V sim = Some r1" "\<forall>e. r1 = Inl e \<longrightarrow> (\<exists>x. e = HPhysics x)"
      using sim_tick_outcome[of sim V] less.prems True by fastforce
    show ?thesis
    proof (cases r1)
      case (Inl e)
      then show ?thesis using True r1 by (simp add: run_loop.simps[of V stop sim] fail_def)
    next
      case (Inr s1)
      note t = r1(1)[unfolded Inr]
      have "stop - vc_now (sim_clock s1) < stop - vc_now (sim_clock sim)"
        using True sim_tick_step(1)[OF t] less.prems(2) by simp
      from less.hyps[OF this] obtain r where r: "run_loop V stop s1 = Some r"
        "case r of Inl e \<Rightarrow> \<exists>x. e = HPhysics x | Inr sim' \<Rightarrow> ran_to stop s1 sim'"
        using sim_tick_step(2,3)[OF t] less.prems by metis
      have "run_loop V stop sim = Some r" using True t r(1) by (simp add: run_loop.simps[of V stop sim])
      moreover have "case r of Inl e \<Rightarrow> \<exists>x. e = HPhysics x | Inr sim' \<Rightarrow> ran_to stop sim sim'"
        using r(2) ran_to_step[OF t less.prems(2) True] by (cases r) simp_all
      ultimately show ?thesis by blast
    qed
  qed
qed

end
