(* ===== verification/Sim_Replay.thy ===== *)
theory Sim_Replay
  imports Sim_Harness Controller
begin

text \<open>
  The simulator as a machine that refines the controller: what the policy of a simulation is fed is on
  the record, and the directives on the record are those the controller sends when it is fed the
  same.  This holds for every policy that ignores the cancellation of an observation, as both
  policies of the crate do.
\<close>

section \<open>What a record shows\<close>

text \<open>The directives of a record, with their times.\<close>

definition directive_entries :: "trajectory \<Rightarrow> (f64 \<times> directive_dump) list" where
  "directive_entries tr = List.map_filter (\<lambda>e. case e of DirectiveEntry t _ d \<Rightarrow> Some (t, d) | _ \<Rightarrow> None) tr"

lemma directive_entries_append: "directive_entries (xs @ ys) = directive_entries xs @ directive_entries ys"
  by (simp add: directive_entries_def map_filter_def)

lemma directive_entries_single [simp]:
  "directive_entries [e] = (case e of DirectiveEntry t _ d \<Rightarrow> [(t, d)] | _ \<Rightarrow> [])"
  by (simp add: directive_entries_def map_filter_def split: trajectory_entry.splits)

text \<open>The entries that show an input of the policy: a heartbeat or a signal.\<close>

fun shows_input :: "(unit, host_view) control_input \<Rightarrow> trajectory_entry \<Rightarrow> bool" where
  "shows_input (Message m) (HeartbeatEntry t d) = (d = dump_message m)"
| "shows_input (Signal h s at_s) (SignalEntry t d) = (t = at_s \<and> d = dump_signal s)"
| "shows_input _ _ = False"

fun is_input_entry :: "trajectory_entry \<Rightarrow> bool" where
  "is_input_entry (HeartbeatEntry _ _) = True"
| "is_input_entry (SignalEntry _ _) = True"
| "is_input_entry _ = False"

text \<open>A record shows inputs and directives, the signals coming with what the policy saw of the world at each
  of its decisions.\<close>

definition record_shows ::
  "(engine_command \<Rightarrow> string) \<Rightarrow> (nat \<Rightarrow> host_view) \<Rightarrow> trajectory \<Rightarrow> (unit, host_view) control_input list \<Rightarrow> (engine_directive \<times> f64) list \<Rightarrow> bool" where
  "record_shows debug host tr ins out =
     (list_all2 shows_input ins (filter is_input_entry tr) \<and>
      views_in ins = map host [0..<signal_count tr] \<and>
      directive_entries tr = map (\<lambda>(d, t). (t, dump_directive debug d)) out)"

lemma shown_no_reload: "list_all2 shows_input ins es \<Longrightarrow> list_all (\<lambda>i. \<forall>x. i \<noteq> Reload x) ins"
proof (induction rule: list_all2_induct)
  case (Cons i ins e es)
  then show ?case by (cases i) auto
qed simp

lemma signal_count_append: "signal_count (xs @ ys) = signal_count xs + signal_count ys"
  by (simp add: signal_count_def)

lemma no_input_no_signal: "filter is_input_entry es = [] \<Longrightarrow> signal_count es = 0"
proof (induction es)
  case (Cons e es)
  then show ?case by (cases e) (simp_all add: signal_count_def)
qed (simp add: signal_count_def)

definition no_reload :: "unit \<Rightarrow> 'p \<Rightarrow> 'p" where
  "no_reload x p = p"

abbreviation sim_run ::
  "'p policy_ops \<Rightarrow> 'p \<times> directive_deduplicator \<Rightarrow> (unit, host_view) control_input list \<Rightarrow>
   ('p \<times> directive_deduplicator) \<times> (engine_directive \<times> f64) list" where
  "sim_run ops \<equiv> control_run (po_process_signal ops) (po_update_engine_state ops) no_reload"

definition sim_control :: "('c, 'r, 'p) simulator \<Rightarrow> 'p \<times> directive_deduplicator" where
  "sim_control sim = (sim_policy sim, sim_dedup sim)"

definition sim_logged ::
  "('n, 'c, 'r, 'p) sim_env \<Rightarrow> ('c, 'r, 'p) simulator \<Rightarrow> (unit, host_view) control_input list \<Rightarrow> (engine_directive \<times> f64) list \<Rightarrow> bool" where
  "sim_logged V sim = record_shows (se_debug V) (se_host V) (sim_trajectory sim)"

text \<open>A part of a step feeds the controller something: the log grows by what the controller does with it.\<close>

definition sim_feeds ::
  "('n, 'c, 'r, 'p) sim_env \<Rightarrow> ('c, 'r, 'p) simulator \<Rightarrow> ('c, 'r, 'p) simulator \<Rightarrow> bool" where
  "sim_feeds V a b =
     (\<forall>ins out. sim_logged V a ins out \<longrightarrow>
        (\<exists>ins' out'. sim_logged V b (ins @ ins') (out @ out') \<and>
           sim_run (se_policy V) (sim_control a) ins' = (sim_control b, out')))"

lemma sim_feeds_trans: "sim_feeds V a b \<Longrightarrow> sim_feeds V b c \<Longrightarrow> sim_feeds V a c"
proof -
  assume ab: "sim_feeds V a b" and bc: "sim_feeds V b c"
  show "sim_feeds V a c"
    unfolding sim_feeds_def
  proof (intro allI impI)
    fix ins out assume "sim_logged V a ins out"
    then obtain xs o1 where x: "sim_logged V b (ins @ xs) (out @ o1)"
      "sim_run (se_policy V) (sim_control a) xs = (sim_control b, o1)" using ab unfolding sim_feeds_def by blast
    then obtain ys o2 where y: "sim_logged V c ((ins @ xs) @ ys) ((out @ o1) @ o2)"
      "sim_run (se_policy V) (sim_control b) ys = (sim_control c, o2)" using bc unfolding sim_feeds_def by blast
    show "\<exists>ins' out'. sim_logged V c (ins @ ins') (out @ out') \<and>
        sim_run (se_policy V) (sim_control a) ins' = (sim_control c, out')"
      using y(1) control_run_trans[OF x(2) y(2)] by (intro exI[of _ "xs @ ys"] exI[of _ "o1 @ o2"]) simp
  qed
qed

text \<open>What touches neither the policy, the deduplicator nor the record of inputs and directives.\<close>

definition quiet_entries :: "trajectory_entry list \<Rightarrow> bool" where
  "quiet_entries es = (filter is_input_entry es = [] \<and> directive_entries es = [])"

lemma quiet_entries_simps [simp]:
  "quiet_entries []" "quiet_entries [StateSnapshot t a b]" "quiet_entries [ObservationDueEntry t c u]"
  "quiet_entries [InjectionEvent t i s]" "quiet_entries [CustomEntry t n]" "quiet_entries [ObservationOverrun t k]"
  "quiet_entries [LevelTransition t kd fr to sn]"
  by (simp_all add: quiet_entries_def) (simp add: directive_entries_def)

lemma sim_feeds_quiet:
  assumes "sim_control b = sim_control a" and "sim_trajectory b = sim_trajectory a @ es" and "quiet_entries es"
  shows "sim_feeds V a b"
  unfolding sim_feeds_def
proof (intro allI impI)
  fix ins out assume "sim_logged V a ins out"
  then have "sim_logged V b (ins @ []) (out @ [])"
    using assms(3) by (simp add: sim_logged_def record_shows_def assms(2) quiet_entries_def directive_entries_append
        signal_count_append no_input_no_signal)
  moreover have "sim_run (se_policy V) (sim_control a) [] = (sim_control b, [])" by (simp add: assms(1))
  ultimately show "\<exists>ins' out'. sim_logged V b (ins @ ins') (out @ out') \<and>
      sim_run (se_policy V) (sim_control a) ins' = (sim_control b, out')" by blast
qed

lemma sim_feeds_message:
  assumes "sim_policy b = po_update_engine_state (se_policy V) m (sim_policy a)" and "sim_dedup b = sim_dedup a"
    and "sim_trajectory b = sim_trajectory a @ [HeartbeatEntry t (dump_message m)]"
  shows "sim_feeds V a b"
  unfolding sim_feeds_def
proof (intro allI impI)
  fix ins out assume "sim_logged V a ins out"
  then have "sim_logged V b (ins @ [Message m]) (out @ [])"
    by (simp add: sim_logged_def record_shows_def assms(3) directive_entries_append list_all2_appendI
        signal_count_append) (simp add: signal_count_def)
  moreover have "sim_run (se_policy V) (sim_control a) [Message m] = (sim_control b, [])"
    by (simp add: sim_control_def assms)
  ultimately show "\<exists>ins' out'. sim_logged V b (ins @ ins') (out @ out') \<and>
      sim_run (se_policy V) (sim_control a) ins' = (sim_control b, out')" by blast
qed

section \<open>The parts of a tick\<close>

lemma apply_directive_quiet:
  "sim_apply_directive d sim = Some (Inr sim') \<Longrightarrow>
   sim_policy sim' = sim_policy sim \<and> sim_dedup sim' = sim_dedup sim \<and> sim_trajectory sim' = sim_trajectory sim"
  by (auto simp: sim_apply_directive_def)

lemma note_level_feeds: "sim_feeds V sim (note_level t sig sim)"
  by (rule sim_feeds_quiet[of _ _ "if map_of (sim_levels sim) (sd_kind (dump_signal sig)) \<noteq> Some (sd_level (dump_signal sig))
      then [LevelTransition (as_secs_f64 t) (sd_kind (dump_signal sig)) (map_of (sim_levels sim) (sd_kind (dump_signal sig)))
        (sd_level (dump_signal sig)) (snapshot_from_state (sim_state sim))] else []"])
    (simp_all add: note_level_def Let_def sim_control_def record_level_transition_def)

lemma enact_decision_shows:
  assumes "enact_decision V t sig d sim = Some (Inr sim')"
    and "\<And>p. po_cancel_last_observation (se_policy V) p = p"
    and "dedup_process d (as_secs_f64 t) (sim_dedup sim) = (dd, r)"
  shows "sim_control sim' = (sim_policy sim, dd)"
    and "sim_trajectory sim' = sim_trajectory sim @
      (case r of Some d' \<Rightarrow> [DirectiveEntry (as_secs_f64 t) (dump_signal sig) (dump_directive (se_debug V) d')] | None \<Rightarrow> [])"
  using assms apply_directive_quiet[of _ "sim\<lparr>sim_dedup := dd\<rparr>"]
  by (auto simp: enact_decision_def sim_control_def record_directive_def split: option.splits)

lemma handle_signal_feeds:
  assumes "handle_signal V t sig sim = Some (Inr sim')" and "\<And>p. po_cancel_last_observation (se_policy V) p = p"
  shows "sim_feeds V sim sim'"
proof (rule sim_feeds_trans[OF note_level_feeds[of V sim t sig]])
  let ?s = "note_level t sig sim"
  let ?h = "se_host V (signal_count (sim_trajectory ?s))"
  from assms(1) obtain p decision sim3 where
    p: "po_process_signal (se_policy V) ?h sig (sim_policy ?s) = (p, decision)"
    and r: "(case decision of None \<Rightarrow> ok (?s\<lparr>sim_policy := p\<rparr>)
      | Some d \<Rightarrow> enact_decision V t sig d (?s\<lparr>sim_policy := p\<rparr>)) = Some (Inr sim3)"
    and s': "sim' = sim3\<lparr>sim_trajectory := record_signal t sig (sim_trajectory sim3)\<rparr>"
    by (rule handle_signal_cases)
  obtain es out where es: "sim_trajectory sim3 = sim_trajectory ?s @ es"
    "filter is_input_entry es = []" "directive_entries es = map (\<lambda>(d, t). (t, dump_directive (se_debug V) d)) out"
    "sim_run (se_policy V) (sim_control ?s) [Signal ?h sig (as_secs_f64 t)] = (sim_control sim3, out)"
  proof (cases decision)
    case None
    then have "sim3 = ?s\<lparr>sim_policy := p\<rparr>" using r by simp
    then show ?thesis using p None
      by (intro that[of "[]" "[]"]) (simp_all add: sim_control_def directive_entries_def map_filter_def)
  next
    case (Some d)
    obtain dd rr where dd: "dedup_process d (as_secs_f64 t) (sim_dedup ?s) = (dd, rr)"
      by (cases "dedup_process d (as_secs_f64 t) (sim_dedup ?s)")
    have "enact_decision V t sig d (?s\<lparr>sim_policy := p\<rparr>) = Some (Inr sim3)" using r Some by simp
    from enact_decision_shows[OF this assms(2), of dd rr] dd have e: "sim_control sim3 = (p, dd)"
      "sim_trajectory sim3 = sim_trajectory ?s @
      (case rr of Some d' \<Rightarrow> [DirectiveEntry (as_secs_f64 t) (dump_signal sig) (dump_directive (se_debug V) d')] | None \<Rightarrow> [])"
      by simp_all
    show ?thesis
    proof (cases rr)
      case None
      then show ?thesis using e p Some dd by (intro that[of "[]" "[]"]) (simp_all add: sim_control_def directive_entries_def map_filter_def)
    next
      case (Some d')
      then show ?thesis using e p \<open>decision = Some d\<close> dd
        by (intro that[of "[DirectiveEntry (as_secs_f64 t) (dump_signal sig) (dump_directive (se_debug V) d')]" "[(d', as_secs_f64 t)]"])
          (simp_all add: sim_control_def)
    qed
  qed
  show "sim_feeds V ?s sim'"
    unfolding sim_feeds_def
  proof (intro allI impI)
    fix ins o1 assume l: "sim_logged V ?s ins o1"
    have "sim_logged V sim' (ins @ [Signal ?h sig (as_secs_f64 t)]) (o1 @ out)"
      using l es(1-3) no_input_no_signal[OF es(2)]
      by (simp add: s' sim_logged_def record_shows_def record_signal_def directive_entries_append list_all2_appendI
          signal_count_append) (simp add: signal_count_def)
    moreover have "sim_control sim' = sim_control sim3" by (simp add: s' sim_control_def)
    ultimately show "\<exists>ins' out'. sim_logged V sim' (ins @ ins') (o1 @ out') \<and>
        sim_run (se_policy V) (sim_control ?s) ins' = (sim_control sim', out')"
      using es(4) by auto
  qed
qed

lemma handle_event_feeds:
  assumes "handle_event V ev sim = Some (Inr sim')" and "\<And>p. po_cancel_last_observation (se_policy V) p = p"
  shows "sim_feeds V sim sim'"
proof -
  have rng: "sim_feeds V sim (sim\<lparr>sim_rng := rng\<rparr>)" for rng
    by (rule sim_feeds_quiet[of _ _ "[]"]) (simp_all add: sim_control_def)
  have sig: "sim_feeds V sim sim'" if "(case sg of None \<Rightarrow> ok (sim\<lparr>sim_rng := rng\<rparr>)
      | Some sg' \<Rightarrow> handle_signal V (ev_at ev) sg' (sim\<lparr>sim_rng := rng\<rparr>)) = Some (Inr sim')" for sg rng
    using that rng sim_feeds_trans[OF rng handle_signal_feeds[OF _ assms(2)]] by (cases sg) auto
  have quiet: "sim_feeds V sim (sim\<lparr>sim_trajectory := sim_trajectory sim @ [e]\<rparr>)" if "quiet_entries [e]" for e
    using that by (intro sim_feeds_quiet[of _ _ "[e]"]) (simp_all add: sim_control_def)
  have hb: "sim_feeds V sim (sim\<lparr>sim_rng := rng, sim_policy := po_update_engine_state (se_policy V) m (sim_policy sim),
      sim_trajectory := sim_trajectory sim @ [HeartbeatEntry t (dump_message m)]\<rparr>)" for rng m t
    by (rule sim_feeds_message) simp_all
  show ?thesis using assms(1) sig
    by (cases "ev_kind ev") (auto simp: handle_event_def Let_def bind_eq_Some_conv record_defs intro!: quiet hb)
qed

lemma handle_events_feed:
  assumes "fold_outcome (handle_event V) evs sim = Some (Inr sim')" and "\<And>p. po_cancel_last_observation (se_policy V) p = p"
  shows "sim_feeds V sim sim'"
proof -
  have "sim_feeds V sim sim" by (rule sim_feeds_quiet[of _ _ "[]"]) simp_all
  then show ?thesis
    using fold_outcome_inv[OF assms(1), where I = "sim_feeds V sim"] handle_event_feeds[OF _ assms(2)] sim_feeds_trans by blast
qed

lemma sim_tick_feeds:
  assumes "sim_tick V sim = Some (Inr sim')" and "\<And>p. po_cancel_last_observation (se_policy V) p = p"
  shows "sim_feeds V sim sim'"
  using assms(1)
proof (rule sim_tick_cases)
  fix clk evs sim1 s cx
  let ?fin = "vc_now (sim_clock sim) + sim_tick_dt sim"
  assume e: "fold_outcome (handle_event V) evs (sim\<lparr>sim_clock := clk\<rparr>) = Some (Inr sim1)"
    and s': "sim' = (note_overrun V ?fin sim1)
       \<lparr>sim_state := s, sim_ctx := cx,
        sim_trajectory := record_state_snapshot ?fin s (sim_engine sim1) (sim_trajectory (note_overrun V ?fin sim1)),
        sim_clock := (sim_clock sim1)\<lparr>vc_now := vc_now (sim_clock sim1) + sim_tick_dt sim1\<rparr>\<rparr>"
  have "sim_feeds V sim (sim\<lparr>sim_clock := clk\<rparr>)"
    by (rule sim_feeds_quiet[of _ _ "[]"]) (simp_all add: sim_control_def)
  moreover note handle_events_feed[OF e assms(2)]
  moreover have "sim_feeds V sim1 (note_overrun V ?fin sim1)"
    by (cases "note_overrun V ?fin sim1 = sim1")
      (auto simp: note_overrun_def Let_def record_observation_overrun_def sim_control_def split: if_splits intro: sim_feeds_quiet)
  moreover have "sim_feeds V (note_overrun V ?fin sim1) sim'"
    by (rule sim_feeds_quiet[of _ _ "[StateSnapshot (as_secs_f64 ?fin) (snapshot_from_state s) (snapshot_from_engine (sim_engine sim1))]"])
      (simp_all add: s' sim_control_def record_state_snapshot_def)
  ultimately show ?thesis by (meson sim_feeds_trans)
qed

section \<open>The simulator refines the controller\<close>

text \<open>The steps of a simulation: a preload or a tick.\<close>

definition sim_step :: "('n, 'c, 'r, 'p) sim_env \<Rightarrow> ('c, 'r, 'p) simulator \<Rightarrow> ('c, 'r, 'p) simulator \<Rightarrow> bool" where
  "sim_step V a b =
     ((\<forall>p. po_cancel_last_observation (se_policy V) p = p) \<and>
      (sim_tick V a = Some (Inr b) \<or> (\<exists>until. preload_events V until a = Some (Inr b))))"

lemma sim_step_feeds: "sim_step V a b \<Longrightarrow> sim_feeds V a b"
proof -
  assume s: "sim_step V a b"
  then consider "sim_tick V a = Some (Inr b)" | until where "preload_events V until a = Some (Inr b)"
    by (auto simp: sim_step_def)
  then show ?thesis
  proof cases
    case 1
    then show ?thesis using s by (auto simp: sim_step_def intro: sim_tick_feeds)
  next
    case 2
    then show ?thesis by (intro sim_feeds_quiet[of _ _ "[]"]) (auto simp: preload_events_def Let_def sim_control_def)
  qed
qed

lemma sim_step_refines:
  "sim_step V a b \<Longrightarrow> sim_logged V a ins out \<Longrightarrow>
   \<exists>ins' out'. sim_logged V b (ins @ ins') (out @ out') \<and>
     sim_run (se_policy V) (sim_control a) ins' = (sim_control b, out')"
  using sim_step_feeds unfolding sim_feeds_def by blast

interpretation simulation: controlled "sim_step V" sim_control "sim_logged V" "sim_run (se_policy V)"
  for V :: "('n, 'c, 'r, 'p) sim_env"
  by unfold_locales (erule (1) control_run_trans, rule control_run_Nil, erule (1) sim_step_refines)

lemma sim_reaches_steps:
  assumes "sim_reaches V a b" and c: "\<And>p. po_cancel_last_observation (se_policy V) p = p"
  shows "(sim_step V)\<^sup>*\<^sup>* a b"
  using assms(1)
proof (induction rule: sim_reaches.induct)
  case (ticked a b d)
  then have "sim_step V b d" using c by (simp add: sim_step_def)
  then show ?case using ticked.IH by simp
next
  case (ran_for a b dur d)
  then obtain s1 where s1: "preload_events V (vc_now (sim_clock b) + dur) b = Some (Inr s1)"
    "run_loop V (vc_now (sim_clock b) + dur) s1 = Some (Inr d)" by (auto simp: run_for_def)
  then have "sim_step V b s1" using c by (auto simp: sim_step_def)
  then have "(sim_step V)\<^sup>*\<^sup>* a s1" using ran_for.IH by simp
  then show ?case
    using run_loop_inv[OF s1(2) HOL.refl, where I = "(sim_step V)\<^sup>*\<^sup>* a"] c
    by (metis rtranclp.rtrancl_into_rtrancl sim_step_def)
next
  case (ran_until a b pred max_dur d)
  then obtain s1 stop until where s1: "preload_events V until b = Some (Inr s1)"
    "until_loop V pred stop s1 = Some (Inr d)" by (auto simp: run_until_def)
  then have "sim_step V b s1" using c by (auto simp: sim_step_def)
  then have "(sim_step V)\<^sup>*\<^sup>* a s1" using ran_until.IH by simp
  then show ?case
    using until_loop_inv[OF s1(2) HOL.refl, where I = "(sim_step V)\<^sup>*\<^sup>* a"] c
    by (metis rtranclp.rtrancl_into_rtrancl sim_step_def)
qed simp

text \<open>A policy the harness can drive: the contract of the pipeline, and nothing to cancel.\<close>

locale simulated_policy =
  policy_strategy "po_process_signal ops" "po_update_engine_state ops" inv
  for ops :: "'p policy_ops" and inv :: "'p \<Rightarrow> bool" +
  assumes cancel_idle: "po_cancel_last_observation ops p = p"

sublocale simulated_policy \<subseteq> reloadable_policy "po_process_signal ops" "po_update_engine_state ops" inv no_reload
  by unfold_locales (simp add: no_reload_def)

context simulated_policy
begin

lemma reaches_replays:
  assumes "sim_reaches V a b" and "se_policy V = ops" and "sim_trajectory a = []"
  shows "\<exists>ins out. record_shows (se_debug V) (se_host V) (sim_trajectory b) ins out \<and>
    sim_run ops (sim_policy a, sim_dedup a) ins = ((sim_policy b, sim_dedup b), out)"
proof -
  have "sim_logged V a [] []"
    by (simp add: sim_logged_def record_shows_def assms(3) directive_entries_def map_filter_def signal_count_def)
  from simulation.replays[OF sim_reaches_steps[OF assms(1)] this] cancel_idle assms(2)
  show ?thesis by (simp add: sim_logged_def sim_control_def)
qed

text \<open>A record shows exactly directives with at least one command and none the engine does not accept,
  spaced by the cooldown.\<close>

lemma reaches_sound:
  assumes "sim_reaches V a b" and "se_policy V = ops" and "sim_trajectory a = []"
    and "sim_dedup a = dedup_with_cooldown c" and "inv (sim_policy a)"
  shows "\<exists>em. directive_entries (sim_trajectory b) = map (\<lambda>(d, t). (t, dump_directive (se_debug V) d)) em \<and>
    list_all (\<lambda>(d, t). directive_ok d) em \<and> successively (spaced c) em"
proof -
  obtain ins out where o: "record_shows (se_debug V) (se_host V) (sim_trajectory b) ins out"
    "sim_run ops (sim_policy a, dedup_with_cooldown c) ins = ((sim_policy b, sim_dedup b), out)"
    using reaches_replays[OF assms(1-3)] assms(4) by auto
  show ?thesis
    using control_run_sound(1,2)[OF assms(5) o(2)] o(1)
    by (intro exI[of _ out]) (auto simp: record_shows_def list_all_iff)
qed

end

interpretation lua_sim: simulated_policy "lua_ops M" lua_inv for M :: "'vm lua_machine"
  by unfold_locales
    (auto simp: lua_ops_def intro: lua_pol.process_inv lua_pol.update_inv lua_pol.process_ok)

interpretation mock_sim: simulated_policy mock_ops mock_inv
  by unfold_locales
    (auto simp: mock_ops_def intro: mock_pol.process_inv mock_pol.update_inv mock_pol.process_ok)

end
