(* ===== verification/Sim_Run.thy ===== *)
theory Sim_Run
  imports Sim_Replay
begin

text \<open>
  What runs of the simulator show: which heartbeats the preload schedules and a run records, that a
  run without noise returns, and which directives a simulation sends.
\<close>

section \<open>What the preload does\<close>

text \<open>The times of the pending heartbeats.\<close>

definition hb_times :: "virtual_clock \<Rightarrow> duration multiset" where
  "hb_times c = image_mset ev_at (filter_mset (\<lambda>ev. ev_kind ev = EvHeartbeat) (mset (vc_events c)))"

definition preload_times :: "duration \<Rightarrow> duration \<Rightarrow> duration \<Rightarrow> duration list" where
  "preload_times now period until = (if period = 0 then [] else periodic_times ((now div period + 1) * period) period until)"

text \<open>Every interval is a duration, and with the limit it fits into 64 bits of nanoseconds; the start
  and the end of every injection are durations.\<close>

definition preload_fits :: "'n scenario_config \<Rightarrow> duration \<Rightarrow> bool" where
  "preload_fits cfg until =
     list_all (\<lambda>(kind, x). case duration_from_secs_f64 x of None \<Rightarrow> False | Some p \<Rightarrow> until + p < 2 ^ 64) (preload_periodic cfg)"

definition injections_fit :: "'n scenario_config \<Rightarrow> bool" where
  "injections_fit cfg =
     list_all (\<lambda>ij. case (duration_from_secs_f64 (t_start ij), duration_from_secs_f64 (inj_duration ij)) of
                      (Some a, Some b) \<Rightarrow> a + b \<le> DURATION_MAX | _ \<Rightarrow> False) (sc_external_injections cfg)"

lemma schedule_hb_times:
  "hb_times (fst (schedule k t c)) = (if k = EvHeartbeat then add_mset t (hb_times c) else hb_times c)"
  by (simp add: hb_times_def schedule_events)

lemma scheduled_all_hb:
  "hb_times (scheduled_all k ts c) = hb_times c + (if k = EvHeartbeat then mset ts else {#})"
  "vc_now (scheduled_all k ts c) = vc_now c"
  "queue_inv c \<Longrightarrow> queue_inv (scheduled_all k ts c)"
  by (induction ts arbitrary: c) (auto simp: scheduled_all_def schedule_hb_times schedule_inv)

lemma first_after: "0 < (p :: nat) \<Longrightarrow> now < (now div p + 1) * p" "(now div p + 1) * p \<le> now + (p :: nat)"
  using dividend_less_div_times[of p now] by (simp_all add: algebra_simps)

lemma minus_mult_div: "0 < (p :: nat) \<Longrightarrow> (u - m * p) div p = u div p - m"
proof (cases "m * p \<le> u")
  case True
  assume "0 < p"
  then show ?thesis using True div_mult_self3[of p m "u - m * p"] by (simp add: algebra_simps)
next
  case False
  assume p: "0 < p"
  then have "u div p < m" using False by (simp add: div_less_iff_less_mult mult.commute)
  then show ?thesis using False by simp
qed

lemma preload_times_range: "t \<in> set (preload_times now p until) \<Longrightarrow> now < t \<and> t \<le> until"
proof -
  assume t: "t \<in> set (preload_times now p until)"
  then have p: "0 < p" by (auto simp: preload_times_def split: if_splits)
  let ?f = "(now div p + 1) * p"
  obtain k where k: "t = ?f + k * p" "k < Suc ((until - ?f) div p)" "?f \<le> until"
    using t p by (auto simp: preload_times_def periodic_times_def not_less split: if_splits simp del: upt_Suc)
  have "k * p \<le> until - ?f" using k(2) p by (metis less_Suc_eq_le less_eq_div_iff_mult_less_eq)
  then show ?thesis using k(1,3) first_after(1)[OF p, of now] by linarith
qed

lemma preload_times_length:
  assumes "0 < p" and "now \<le> until"
  shows "length (preload_times now p until) = until div p - now div p"
proof (cases "until < (now div p + 1) * p")
  case True
  then have "until div p < now div p + 1" using assms(1) by (simp only: div_less_iff_less_mult)
  then show ?thesis using True assms by (simp add: preload_times_def periodic_times_def)
next
  case False
  then have "now div p + 1 \<le> until div p" using assms(1) by (simp add: less_eq_div_iff_mult_less_eq not_less)
  moreover have "(until - (now div p + 1) * p) div p = until div p - (now div p + 1)"
    by (rule minus_mult_div[OF assms(1)])
  ultimately show ?thesis using False assms(1) by (simp add: preload_times_def periodic_times_def del: upt_Suc)
qed

lemma preload_one_result:
  assumes "now \<le> until" and "\<And>p. duration_from_secs_f64 x = Some p \<Longrightarrow> until + p < 2 ^ 64"
  shows "preload_one k x now until c =
    (case duration_from_secs_f64 x of
       None \<Rightarrow> fail (HPanic ''can not convert float seconds to Duration'')
     | Some p \<Rightarrow> ok (scheduled_all k (preload_times now p until) c))"
proof (cases "duration_from_secs_f64 x")
  case None
  then show ?thesis by (simp add: preload_one_def secs_def and_then_def fail_def)
next
  case (Some p)
  have lt: "until + p < 2 ^ 64" using assms(2)[OF Some] .
  then have "until + p \<le> DURATION_MAX" by (simp add: DURATION_MAX_def NANOS_PER_SEC_def)
  moreover have "((now div p + 1) * p) mod 2 ^ 64 = (now div p + 1) * p"
    using first_after(2)[of now p] assms(1) lt by (intro mod_less) linarith
  ultimately have "schedule_periodic_from k now p until c = Some (scheduled_all k (preload_times now p until) c)"
    using schedule_periodic_returns[of p until k "(now div p + 1) * p" c]
    by (simp add: schedule_periodic_from_def preload_times_def scheduled_all_def del: mult_Suc)
  then show ?thesis using Some by (simp add: preload_one_def secs_def and_then_def ok_def)
qed

text \<open>A step of the preload keeps the time and the order of the queue, and adds the given heartbeats.\<close>

definition preloads :: "duration multiset \<Rightarrow> virtual_clock \<Rightarrow> virtual_clock \<Rightarrow> bool" where
  "preloads ts c c' = (vc_now c' = vc_now c \<and> (queue_inv c \<longrightarrow> queue_inv c') \<and> hb_times c' = hb_times c + ts)"

lemma preloads_refl: "preloads {#} c c"
  by (simp add: preloads_def)

lemma preloads_trans: "preloads ts a b \<Longrightarrow> preloads us b c \<Longrightarrow> preloads (ts + us) a c"
  by (simp add: preloads_def)

lemma preload_injection_preloads:
  "preload_injection now until x c = Some (Inr c') \<Longrightarrow> preloads {#} c c'"
  by (auto simp: preload_injection_def preloads_def Let_def schedule_hb_times schedule_inv split: prod.splits if_splits)

lemma preload_injections_preload:
  "fold_outcome (preload_injection now until) xs c = Some (Inr c') \<Longrightarrow> preloads {#} c c'"
  by (rule fold_outcome_inv[where I = "preloads {#} c"])
    (auto intro: preloads_refl dest: preload_injection_preloads preloads_trans)

lemma preload_one_preloads:
  assumes "preload_one k x now until c = Some (Inr c')" and "now \<le> until"
    and "\<And>p. duration_from_secs_f64 x = Some p \<Longrightarrow> until + p < 2 ^ 64"
  shows "\<exists>p. duration_from_secs_f64 x = Some p \<and>
    preloads (if k = EvHeartbeat then mset (preload_times now p until) else {#}) c c'"
  using assms(1) preload_one_result[OF assms(2,3), where k = k and c = c]
  by (auto simp: preloads_def scheduled_all_hb split: option.splits)

lemma preload_others_preload:
  assumes "fold_outcome (\<lambda>(k, x). preload_one k x now until) kxs c = Some (Inr c')"
    and "now \<le> until" and "list_all (\<lambda>(k, x). k \<noteq> EvHeartbeat \<and>
      (case duration_from_secs_f64 x of None \<Rightarrow> False | Some p \<Rightarrow> until + p < 2 ^ 64)) kxs"
  shows "preloads {#} c c'"
proof (rule fold_outcome_inv[where I = "preloads {#} c", OF assms(1) preloads_refl])
  fix kx b b' assume kx: "kx \<in> set kxs" and b: "preloads {#} c b"
    and r: "(case kx of (k, x) \<Rightarrow> preload_one k x now until) b = Some (Inr b')"
  obtain k x where e: "kx = (k, x)" by (cases kx)
  have "k \<noteq> EvHeartbeat" "\<And>p. duration_from_secs_f64 x = Some p \<Longrightarrow> until + p < 2 ^ 64"
    using assms(3) kx e by (auto simp: list_all_iff)
  then have "preloads {#} b b'" using preload_one_preloads[OF r[unfolded e prod.case] assms(2)] by auto
  then show "preloads {#} c b'" using preloads_trans[OF b] by simp
qed

lemma preload_events_result:
  assumes "preload_events V until sim = Some (Inr sim')" and "vc_now (sim_clock sim) \<le> until"
    and "preload_fits (se_cfg V) until"
  shows "\<exists>p c. duration_from_secs_f64 (interval_s (obs_heartbeat (sc_observation (se_cfg V)))) = Some p \<and>
    sim' = sim\<lparr>sim_clock := c\<rparr> \<and> preloads (mset (preload_times (vc_now (sim_clock sim)) p until)) (sim_clock sim) c"
proof -
  let ?now = "vc_now (sim_clock sim)" and ?x = "interval_s (obs_heartbeat (sc_observation (se_cfg V)))"
  define rest where "rest = tl (preload_periodic (se_cfg V))"
  have pp: "preload_periodic (se_cfg V) = (EvHeartbeat, ?x) # rest"
    by (simp add: rest_def preload_periodic_def Let_def)
  have rest: "list_all (\<lambda>(k, x). k \<noteq> EvHeartbeat \<and>
      (case duration_from_secs_f64 x of None \<Rightarrow> False | Some p \<Rightarrow> until + p < 2 ^ 64)) rest"
    using assms(3) by (simp add: preload_fits_def rest_def preload_periodic_def Let_def)
  obtain a b c where a: "preload_one EvHeartbeat ?x ?now until (sim_clock sim) = Some (Inr a)"
    and b: "fold_outcome (\<lambda>(k, x). preload_one k x ?now until) rest a = Some (Inr b)"
    and c: "fold_outcome (preload_injection ?now until) (enumerate 0 (sc_external_injections (se_cfg V))) b = Some (Inr c)"
    and s': "sim' = sim\<lparr>sim_clock := c\<rparr>"
    using assms(1) by (auto simp: preload_events_def pp Let_def)
  have "\<And>p. duration_from_secs_f64 ?x = Some p \<Longrightarrow> until + p < 2 ^ 64"
    using assms(3) by (simp add: preload_fits_def pp)
  then obtain p where p: "duration_from_secs_f64 ?x = Some p"
    "preloads (mset (preload_times ?now p until)) (sim_clock sim) a"
    using preload_one_preloads[OF a assms(2)] by auto
  have "preloads (mset (preload_times ?now p until)) (sim_clock sim) c"
    using preloads_trans[OF preloads_trans[OF p(2) preload_others_preload[OF b assms(2) rest]]
        preload_injections_preload[OF c]] by simp
  then show ?thesis using p(1) s' by blast
qed

lemma preload_injection_succeeds:
  "case (duration_from_secs_f64 (t_start ij), duration_from_secs_f64 (inj_duration ij)) of
     (Some a, Some b) \<Rightarrow> a + b \<le> DURATION_MAX | _ \<Rightarrow> False \<Longrightarrow>
   \<exists>c'. preload_injection now until (idx, ij) c = Some (Inr c')"
  by (auto simp: preload_injection_def secs_def checked_add_def duration_checked_add_def and_then_def ok_def Let_def
      split: option.splits)

lemma preload_events_succeeds:
  assumes "vc_now (sim_clock sim) \<le> until" and "preload_fits (se_cfg V) until" and "injections_fit (se_cfg V)"
  shows "\<exists>sim'. preload_events V until sim = Some (Inr sim')"
proof -
  let ?now = "vc_now (sim_clock sim)"
  have p: "\<exists>b'. (case kx of (k, x) \<Rightarrow> preload_one k x ?now until) b = Some (Inr b')"
    if kx: "kx \<in> set (preload_periodic (se_cfg V))" for kx b
  proof -
    obtain k x where e: "kx = (k, x)" by (cases kx)
    obtain p where "duration_from_secs_f64 x = Some p" "until + p < 2 ^ 64"
      using assms(2) kx e by (auto simp: preload_fits_def list_all_iff split: option.splits)
    then show ?thesis using preload_one_result[OF assms(1), of x k b] by (simp add: e)
  qed
  have i: "\<exists>c'. preload_injection ?now until x c = Some (Inr c')"
    if x: "x \<in> set (enumerate 0 (sc_external_injections (se_cfg V)))" for x c
  proof -
    obtain idx ij where e: "x = (idx, ij)" by (cases x)
    then have "ij \<in> set (sc_external_injections (se_cfg V))" using x by (auto simp: in_set_enumerate_eq)
    then show ?thesis unfolding e using assms(3)
      by (intro preload_injection_succeeds) (auto simp: injections_fit_def list_all_iff)
  qed
  have "\<exists>c. fold_outcome (\<lambda>(k, x). preload_one k x ?now until) (preload_periodic (se_cfg V)) b = Some (Inr c)" for b
    by (rule fold_outcome_total) (rule p)
  moreover have "\<exists>c. fold_outcome (preload_injection ?now until) (enumerate 0 (sc_external_injections (se_cfg V))) b = Some (Inr c)" for b
    by (rule fold_outcome_total) (rule i)
  ultimately show ?thesis unfolding preload_events_def Let_def by simp blast
qed

section \<open>Heartbeats of a run\<close>

text \<open>Of the heartbeats T, those up to the present have been recorded and the others are pending.\<close>

definition hb_inv :: "duration multiset \<Rightarrow> nat \<Rightarrow> ('c, 'r, 'p) simulator \<Rightarrow> bool" where
  "hb_inv T n sim =
     (queue_inv (sim_clock sim) \<and>
      heartbeat_count (sim_trajectory sim) = n + size {#t \<in># T. t \<le> vc_now (sim_clock sim)#} \<and>
      hb_times (sim_clock sim) = {#t \<in># T. vc_now (sim_clock sim) < t#})"

lemma only_gains_hb: "only_gains c c' \<Longrightarrow> hb_times c' = hb_times c"
proof -
  assume "only_gains c c'"
  then obtain new where "mset (vc_events c') = mset (vc_events c) + new" "\<forall>ev \<in># new. is_observation (ev_kind ev)"
    unfolding only_gains_def by blast
  moreover from this(2) have "filter_mset (\<lambda>ev. ev_kind ev = EvHeartbeat) new = {#}"
    by (auto simp: is_observation_def filter_mset_eq_conv split: event_kind.splits)
  ultimately show ?thesis by (simp add: hb_times_def)
qed

lemma beats_mset: "beats evs = size (filter_mset (\<lambda>ev. ev_kind ev = EvHeartbeat) (mset evs))"
  by (simp add: beats_def mset_filter [symmetric] del: mset_filter)

lemma drain_splits_hb:
  assumes "queue_inv c" and "drain_until target c = (clk, evs)"
  shows "beats evs = size {#t \<in># hb_times c. t \<le> target#}"
    and "hb_times clk = {#t \<in># hb_times c. target < t#}" and "queue_inv clk"
proof -
  have e: "evs = snd (drain_heap target (vc_events c))" "clk = c\<lparr>vc_events := fst (drain_heap target (vc_events c))\<rparr>"
    using assms(2) by (auto simp: drain_until_def split: prod.splits)
  note d = drain_heap_spec[OF assms(1)[unfolded queue_inv_def], of target]
  show "beats evs = size {#t \<in># hb_times c. t \<le> target#}"
    using d by (simp add: beats_mset e hb_times_def filter_filter_mset filter_mset_image_mset conj_commute)
  show "hb_times clk = {#t \<in># hb_times c. target < t#}"
    using d by (simp add: hb_times_def e filter_filter_mset filter_mset_image_mset conj_commute not_le)
  show "queue_inv clk" using d by (simp add: e queue_inv_def)
qed

lemma filter_mset_all: "\<forall>x \<in># M. P x \<Longrightarrow> filter_mset P M = M"
  and filter_mset_none: "\<forall>x \<in># M. \<not> P x \<Longrightarrow> filter_mset P M = {#}"
  by (induction M) auto

lemma size_filter_later:
  "(a :: nat) \<le> b \<Longrightarrow>
   size {#t \<in># T. t \<le> a#} + size {#t \<in># {#t \<in># T. a < t#}. t \<le> b#} = size {#t \<in># T. t \<le> b#} \<and>
   {#t \<in># {#t \<in># T. a < t#}. b < t#} = {#t \<in># T. b < t#}"
  by (induction T) auto

lemma sim_tick_hb:
  assumes "sim_tick V sim = Some (Inr sim')" and "hb_inv T n sim"
  shows "hb_inv T n sim'"
proof -
  let ?now = "vc_now (sim_clock sim)" and ?fin = "vc_now (sim_clock sim) + sim_tick_dt sim"
  obtain clk evs sim1 s c where d: "drain_until ?fin (sim_clock sim) = (clk, evs)"
    and e: "fold_outcome (handle_event V) evs (sim\<lparr>sim_clock := clk\<rparr>) = Some (Inr sim1)"
    and s': "sim' = (note_overrun V ?fin sim1)
       \<lparr>sim_state := s, sim_ctx := c,
        sim_trajectory := record_state_snapshot ?fin s (sim_engine sim1) (sim_trajectory (note_overrun V ?fin sim1)),
        sim_clock := (sim_clock sim1)\<lparr>vc_now := vc_now (sim_clock sim1) + sim_tick_dt sim1\<rparr>\<rparr>"
    using assms(1) by (rule sim_tick_cases)
  have q: "queue_inv (sim_clock sim)" using assms(2) by (simp add: hb_inv_def)
  note k = handle_events_keep[OF e, unfolded keeps_def simulator.simps simulator.update_convs]
  note dr = drain_splits_hb[OF q d]
  have "hb_times (sim_clock sim') = hb_times clk"
    using only_gains_hb[of clk "sim_clock sim1"] k by (simp add: s' hb_times_def)
  moreover have "queue_inv (sim_clock sim')" using k dr(3) by (simp add: s' only_gains_def queue_inv_def)
  moreover have "heartbeat_count (sim_trajectory sim') = heartbeat_count (sim_trajectory sim) + beats evs"
    using k by (simp add: s' record_state_snapshot_def trace_simps)
  moreover have "vc_now (sim_clock sim') = ?fin" by (rule sim_tick_step(1)[OF assms(1)])
  ultimately show ?thesis using assms(2) dr(1,2) size_filter_later[of ?now ?fin T] by (simp add: hb_inv_def)
qed

lemma run_loop_heartbeats:
  assumes "run_loop V stop sim = Some (Inr sim')" and "hb_inv T n sim"
  shows "hb_inv T n sim' \<and> stop \<le> vc_now (sim_clock sim')"
  using run_loop_inv[OF assms(1) HOL.refl, where I = "hb_inv T n"] assms(2) sim_tick_hb by blast

section \<open>The scripted simulation\<close>

lemma new_fresh:
  assumes "simulator_new V p = Inr sim"
  shows "sim_trajectory (with_tick_dt dt (with_dedup_cooldown c sim)) = []"
    and "sim_dedup (with_tick_dt dt (with_dedup_cooldown c sim)) = dedup_with_cooldown c"
    and "sim_policy (with_tick_dt dt (with_dedup_cooldown c sim)) = p"
  using assms by (auto simp: simulator_new_def with_tick_dt_def with_dedup_cooldown_def split: sum.splits)

lemma new_defaults:
  "simulator_new V p = Inr sim \<Longrightarrow> with_tick_dt 50000000 (with_dedup_cooldown (Fin 60) sim) = sim"
  by (auto simp: simulator_new_def with_tick_dt_def with_dedup_cooldown_def split: sum.splits)

lemma lua_policy_new_inv: "lua_policy_new M h path cfg clk = Inr p \<Longrightarrow> lua_inv (p, n)"
  by (auto simp: lua_policy_new_def new_with_gpu_def lua_inv_def split: sum.splits)

lemma lua_reports_no_overrun: "get_observation_overrun_count (inspect_state p) = 0"
  by (simp add: get_observation_overrun_count_def inspect_state_def Let_def split: option.splits)

lemma with_lua_policy_new:
  assumes "with_lua_policy V M h path acfg n = Inr sim"
  obtains p where "lua_policy_new M h path acfg VirtualClockHandle = Inr p" and "simulator_new V (p, n) = Inr sim"
  using assms by (auto simp: with_lua_policy_def split: sum.splits)

lemma scripted_directives:
  assumes "with_lua_policy V M h path acfg n = Inr sim" and "se_policy V = lua_ops M"
    and "sim_reaches V (with_tick_dt dt (with_dedup_cooldown c sim)) sim'"
  shows "\<exists>em. directive_entries (sim_trajectory sim') = map (\<lambda>(d, t). (t, dump_directive (se_debug V) d)) em \<and>
    list_all (\<lambda>(d, t). directive_ok d) em \<and> successively (spaced c) em"
proof -
  obtain p where p: "lua_policy_new M h path acfg VirtualClockHandle = Inr p" "simulator_new V (p, n) = Inr sim"
    using assms(1) by (rule with_lua_policy_new)
  show ?thesis
    using lua_sim.reaches_sound[OF assms(3,2) new_fresh(1,2)[OF p(2)]] lua_policy_new_inv[OF p(1)]
    by (simp add: new_fresh(3)[OF p(2)])
qed

lemma scripted_record_replays:
  assumes "with_lua_policy V M h path acfg n = Inr sim" and "se_policy V = lua_ops M"
    and "sim_reaches V (with_tick_dt dt (with_dedup_cooldown c sim)) sim'"
  shows "\<exists>ins out. record_shows (se_debug V) (se_host V) (sim_trajectory sim') ins out \<and>
    control_run (process_signal M) update_engine_state no_reload (sim_policy sim, dedup_with_cooldown c) ins =
      ((sim_policy sim', sim_dedup sim'), out)"
proof -
  obtain p where p: "lua_policy_new M h path acfg VirtualClockHandle = Inr p" "simulator_new V (p, n) = Inr sim"
    using assms(1) by (rule with_lua_policy_new)
  have "sim_policy sim = (p, n)" using p(2) by (auto simp: simulator_new_def split: sum.splits)
  then show ?thesis
    using lua_sim.reaches_replays[OF assms(3,2) new_fresh(1)[OF p(2)]]
    by (simp add: new_fresh[OF p(2)] lua_ops_def)
qed

lemma with_lua_policy_provider:
  assumes "with_lua_policy V M h path acfg n = Inr sim"
  shows "gpu_provider (fst (sim_policy sim)) = SharedNull"
proof -
  obtain p where p: "lua_policy_new M h path acfg VirtualClockHandle = Inr p" "simulator_new V (p, n) = Inr sim"
    using assms by (rule with_lua_policy_new)
  have "sim_policy sim = (p, n)" using p(2) by (auto simp: simulator_new_def split: sum.splits)
  then show ?thesis using p(1) by (auto simp: lua_policy_new_def new_with_gpu_def split: sum.splits)
qed

section \<open>Properties\<close>

text \<open>C10: A run without noise and with a positive tick returns.  It fails only when the physics of the
  device fails; otherwise the clock has moved by whole ticks to the first multiple that reaches the
  end, and the record has gained exactly one snapshot at the end of each tick.  The intervals and
  injections of the scenario are durations that do not overflow.\<close>

theorem run_for_terminates:
  assumes "sim_rng sim = None" and "0 < sim_tick_dt sim" and "sim_tick_dt sim \<le> 2 ^ 64"
    and "preload_fits (se_cfg V) (vc_now (sim_clock sim) + dur)" and "injections_fit (se_cfg V)"
  shows "\<exists>r. run_for V dur sim = Some r \<and>
    (case r of Inl e \<Rightarrow> \<exists>x. e = HPhysics x | Inr sim' \<Rightarrow> ran_to (vc_now (sim_clock sim) + dur) sim sim')"
proof -
  let ?stop = "vc_now (sim_clock sim) + dur"
  have lt: "?stop < 2 ^ 64" using assms(4) by (auto simp: preload_fits_def preload_periodic_def Let_def split: option.splits)
  then have room: "?stop + OBSERVATION_DELAY \<le> DURATION_MAX" "?stop + sim_tick_dt sim \<le> DURATION_MAX" "?stop \<le> DURATION_MAX"
    using assms(3) by (auto simp: DURATION_MAX_def NANOS_PER_SEC_def OBSERVATION_DELAY_def)
  obtain s1 where s1: "preload_events V ?stop sim = Some (Inr s1)"
    using preload_events_succeeds[of sim, OF _ assms(4,5)] by auto
  have f: "sim_rng s1 = sim_rng sim" "sim_tick_dt s1 = sim_tick_dt sim" "sim_trajectory s1 = sim_trajectory sim"
      "vc_now (sim_clock s1) = vc_now (sim_clock sim)"
    using preload_events_result[OF s1 _ assms(4)] by (auto simp: preloads_def)
  have "checked_add (vc_now (sim_clock sim)) dur = ok ?stop"
    using room(3) by (simp add: checked_add_def duration_checked_add_def)
  then have run: "run_for V dur sim = run_loop V ?stop s1" by (simp only: run_for_def and_then_ok s1)
  have eq: "ran_to ?stop s1 = ran_to ?stop sim" by (rule ext) (simp add: ran_to_def f)
  have "\<exists>r. run_loop V ?stop s1 = Some r \<and> (case r of Inl e \<Rightarrow> \<exists>x. e = HPhysics x | Inr sim' \<Rightarrow> ran_to ?stop s1 sim')"
    using assms(1,2) room f by (intro run_loop_exact) simp_all
  then show ?thesis unfolding run eq .
qed

text \<open>C17: A run records one heartbeat for every multiple of the heartbeat interval after its start and
  up to its end, and one more for each heartbeat that was pending when it started and has come by the
  time it ends: the preload does not look for events already scheduled.  Those that were pending
  for later than that are pending still, and no others.\<close>

theorem run_for_heartbeats:
  assumes "run_for V dur sim = Some (Inr sim')" and "preload_fits (se_cfg V) (vc_now (sim_clock sim) + dur)"
    and "duration_from_secs_f64 (interval_s (obs_heartbeat (sc_observation (se_cfg V)))) = Some p"
    and "queue_inv (sim_clock sim)" and "\<forall>t \<in># hb_times (sim_clock sim). vc_now (sim_clock sim) < t"
  shows "heartbeat_count (sim_trajectory sim') = heartbeat_count (sim_trajectory sim) +
      ((vc_now (sim_clock sim) + dur) div p - vc_now (sim_clock sim) div p) +
      size {#t \<in># hb_times (sim_clock sim). t \<le> vc_now (sim_clock sim')#} \<and>
    hb_times (sim_clock sim') = {#t \<in># hb_times (sim_clock sim). vc_now (sim_clock sim') < t#}"
proof -
  let ?now = "vc_now (sim_clock sim)" and ?stop = "vc_now (sim_clock sim) + dur"
  let ?L = "preload_times ?now p ?stop"
  obtain s1 where s1: "preload_events V ?stop sim = Some (Inr s1)" and r: "run_loop V ?stop s1 = Some (Inr sim')"
    using assms(1) by (auto simp: run_for_def)
  obtain c where c: "s1 = sim\<lparr>sim_clock := c\<rparr>" "preloads (mset ?L) (sim_clock sim) c"
    using preload_events_result[OF s1 _ assms(2)] assms(3) by auto
  let ?T = "hb_times (sim_clock sim) + mset ?L"
  have later: "\<forall>t \<in># ?T. ?now < t" using assms(5) preload_times_range[of _ ?now p ?stop] by auto
  have none: "{#t \<in># ?T. t \<le> ?now#} = {#}" "{#t \<in># ?T. ?now < t#} = ?T"
    using filter_mset_none[of ?T "\<lambda>t. t \<le> ?now"] filter_mset_all[of ?T "\<lambda>t. ?now < t"] later by (simp_all add: not_le)
  then have "hb_inv ?T (heartbeat_count (sim_trajectory sim)) s1"
    using c assms(4) by (simp add: hb_inv_def preloads_def)
  from run_loop_heartbeats[OF r this]
  have inv: "hb_inv ?T (heartbeat_count (sim_trajectory sim)) sim'" and stop: "?stop \<le> vc_now (sim_clock sim')" by blast+
  let ?last = "vc_now (sim_clock sim')"
  have "\<forall>t \<in># mset ?L. t \<le> ?last" using preload_times_range[of _ ?now p ?stop] stop by fastforce
  then have "{#t \<in># mset ?L. t \<le> ?last#} = mset ?L" "{#t \<in># mset ?L. ?last < t#} = {#}"
    using filter_mset_all[of "mset ?L" "\<lambda>t. t \<le> ?last"] filter_mset_none[of "mset ?L" "\<lambda>t. ?last < t"]
    by (simp_all add: not_less)
  moreover have "size (mset ?L) = ?stop div p - ?now div p"
    using preload_times_length[of p ?now ?stop] by (cases "p = 0") (simp_all add: preload_times_def)
  ultimately show ?thesis using inv by (simp add: hb_inv_def)
qed

text \<open>Whatever is run on a simulator with the scripted policy, for every script and every
  scenario, the directives on the record are directives the engine accepts, each with at least one
  command, and of two consecutive ones the second has different commands or comes at least the
  cooldown after the first.\<close>

theorem simulated_directives_spaced:
  assumes "with_lua_policy V M h path acfg n = Inr sim" and "se_policy V = lua_ops M"
    and "sim_reaches V (with_tick_dt dt (with_dedup_cooldown c sim)) sim'"
  shows "\<exists>em. directive_entries (sim_trajectory sim') = map (\<lambda>(d, t). (t, dump_directive (se_debug V) d)) em \<and>
    list_all (\<lambda>(d, t). directive_ok d) em \<and> successively (spaced c) em"
  by (rule scripted_directives[OF assms])

section \<open>An example run\<close>

text \<open>The example scenario with any policy, run for one tick of a second.\<close>

definition example_env :: "'p policy_ops \<Rightarrow> (string, string \<Rightarrow> evalue option, u32, 'p) sim_env" where
  "example_env ops =
     \<lparr> se_expr = example_lang, se_math = example_math, se_gen = counter_generator, se_policy = ops,
       se_host = (\<lambda>n. example_host), se_debug = (\<lambda>c. ''command''), se_cfg = example_scenario \<rparr>"

definition example_sim :: "'p policy_ops \<Rightarrow> 'p \<Rightarrow> (string \<Rightarrow> evalue option, u32, 'p) simulator" where
  "example_sim ops p = with_tick_dt 1000000000 (with_dedup_cooldown (Fin 60)
     (case simulator_new (example_env ops) p of Inr sim \<Rightarrow> sim | Inl e \<Rightarrow> undefined))"

lemma example_new: "\<exists>sim. simulator_new (example_env ops) p = Inr sim"
  by (simp add: simulator_new_def example_env_def expr_context_new_def register_builtins_def example_lang_def
      builtins_def)

lemma example_fields:
  "sim_clock (example_sim ops p) = virtual_clock_new" "sim_rng (example_sim ops p) = None"
  "sim_tick_dt (example_sim ops p) = 1000000000" "sim_state (example_sim ops p) = physical_from_config example_initial"
  "sim_engine (example_sim ops p) = engine_from_config example_initial" "sim_trajectory (example_sim ops p) = []"
  using example_new[of ops p]
  by (auto simp: example_sim_def with_tick_dt_def with_dedup_cooldown_def simulator_new_def example_env_def maybe_create_def
      example_scenario_def split: sum.splits)

lemma example_physics_ok:
  assumes "set (em_active_actions eng) \<subseteq> set (em_active_actions (engine_from_config example_initial))"
  shows "physics_step example_lang example_math eng example_scenario clk dt (physical_from_config example_initial) ctx \<noteq> Inl x"
proof -
  have a: "em_active_actions eng = []" using assms by (simp add: engine_from_config_def example_initial_def)
  have dv: "\<exists>s1. dvfs_update M (sc_dvfs example_scenario) dt (physical_from_config example_initial) = Inr s1" for M dt
    by (simp add: dvfs_update_def dvfs_target_freq_def Let_def example_defs physical_from_config_def)
  have der: "\<exists>r. derived_evaluate example_lang M s eng example_scenario c = Inr r" for M s c
    by (simp add: derived_evaluate_def example_bind_eval example_defs ctx_set_f64_def Let_def)
  have act: "apply_actions example_lang M s eng example_scenario dt c = Inr (s, c)" for M s dt c
    by (simp add: apply_actions_def a)
  show ?thesis using dv[of example_math "as_secs_f64 dt"] der act
    by (auto simp: physics_step_def Let_def) (metis Inl_Inr_False)
qed

lemma second: "duration_from_secs_f64 (Fin 1) = Some 1000000000"
  using rne_int[of 1000000000] by (simp add: duration_from_secs_f64_def DURATION_MAX_def NANOS_PER_SEC_def)

lemma example_fits:
  assumes "until \<le> 1000000000"
  shows "preload_fits (se_cfg (example_env ops)) until" and "injections_fit (se_cfg (example_env ops))"
  using assms
  by (simp_all add: preload_fits_def injections_fit_def preload_periodic_def example_env_def example_defs second Let_def)

text \<open>A run of one tick of at most a second succeeds.\<close>

lemma example_one_tick:
  assumes "vc_now (sim_clock sim) = 0" "sim_rng sim = None" "sim_tick_dt sim = dt" "0 < dt" "dt \<le> 1000000000"
    "sim_state sim = physical_from_config example_initial" "sim_engine sim = engine_from_config example_initial"
  shows "\<exists>sim'. run_for (example_env ops) dt sim = Some (Inr sim') \<and> vc_now (sim_clock sim') = dt"
proof -
  let ?V = "example_env ops"
  note fits = example_fits[OF assms(5), of ops]
  obtain s1 where s1: "preload_events ?V dt sim = Some (Inr s1)"
    using preload_events_succeeds[of sim, OF _ fits] assms(1) by auto
  have f: "sim_rng s1 = None" "sim_tick_dt s1 = dt" "vc_now (sim_clock s1) = 0"
      "sim_state s1 = physical_from_config example_initial" "sim_engine s1 = engine_from_config example_initial"
    using preload_events_result[OF s1 _ fits(1)] assms by (auto simp: preloads_def)
  have room: "(0 :: nat) + OBSERVATION_DELAY \<le> DURATION_MAX" "(0 :: nat) + dt \<le> DURATION_MAX"
    using assms(5) by (simp_all add: DURATION_MAX_def NANOS_PER_SEC_def OBSERVATION_DELAY_def)
  obtain r where r: "sim_tick ?V s1 = Some r" "\<forall>e. r \<noteq> Inl e"
    using sim_tick_outcome[of s1 ?V] f room example_physics_ok by (fastforce simp: example_env_def)
  then obtain s2 where s2: "sim_tick ?V s1 = Some (Inr s2)" by (cases r) auto
  have "run_loop ?V dt s1 = Some (Inr s2)"
    using s2 sim_tick_step(1)[OF s2] f assms(4)
    by (simp add: run_loop.simps[of ?V _ s1] run_loop.simps[of ?V _ s2])
  then show ?thesis using s1 room(2) assms(1) sim_tick_step(1)[OF s2] f by (auto simp: run_for_def)
qed

lemma example_run:
  "\<exists>sim'. run_for (example_env ops) 1000000000 (example_sim ops p) = Some (Inr sim')"
  using example_one_tick[of "example_sim ops p" 1000000000 ops] by (auto simp: example_fields virtual_clock_new_def)

theorem run_for_terminates_witness:
  "\<exists>sim'. run_for (example_env mock_ops) 1000000000 (example_sim mock_ops mock_policy_new) = Some (Inr sim') \<and>
     vc_now (sim_clock sim') = 1000000000 \<and> length (snapshots (sim_trajectory sim')) = 1"
proof -
  let ?s = "example_sim mock_ops mock_policy_new"
  obtain sim' where s': "run_for (example_env mock_ops) 1000000000 ?s = Some (Inr sim')"
    using example_run[of mock_ops mock_policy_new] by blast
  have "ran_to (vc_now (sim_clock ?s) + 1000000000) ?s sim'"
    using run_for_terminates[of ?s "example_env mock_ops" 1000000000] s' example_fits[of 1000000000 mock_ops]
    by (simp add: example_fields virtual_clock_new_def)
  then have "vc_now (sim_clock sim') = 1000000000" "map fst (snapshots (sim_trajectory sim')) = [as_secs_f64 1000000000]"
    by (simp_all add: ran_to_def example_fields virtual_clock_new_def ticks_needed_def tick_ends_def snapshots_def map_filter_def)
  then show ?thesis using s' by (metis length_Cons list.size(3) length_map One_nat_def)
qed

text \<open>A simulator with two heartbeats pending, one within the next second and one after it.\<close>

definition pending_clock :: virtual_clock where
  "pending_clock = fst (schedule EvHeartbeat 500000000 (fst (schedule EvHeartbeat 2500000000 virtual_clock_new)))"

lemma pending_clock:
  "hb_times pending_clock = {# 500000000, 2500000000 #}" "vc_now pending_clock = 0" "queue_inv pending_clock"
proof -
  have "queue_inv virtual_clock_new" by (simp add: queue_inv_def virtual_clock_new_def)
  then show "queue_inv pending_clock" unfolding pending_clock_def by (intro schedule_inv)
  show "hb_times pending_clock = {# 500000000, 2500000000 #}"
    by (simp add: pending_clock_def schedule_hb_times) (simp add: hb_times_def virtual_clock_new_def)
  show "vc_now pending_clock = 0" by (simp add: pending_clock_def schedule_def virtual_clock_new_def Let_def)
qed

theorem run_for_heartbeats_witness:
  "\<exists>sim'. run_for (example_env mock_ops) 1000000000
       ((example_sim mock_ops mock_policy_new)\<lparr>sim_clock := pending_clock\<rparr>) = Some (Inr sim') \<and>
     heartbeat_count (sim_trajectory sim') = 2 \<and> hb_times (sim_clock sim') = {# 2500000000 #}"
proof -
  let ?s = "(example_sim mock_ops mock_policy_new)\<lparr>sim_clock := pending_clock\<rparr>"
  obtain sim' where s': "run_for (example_env mock_ops) 1000000000 ?s = Some (Inr sim')"
    and now: "vc_now (sim_clock sim') = 1000000000"
    using example_one_tick[of ?s 1000000000 mock_ops] by (auto simp: example_fields pending_clock)
  have iv: "interval_s (obs_heartbeat (sc_observation (se_cfg (example_env mock_ops)))) = Fin 1"
    by (simp add: example_env_def example_scenario_def)
  have "heartbeat_count (sim_trajectory sim') = 2 \<and> hb_times (sim_clock sim') = {# 2500000000 #}"
    using run_for_heartbeats[OF s', of 1000000000] example_fits(1)[of 1000000000 mock_ops]
    by (simp add: iv second example_fields pending_clock heartbeat_count_def now)
  then show ?thesis using s' by blast
qed

lemma example_policy_loads:
  "\<exists>q. lua_policy_new example_machine example_host path cfg clk = Inr q"
  by (simp add: lua_policy_new_def new_with_gpu_def fresh_vm_def load_script_def seen_through_def example_machine_def
      example_host_def)

lemma example_scripted_run:
  obtains sim sim' where
    "with_lua_policy (example_env (lua_ops example_machine)) example_machine example_host ''p.lua''
        adaptation_config_default 1 = Inr sim"
    and "run_for (example_env (lua_ops example_machine)) 1000000000 (with_tick_dt 1000000000 (with_dedup_cooldown (Fin 60) sim)) =
       Some (Inr sim')"
proof -
  let ?V = "example_env (lua_ops example_machine)"
  obtain q where q: "lua_policy_new example_machine example_host ''p.lua'' adaptation_config_default VirtualClockHandle = Inr q"
    using example_policy_loads by blast
  obtain sim where n: "simulator_new ?V (q, 1) = Inr sim" using example_new[of "lua_ops example_machine" "(q, 1)"] by blast
  have w: "with_lua_policy ?V example_machine example_host ''p.lua'' adaptation_config_default 1 = Inr sim"
    by (simp add: with_lua_policy_def q n)
  have e: "example_sim (lua_ops example_machine) (q, 1) = with_tick_dt 1000000000 (with_dedup_cooldown (Fin 60) sim)"
    by (simp add: example_sim_def n)
  obtain sim' where "run_for ?V 1000000000 (with_tick_dt 1000000000 (with_dedup_cooldown (Fin 60) sim)) = Some (Inr sim')"
    using example_run[of "lua_ops example_machine" "(q, 1)"] unfolding e by blast
  with w show ?thesis by (rule that)
qed

theorem simulated_directives_spaced_witness:
  "\<exists>sim sim' em. with_lua_policy (example_env (lua_ops example_machine)) example_machine example_host ''p.lua''
        adaptation_config_default 1 = Inr sim \<and>
     run_for (example_env (lua_ops example_machine)) 1000000000 (with_tick_dt 1000000000 (with_dedup_cooldown (Fin 60) sim)) =
       Some (Inr sim') \<and>
     directive_entries (sim_trajectory sim') = map (\<lambda>(d, t). (t, dump_directive (\<lambda>c. ''command'') d)) em \<and>
     list_all (\<lambda>(d, t). directive_ok d) em \<and> successively (spaced (Fin 60)) em"
proof (rule example_scripted_run)
  fix sim sim'
  let ?V = "example_env (lua_ops example_machine)"
  assume w: "with_lua_policy ?V example_machine example_host ''p.lua'' adaptation_config_default 1 = Inr sim"
    and r: "run_for ?V 1000000000 (with_tick_dt 1000000000 (with_dedup_cooldown (Fin 60) sim)) = Some (Inr sim')"
  have p: "se_policy ?V = lua_ops example_machine" "se_debug ?V = (\<lambda>c. ''command'')" by (simp_all add: example_env_def)
  show ?thesis
    using simulated_directives_spaced[OF w p(1) sim_reaches.ran_for[OF sim_reaches.start r]] w r unfolding p(2) by blast
qed

end
