(* ===== verification/Rust_Fmt.thy ===== *)
theory Rust_Fmt
  imports Rust_Float
begin

text \<open>
  The part of \<^verbatim>\<open>std::fmt\<close> that the reports of the simulator and the stand-in programs use.  A \<^verbatim>\<open>String\<close> is its UTF-8 bytes;
  a field width counts characters, \<^verbatim>\<open>len\<close> counts bytes.  \<^verbatim>\<open>{:.p}\<close> prints the exact value rounded half
  to even at the last digit; \<^verbatim>\<open>{}\<close> of a float prints the fewest digits that read back as the same
  float, the nearest of these, never in scientific notation.  The model has one zero, printed as
  the positive one.  \<^verbatim>\<open>{:?}\<close> of a string escapes the ASCII characters that \<^verbatim>\<open>escape_debug\<close> escapes; other
  characters are taken as printable.
\<close>

section \<open>Text as UTF-8\<close>

definition utf8_char :: "nat \<Rightarrow> string" where
  "utf8_char c =
     (if c < 0x80 then [char_of c]
      else if c < 0x800 then [char_of (0xC0 + c div 64), char_of (0x80 + c mod 64)]
      else if c < 0x10000 then
        [char_of (0xE0 + c div 4096), char_of (0x80 + c div 64 mod 64), char_of (0x80 + c mod 64)]
      else [char_of (0xF0 + c div 262144), char_of (0x80 + c div 4096 mod 64),
            char_of (0x80 + c div 64 mod 64), char_of (0x80 + c mod 64)])"

definition utf8 :: "nat list \<Rightarrow> string" where
  "utf8 cs = concat (map utf8_char cs)"

definition is_continuation :: "char \<Rightarrow> bool" where
  "is_continuation c = ((of_char c :: nat) div 64 = 2)"

definition char_count :: "string \<Rightarrow> nat" where
  "char_count s = length (filter (\<lambda>c. \<not> is_continuation c) s)"

section \<open>Fields\<close>

definition pad_left :: "nat \<Rightarrow> string \<Rightarrow> string" where
  "pad_left w s = replicate (w - char_count s) CHR '' '' @ s"

definition pad_right :: "nat \<Rightarrow> string \<Rightarrow> string" where
  "pad_right w s = s @ replicate (w - char_count s) CHR '' ''"

fun join :: "string \<Rightarrow> string list \<Rightarrow> string" where
  "join sep [] = []"
| "join sep [x] = x"
| "join sep (x # y # xs) = x @ sep @ join sep (y # xs)"

definition newline :: char where
  "newline = CHR 0x0A"

definition writeln :: "string list \<Rightarrow> string" where
  "writeln ls = concat (map (\<lambda>l. l @ [newline]) ls)"

section \<open>The console\<close>

text \<open>A line of \<^verbatim>\<open>println!\<close> or of \<^verbatim>\<open>eprintln!\<close>; the newline that ends it is left out.\<close>

datatype console_line = Stdout string | Stderr string

section \<open>Numbers\<close>

definition zero_pad :: "nat \<Rightarrow> string \<Rightarrow> string" where
  "zero_pad k s = replicate (k - length s) CHR ''0'' @ s"

text \<open>The number \<open>n / 10 ^ d\<close>.\<close>

definition show_scaled :: "nat \<Rightarrow> int \<Rightarrow> string" where
  "show_scaled n d =
     (if d \<le> 0 then show_nat (n * 10 ^ nat (- d))
      else show_nat (n div 10 ^ nat d) @ ''.'' @ zero_pad (nat d) (show_nat (n mod 10 ^ nat d)))"

definition show_signed :: "string \<Rightarrow> (rat \<Rightarrow> string) \<Rightarrow> fp \<Rightarrow> string" where
  "show_signed sgn_pos body v =
     (case v of
        NaN \<Rightarrow> ''NaN''
      | PInf \<Rightarrow> sgn_pos @ ''inf''
      | NInf \<Rightarrow> ''-inf''
      | Fin q \<Rightarrow> (if q < 0 then ''-'' else sgn_pos) @ body \<bar>q\<bar>)"

definition fixed_abs :: "nat \<Rightarrow> rat \<Rightarrow> string" where
  "fixed_abs p q = show_scaled (nat (rne (q * 10 ^ p))) (int p)"

definition fixed :: "nat \<Rightarrow> fp \<Rightarrow> string" where
  "fixed p = show_signed '''' (fixed_abs p)"

definition fixed_plus :: "nat \<Rightarrow> fp \<Rightarrow> string" where
  "fixed_plus p = show_signed [CHR 0x2B] (fixed_abs p)"

definition digits_at :: "int \<Rightarrow> rat \<Rightarrow> int option" where
  "digits_at d q =
     (let s = q * 10 powi d; lo = \<lfloor>s\<rfloor>; hi = lo + 1;
          ok = (\<lambda>n. to_f64 (of_int n * 10 powi (- d)) = Fin q)
      in if ok lo \<and> ok hi then Some (if 1 / 2 \<le> s - of_int lo then hi else lo)
         else if ok lo then Some lo
         else if ok hi then Some hi
         else None)"

function shortest :: "int \<Rightarrow> rat \<Rightarrow> int \<times> int" where
  "shortest d q =
     (case digits_at d q of
        Some n \<Rightarrow> (n, d)
      | None \<Rightarrow> if 1074 \<le> d then (\<lfloor>q * 10 powi d\<rfloor>, d) else shortest (d + 1) q)"
  by pat_completeness auto
termination
  by (relation "measure (\<lambda>(d, q). nat (1074 - d))") auto

declare shortest.simps [simp del]

definition first_scale :: "rat \<Rightarrow> int" where
  "first_scale q =
     (if 1 \<le> q then - int (length (show_nat (nat \<lfloor>q\<rfloor>)))
      else int (length (show_nat (nat \<lfloor>1 / q\<rfloor>))) - 1)"

definition shortest_abs :: "rat \<Rightarrow> string" where
  "shortest_abs q =
     (if q = 0 then ''0'' else case shortest (first_scale q) q of (n, d) \<Rightarrow> show_scaled (nat n) d)"

definition show_f64 :: "f64 \<Rightarrow> string" where
  "show_f64 = show_signed '''' shortest_abs"

section \<open>Debug text of strings\<close>

definition hex_digit :: "nat \<Rightarrow> char" where
  "hex_digit n = (if n < 10 then char_of (n + 48) else char_of (n + 87))"

definition escape_debug :: "char \<Rightarrow> string" where
  "escape_debug c =
     (let n = (of_char c :: nat) in
      if n = 0 then [CHR 0x5C, CHR ''0'']
      else if n = 9 then [CHR 0x5C, CHR ''t'']
      else if n = 10 then [CHR 0x5C, CHR ''n'']
      else if n = 13 then [CHR 0x5C, CHR ''r'']
      else if n = 0x22 \<or> n = 0x5C then [CHR 0x5C, c]
      else if n < 16 then [CHR 0x5C, CHR ''u'', CHR 0x7B, hex_digit n, CHR 0x7D]
      else if n < 32 \<or> n = 127 then
        [CHR 0x5C, CHR ''u'', CHR 0x7B, hex_digit (n div 16), hex_digit (n mod 16), CHR 0x7D]
      else [c])"

definition debug_str :: "string \<Rightarrow> string" where
  "debug_str s = [CHR 0x22] @ concat (map escape_debug s) @ [CHR 0x22]"

definition debug_list :: "string list \<Rightarrow> string" where
  "debug_list ss = ''['' @ join '', '' (map debug_str ss) @ '']''"

section \<open>Digits read back\<close>

lemma digits_val_append: "digits_val (a @ b) = digits_val a * 10 ^ length b + digits_val b"
proof (induction b rule: rev_induct)
  case (snoc c b)
  have "digits_val (a @ b @ [c]) = 10 * digits_val (a @ b) + digit_val c"
    using digits_val_snoc[of "a @ b" c] by simp
  then show ?case using snoc by (simp add: digits_val_snoc algebra_simps)
qed (simp add: digits_val_def)

lemma digits_val_zeros [simp]: "digits_val (replicate k CHR ''0'' @ s) = digits_val s"
proof -
  have "digits_val (replicate k CHR ''0'') = 0"
    by (induction k) (simp_all add: digits_val_def digit_val_def)
  then show ?thesis by (simp add: digits_val_append)
qed

lemma zero_pad_digits: "list_all is_digit s \<Longrightarrow> list_all is_digit (zero_pad k s)"
  by (auto simp: zero_pad_def is_digit_def list_all_iff)

lemma length_show_nat: "n < 10 ^ k \<Longrightarrow> 0 < k \<Longrightarrow> length (show_nat n) \<le> k"
proof (induction n arbitrary: k rule: show_nat.induct)
  case (1 n)
  show ?case
  proof (cases "n < 10")
    case False
    with "1.prems" obtain j where k: "k = Suc j" "0 < j" by (cases k) (auto, cases "k - 1", auto)
    with "1.prems" have "n div 10 < 10 ^ j" by (simp add: less_mult_imp_div_less mult.commute)
    with "1.IH"[OF False _ k(2)] have "length (show_nat (n div 10)) \<le> j" by blast
    then show ?thesis using False k by (subst show_nat.simps) simp
  qed (use "1.prems" in \<open>subst show_nat.simps, simp\<close>)
qed

lemma zero_pad_length: "length (zero_pad k s) = max k (length s)"
  by (simp add: zero_pad_def max_def)

lemma digit_dot: "\<not> is_digit CHR ''.''"
  by (simp add: is_digit_def)

lemma parse_decimal_scaled: "parse_decimal (show_scaled n d) = Some (of_nat n * 10 powi (- d))"
proof (cases "d \<le> 0")
  case True
  then have "(10::rat) powi (- d) = 10 ^ nat (- d)" by (simp add: power_int_def)
  then show ?thesis using True show_nat_digits[of "n * 10 ^ nat (- d)"]
    by (simp add: show_scaled_def parse_decimal_digits)
next
  case False
  define k where "k = nat d"
  define A where "A = show_nat (n div 10 ^ k)"
  define F where "F = zero_pad k (show_nat (n mod 10 ^ k))"
  have k: "0 < k" "d = int k" using False by (simp_all add: k_def)
  have A: "list_all is_digit A" "A \<noteq> []" "digits_val A = n div 10 ^ k"
    using show_nat_digits[of "n div 10 ^ k"] by (simp_all add: A_def)
  have "length (show_nat (n mod 10 ^ k)) \<le> k" by (rule length_show_nat) (simp_all add: k)
  then have F: "list_all is_digit F" "length F = k" "digits_val F = n mod 10 ^ k"
    using show_nat_digits[of "n mod 10 ^ k"] by (simp_all add: F_def zero_pad_digits zero_pad_length)
      (simp add: zero_pad_def)
  have v: "digits_val (A @ F) = n" using div_mult_mod_eq[of n "10 ^ k"] by (simp only: digits_val_append A F)
  have tA: "takeWhile is_digit (A @ CHR ''.'' # F) = A" "dropWhile is_digit (A @ CHR ''.'' # F) = CHR ''.'' # F"
    using A(1) digit_dot by (simp_all add: list_all_iff)
  have tF: "takeWhile is_digit F = F" "dropWhile is_digit F = []"
    using F(1) by (simp_all add: list_all_iff)
  have "parse_decimal (A @ CHR ''.'' # F) = Some (of_nat n * 10 powi (- int k))"
    using A(2) v by (simp add: parse_decimal_def tA tF parse_exponent_def F(2))
  then show ?thesis using k by (simp add: show_scaled_def A_def F_def)
qed

lemma scaled_starts: "\<exists>c r. show_scaled n d = c # r \<and> is_digit c"
proof -
  have "\<exists>c r. show_nat m = c # r \<and> is_digit c" for m
    using show_nat_digits[of m] by (cases "show_nat m") auto
  then show ?thesis by (metis append_Cons show_scaled_def)
qed

section \<open>The shortest digits\<close>

lemma digits_at_sound:
  assumes "digits_at d q = Some n"
  shows "to_f64 (of_int n * 10 powi (- d)) = Fin q"
  using assms by (auto simp: digits_at_def Let_def split: if_splits)

lemma digits_at_exact: "q * 10 powi d = of_int m \<Longrightarrow> to_f64 q = Fin q \<Longrightarrow> digits_at d q \<noteq> None"
proof -
  assume m: "q * 10 powi d = of_int m" and q: "to_f64 q = Fin q"
  have "of_int m * 10 powi (- d) = q" using m by (metis mult.assoc mult.right_neutral power_int_minus_mult
    power_int_not_zero right_inverse power_int_minus zero_neq_numeral)
  then show ?thesis using m q by (simp add: digits_at_def Let_def)
qed

lemma is_f64_scaled_int:
  assumes "is_f64 (Fin q)" and "1074 \<le> d"
  shows "\<exists>m. q * 10 powi d = of_int m"
proof -
  have "q = rnd64 q" using assms(1) by (auto dest: to_fmt_FinD)
  then have "repr64 q" using repr_rnd[of 53 "-1074" q] by simp
  then obtain m e where q: "q = of_int m * 2 powi e" "-1074 \<le> e" by (auto simp: repr_fmt_def)
  have "(10::rat) powi d = 2 powi d * 5 powi d" by (simp add: power_int_mult_distrib [symmetric])
  then have "q * 10 powi d = of_int m * (2 powi (e + d) * 5 powi d)"
    by (simp add: q(1) power_int_add)
  also have "\<dots> = of_int (m * (2 ^ nat (e + d) * 5 ^ nat d))"
    using assms(2) q(2) by (simp add: power_int_def)
  finally show ?thesis by blast
qed

lemma shortest_sound:
  assumes "is_f64 (Fin q)" and "shortest d q = (n, e)"
  shows "to_f64 (of_int n * 10 powi (- e)) = Fin q"
  using assms
proof (induction d q rule: shortest.induct)
  case (1 d q)
  show ?case
  proof (cases "digits_at d q")
    case None
    then have "d < 1074"
      using digits_at_exact is_f64_scaled_int[OF "1.prems"(1), of d] "1.prems"(1) by fastforce
    then show ?thesis using "1.IH"[OF None] "1.prems" None by (simp add: shortest.simps[of d q])
  next
    case (Some m)
    then show ?thesis using "1.prems"(2) digits_at_sound[OF Some] by (simp add: shortest.simps[of d q])
  qed
qed

lemma shortest_nonneg: "0 \<le> q \<Longrightarrow> 0 \<le> fst (shortest d q)"
proof (induction d q rule: shortest.induct)
  case (1 d q)
  have f: "0 \<le> \<lfloor>q * 10 powi d\<rfloor>" using "1.prems" by simp
  then have "digits_at d q = Some n \<Longrightarrow> 0 \<le> n" for n
    by (auto simp: digits_at_def Let_def split: if_splits)
  then show ?case using 1 f by (subst shortest.simps) (auto split: option.splits)
qed

lemma parse_f64_abs_starts: "is_digit c \<Longrightarrow> parse_f64_abs (c # r) = map_option to_f64 (parse_decimal (c # r))"
  using digit_not_alpha[of c] by (simp add: parse_f64_abs_def)

lemma parse_shortest_abs:
  assumes "is_f64 (Fin q)" and "0 \<le> q"
  shows "\<exists>c r. shortest_abs q = c # r \<and> is_digit c \<and> parse_f64_abs (c # r) = Some (Fin q)"
proof (cases "q = 0")
  case True
  then show ?thesis
    by (auto simp: shortest_abs_def parse_f64_abs_starts is_digit_def parse_decimal_def parse_exponent_def
        digits_val_def digit_val_def)
next
  case False
  obtain n d where s: "shortest (first_scale q) q = (n, d)" by fastforce
  then have n: "0 \<le> n" using shortest_nonneg[OF assms(2), of "first_scale q"] by simp
  obtain c r where c: "show_scaled (nat n) d = c # r" "is_digit c" using scaled_starts by blast
  have "parse_decimal (c # r) = Some (of_int n * 10 powi (- d))"
    using parse_decimal_scaled[of "nat n" d] n by (simp add: c(1))
  then have "parse_f64_abs (c # r) = Some (Fin q)"
    using shortest_sound[OF assms(1) s] c(2) by (simp add: parse_f64_abs_starts)
  then show ?thesis using False s c by (simp add: shortest_abs_def)
qed

lemma named_values: "map to_lower ''NaN'' = ''nan''" "map to_lower ''inf'' = ''inf''" "to_lower CHR ''N'' = CHR ''n''"
    "to_lower CHR ''a'' = CHR ''a''" "to_lower CHR ''i'' = CHR ''i''" "to_lower CHR ''f'' = CHR ''f''" "to_lower CHR ''n'' = CHR ''n''"
  by code_simp+

text \<open>A printed float reads back as itself.\<close>

lemma parse_show_f64: "is_f64 v \<Longrightarrow> parse_f64 (show_f64 v) = Some v"
proof (cases v)
  case (Fin q)
  assume v: "is_f64 v"
  have "is_f64 (Fin \<bar>q\<bar>)" using v Fin to_fmt_minus[of 53 "-1074" 1024 q] by (auto simp: abs_if)
  then obtain c r where c: "shortest_abs \<bar>q\<bar> = c # r" "is_digit c" "parse_f64_abs (c # r) = Some (Fin \<bar>q\<bar>)"
    using parse_shortest_abs[of "\<bar>q\<bar>"] by auto
  then show ?thesis using Fin digit_not_sign[of c]
    by (auto simp: show_f64_def show_signed_def parse_f64_def)
qed (simp_all add: show_f64_def show_signed_def parse_f64_def parse_f64_abs_def named_values)

lemma show_f64_chars: "CHR '','' \<notin> set (show_f64 v) \<and> newline \<notin> set (show_f64 v)"
proof -
  have d: "CHR '','' \<notin> set (show_nat n) \<and> newline \<notin> set (show_nat n)" for n
    using show_nat_digits[of n] by (auto simp: list_all_iff is_digit_def newline_def)
  then have "CHR '','' \<notin> set (show_scaled n e) \<and> newline \<notin> set (show_scaled n e)" for n e
    by (simp add: show_scaled_def zero_pad_def newline_def)
  then show ?thesis
    by (auto simp: show_f64_def show_signed_def shortest_abs_def newline_def split: fp.splits prod.splits)
qed

section \<open>Joined text split again\<close>

lemma split_on_sep: "list_all (\<lambda>c. \<not> f c) x \<Longrightarrow> f c \<Longrightarrow> split_on f (x @ c # s) = x # split_on f s"
  by (induction x) simp_all

lemma split_join:
  assumes "xs \<noteq> []" and "list_all (\<lambda>x. sep \<notin> set x) xs"
  shows "split_on (\<lambda>c. c = sep) (join [sep] xs) = xs"
proof -
  have n: "sep \<notin> set x \<Longrightarrow> list_all (\<lambda>c. c \<noteq> sep) x" for x by (auto simp: list_all_iff)
  show ?thesis using assms
    by (induction "[sep]" xs rule: join.induct) (auto simp: split_on_no_sep split_on_sep n)
qed

lemma join_chars: "c \<in> set (join sep xs) \<Longrightarrow> c \<in> set sep \<or> list_ex (\<lambda>x. c \<in> set x) xs"
  by (induction sep xs rule: join.induct) auto

text \<open>A fixed precision is off by at most half of its last digit.\<close>

lemma rne_close: "\<bar>of_int (rne x) - x\<bar> \<le> 1 / 2"
  by (cases x rule: rne_cases) linarith+

lemma fixed_abs_close:
  assumes "0 \<le> q"
  shows "\<exists>r. parse_decimal (fixed_abs p q) = Some r \<and> \<bar>r - q\<bar> * 10 ^ p \<le> 1 / 2"
proof -
  have n: "0 \<le> rne (q * 10 ^ p)" using assms by (intro rne_ge_int) simp
  have "parse_decimal (fixed_abs p q) = Some (of_int (rne (q * 10 ^ p)) / 10 ^ p)"
    using n by (simp add: fixed_abs_def parse_decimal_scaled power_int_minus divide_inverse)
  moreover have "\<bar>of_int (rne (q * 10 ^ p)) / 10 ^ p - q\<bar> * 10 ^ p = \<bar>of_int (rne (q * 10 ^ p)) - q * 10 ^ p\<bar>"
    by (simp add: abs_mult_pos [symmetric] diff_divide_eq_iff divide_diff_eq_iff abs_divide)
  ultimately show ?thesis using rne_close by auto
qed

end
