(* ===== verification/Ordered_Map.thy ===== *)
theory Ordered_Map
  imports Main
begin

text \<open>
  \<^verbatim>\<open>std::collections::BTreeMap\<close> as the association list its iteration yields: the keys in strictly
  increasing order.  \<^verbatim>\<open>bt_entry k f m\<close> is \<^verbatim>\<open>m.entry(k)\<close> followed by \<^verbatim>\<open>and_modify\<close> and \<^verbatim>\<open>or_insert\<close>,
  as the one function \<open>f\<close> of the present value.
\<close>

fun bt_entry :: "'k::linorder \<Rightarrow> ('v option \<Rightarrow> 'v) \<Rightarrow> ('k \<times> 'v) list \<Rightarrow> ('k \<times> 'v) list" where
  "bt_entry k f [] = [(k, f None)]"
| "bt_entry k f ((k', v) # m) =
     (if k < k' then (k, f None) # (k', v) # m
      else if k = k' then (k, f (Some v)) # m
      else (k', v) # bt_entry k f m)"

abbreviation bt_sorted :: "('k::linorder \<times> 'v) list \<Rightarrow> bool" where
  "bt_sorted m \<equiv> sorted_wrt (<) (map fst m)"

lemma bt_entry_keys: "fst ` set (bt_entry k f m) = insert k (fst ` set m)"
  by (induction k f m rule: bt_entry.induct) auto

lemma bt_entry_sorted: "bt_sorted m \<Longrightarrow> bt_sorted (bt_entry k f m)"
proof (induction k f m rule: bt_entry.induct)
  case (2 k f k' v m)
  then show ?case using bt_entry_keys[of k f m] by (force simp flip: set_map)
qed simp

lemma bt_lookup_None: "bt_sorted ((k', v) # m) \<Longrightarrow> k < k' \<Longrightarrow> map_of m k = None"
  by (auto simp: map_of_eq_None_iff)

lemma bt_lookup: "bt_sorted m \<Longrightarrow> map_of (bt_entry k f m) j = (if j = k then Some (f (map_of m k)) else map_of m j)"
  by (induction k f m rule: bt_entry.induct) (auto simp: bt_lookup_None)

text \<open>Sums over the values: an entry is replaced, or added.\<close>

lemma bt_entry_sum:
  fixes g :: "'v \<Rightarrow> 'a::comm_monoid_add"
  assumes "bt_sorted m"
  shows "sum_list (map (g \<circ> snd) (bt_entry k f m)) + (case map_of m k of Some v \<Rightarrow> g v | None \<Rightarrow> 0) =
    sum_list (map (g \<circ> snd) m) + g (f (map_of m k))"
  using assms by (induction k f m rule: bt_entry.induct) (auto simp: bt_lookup_None ac_simps)

end
