(* ===== verification/Sim_Report.thy ===== *)
theory Sim_Report
  imports Sim_Trajectory Rust_Fmt Ordered_Map "HOL-Library.List_Lexorder" "HOL-Library.Char_ord"
begin

text \<open>
  The reports of a simulation record (\<^verbatim>\<open>src/sim/trajectory.rs\<close>): the CSV of its states, the timeline in
  full and sampled to one state per second, and the session summary with its tallies per signal
  kind, command kind and learned action.  The text is modelled to the character.  Parameters: the
  JSON text of a signal's detail and of the whole record (serde), and the write of a file.  The
  arrays of six relief dimensions are lists.
\<close>

section \<open>Files\<close>

definition dump_json :: "(trajectory \<Rightarrow> string res) \<Rightarrow> (string \<Rightarrow> string \<Rightarrow> unit res) \<Rightarrow> string \<Rightarrow> trajectory \<Rightarrow> unit res" where
  "dump_json to_json write path tr = (case to_json tr of Inl e \<Rightarrow> Inl e | Inr json \<Rightarrow> write path json)"

definition csv_header :: string where
  "csv_header = ''at_s,kv_cache_bytes,kv_cache_tokens,device_memory_used_mb,engine_cpu_pct,engine_gpu_pct,cpu_freq_mhz,gpu_freq_mhz,thermal_c,throughput_tps,tbt_ms''"

definition csv_fields :: "f64 \<times> physical_state_snapshot \<Rightarrow> f64 list" where
  "csv_fields = (\<lambda>(at_s, s).
     [at_s, sn_kv_cache_bytes s, sn_kv_cache_tokens s, sn_device_memory_used_mb s, sn_engine_cpu_pct s,
      sn_engine_gpu_pct s, sn_cpu_freq_mhz s, sn_gpu_freq_mhz s, sn_thermal_c s, sn_throughput_tps s, sn_tbt_ms s])"

fun csv_lines :: "trajectory \<Rightarrow> string list" where
  "csv_lines [] = []"
| "csv_lines (e # tr) =
     (case e of StateSnapshot at_s s _ \<Rightarrow> [join '','' (map show_f64 (csv_fields (at_s, s)))] | _ \<Rightarrow> []) @ csv_lines tr"

definition csv_states :: "trajectory \<Rightarrow> string" where
  "csv_states tr = join [newline] (csv_header # csv_lines tr)"

definition dump_csv_states :: "(string \<Rightarrow> string \<Rightarrow> unit res) \<Rightarrow> string \<Rightarrow> trajectory \<Rightarrow> unit res" where
  "dump_csv_states write path tr = write path (csv_states tr)"

section \<open>The timeline\<close>

datatype timeline_mode = Full | Compact

type_synonym detail_text = "(string \<times> json_value) list \<Rightarrow> string"

definition bar :: string where "bar = utf8 [0x2501, 0x2501, 0x2501]"
definition arrow :: string where "arrow = utf8 [0x2192]"
definition back_arrow :: string where "back_arrow = utf8 [0x2190]"
definition degree :: string where "degree = utf8 [0xB0]"
definition warn :: string where "warn = utf8 [0x26A0]"

definition at_field :: "f64 \<Rightarrow> string" where
  "at_field t = ''t='' @ pad_left 7 (fixed 2 t) @ ''s''"

definition mem_pct :: "physical_state_snapshot \<Rightarrow> f64" where
  "mem_pct s =
     (if fp_gt (sn_device_memory_total_mb s) (Fin 0)
      then div64 (mul64 (Fin 100) (sn_device_memory_used_mb s)) (sn_device_memory_total_mb s)
      else Fin 0)"

definition u64_or_0 :: "u64 option \<Rightarrow> string" where
  "u64_or_0 v = show_nat (unat (case v of Some n \<Rightarrow> n | None \<Rightarrow> 0))"

fun entry_line :: "detail_text \<Rightarrow> trajectory_entry \<Rightarrow> string" where
  "entry_line D (StateSnapshot t s e) =
     at_field t @ ''  [STATE]  kv='' @ pad_left 6 (fixed 2 (div64 (sn_kv_cache_bytes s) (Fin 1048576)))
     @ ''MiB  mem='' @ pad_left 6 (fixed 1 (sn_device_memory_used_mb s))
     @ ''MB  cpu='' @ pad_left 5 (fixed 1 (sn_engine_cpu_pct s))
     @ ''%  gpu='' @ pad_left 5 (fixed 1 (sn_engine_gpu_pct s))
     @ ''%  therm='' @ pad_left 5 (fixed 1 (sn_thermal_c s)) @ degree
     @ ''C  tps='' @ pad_left 6 (fixed 2 (sn_throughput_tps s))
     @ ''  dev='' @ es_active_device e @ ''  phase='' @ es_phase e @ ''  actions='' @ debug_list (es_active_actions e)"
| "entry_line D (HeartbeatEntry t m) =
     at_field t @ ''  [HB]     tbt='' @ pad_left 6 (fixed 2 (case md_tbt_ms m of Some v \<Rightarrow> v | None \<Rightarrow> Fin 0))
     @ ''ms  kv='' @ u64_or_0 (md_kv_cache_bytes m) @ ''/'' @ u64_or_0 (md_kv_cache_budget_bytes m)
     @ ''B  kv_tok='' @ u64_or_0 (md_kv_cache_tokens m)
     @ ''  phase='' @ (case md_phase m of Some p \<Rightarrow> p | None \<Rightarrow> ''?'')"
| "entry_line D (SignalEntry t g) =
     at_field t @ ''  [SIG]    '' @ sd_kind g @ ''@'' @ sd_level g @ ''  '' @ D (sd_detail g)"
| "entry_line D (DirectiveEntry t g d) =
     at_field t @ ''  [DIR] '' @ back_arrow @ '' '' @ sd_kind g @ ''@'' @ sd_level g
     @ ''  seq='' @ show_nat (unat (dd_seq_id d)) @ ''  cmds='' @ debug_list (dd_commands d)"
| "entry_line D (ObservationDueEntry t action recorded) =
     at_field t @ ''  [OBS]    '' @ action @ '' (recorded t='' @ fixed 2 recorded @ ''s)''"
| "entry_line D (InjectionEvent t idx started) =
     at_field t @ ''  [INJ]    idx='' @ show_nat idx @ '' '' @ (if started then ''started'' else ''ended'')"
| "entry_line D (CustomEntry t name) = at_field t @ ''  [CUSTOM] '' @ name"
| "entry_line D (ReliefUpdate t action earlier later obs n age) =
     at_field t @ ''  [RELIEF] '' @ action @ '' age='' @ fixed 2 age @ ''s obs#'' @ show_nat (unat n)
     @ ''  relief[mem]: '' @ fixed 3 (earlier ! 2) @ arrow @ fixed 3 (later ! 2)"
| "entry_line D (ObservationOverrun t n) =
     at_field t @ ''  [OVERRUN] pending observation '' @ utf8 [0xB36E, 0xC5B4, 0xC368, 0xC9D0] @ '' (''
     @ utf8 [0xB204, 0xC801] @ '' '' @ show_nat (unat n) @ '')''"
| "entry_line D (LevelTransition t kind from to s) =
     at_field t @ ''  [TRANS]  '' @ kind @ '': '' @ (case from of Some l \<Rightarrow> l | None \<Rightarrow> ''-'') @ '' '' @ arrow @ '' '' @ to
     @ ''   mem='' @ fixed 0 (mem_pct s) @ ''%  cpu='' @ fixed 0 (sn_engine_cpu_pct s)
     @ ''%  gpu='' @ fixed 0 (sn_engine_gpu_pct s) @ ''%  therm='' @ fixed 1 (sn_thermal_c s) @ degree @ ''C''"

fun fp_floor :: "f64 \<Rightarrow> f64" where
  "fp_floor (Fin q) = Fin (of_int \<lfloor>q\<rfloor>)"
| "fp_floor v = v"

definition second_of :: "f64 \<Rightarrow> i64" where
  "second_of t = i64_of_f64 (fp_floor t)"

fun timeline_loop :: "detail_text \<Rightarrow> timeline_mode \<Rightarrow> i64 option \<Rightarrow> trajectory \<Rightarrow> string list" where
  "timeline_loop D mode last_sec [] = []"
| "timeline_loop D mode last_sec (entry # tr) =
     (case entry of
        StateSnapshot at_s _ _ \<Rightarrow>
          if mode = Compact then
            (let sec = second_of at_s in
             if last_sec = Some sec then timeline_loop D mode last_sec tr
             else entry_line D entry # timeline_loop D mode (Some sec) tr)
          else entry_line D entry # timeline_loop D mode last_sec tr
      | HeartbeatEntry _ _ \<Rightarrow>
          if mode = Compact then timeline_loop D mode last_sec tr
          else entry_line D entry # timeline_loop D mode last_sec tr
      | _ \<Rightarrow> entry_line D entry # timeline_loop D mode last_sec tr)"

definition record_duration :: "trajectory \<Rightarrow> f64" where
  "record_duration tr = (case last_at_s tr of Some t \<Rightarrow> t | None \<Rightarrow> Fin 0)"

definition timeline_header :: "trajectory \<Rightarrow> string list" where
  "timeline_header tr =
     [bar @ '' Simulation Timeline '' @ bar,
      ''duration='' @ fixed 2 (record_duration tr) @ ''s  heartbeats='' @ show_nat (heartbeat_count tr)
      @ ''  signals='' @ show_nat (signal_count tr) @ ''  directives='' @ show_nat (directive_count tr)
      @ ''  obs='' @ show_nat (observation_due_count tr),
      '''']"

definition format_timeline_inner :: "detail_text \<Rightarrow> timeline_mode \<Rightarrow> trajectory \<Rightarrow> string" where
  "format_timeline_inner D mode tr = writeln (timeline_header tr @ timeline_loop D mode None tr)"

definition format_timeline :: "detail_text \<Rightarrow> trajectory \<Rightarrow> string" where
  "format_timeline D = format_timeline_inner D Full"

definition format_timeline_compact :: "detail_text \<Rightarrow> trajectory \<Rightarrow> string" where
  "format_timeline_compact D = format_timeline_inner D Compact"

section \<open>The session summary\<close>

subsection \<open>Signals by kind and level\<close>

definition incr :: "nat option \<Rightarrow> nat" where
  "incr c = (case c of Some n \<Rightarrow> n + 1 | None \<Rightarrow> 1)"

type_synonym level_counts = "(string \<times> nat) list"

definition count_level :: "signal_dump \<Rightarrow> (string \<times> level_counts) list \<Rightarrow> (string \<times> level_counts) list" where
  "count_level d =
     bt_entry (sd_kind d) (\<lambda>lv. bt_entry (sd_level d) incr (case lv of Some m \<Rightarrow> m | None \<Rightarrow> []))"

fun signals_by_kind_level :: "trajectory \<Rightarrow> (string \<times> level_counts) list \<Rightarrow> (string \<times> level_counts) list" where
  "signals_by_kind_level [] m = m"
| "signals_by_kind_level (e # tr) m =
     signals_by_kind_level tr (case signal_of e of Some d \<Rightarrow> count_level d m | None \<Rightarrow> m)"

definition level_total :: "level_counts \<Rightarrow> nat" where
  "level_total lv = sum_list (map snd lv)"

definition max_len :: "nat \<Rightarrow> string list \<Rightarrow> nat" where
  "max_len dflt xs = (case map length xs of [] \<Rightarrow> dflt | n # ns \<Rightarrow> fold max ns n)"

definition signal_kind_line :: "nat \<Rightarrow> string \<times> level_counts \<Rightarrow> string" where
  "signal_kind_line width = (\<lambda>(kind, lv).
     ''  '' @ pad_right width kind @ ''  '' @ pad_left 4 (show_nat (level_total lv))
     @ ''  ['' @ join ''  '' (map (\<lambda>(l, n). l @ utf8 [0xD7] @ show_nat n) lv) @ '']'')"

definition signal_lines :: "trajectory \<Rightarrow> string list" where
  "signal_lines tr =
     (let m = signals_by_kind_level tr []; total_signals = sum_list (map (level_total \<circ> snd) m) in
      if total_signals = 0 then [''Signals (0 total): none'']
      else (''Signals ('' @ show_nat total_signals @ '' total):'')
           # map (signal_kind_line (max_len 0 (map fst m))) m)"

subsection \<open>Directives\<close>

type_synonym sent = "f64 \<times> signal_dump \<times> directive_dump"

definition sent_records :: "trajectory \<Rightarrow> sent list" where
  "sent_records tr =
     List.map_filter (\<lambda>e. case e of DirectiveEntry t g d \<Rightarrow> Some (t, g, d) | _ \<Rightarrow> None) tr"

definition directive_kinds :: "sent list \<Rightarrow> (string \<times> nat) list" where
  "directive_kinds ds =
     fold (\<lambda>(_, _, d). fold (\<lambda>c. bt_entry (command_kind c) incr) (dd_commands d)) ds []"

definition saturated :: "sent list \<Rightarrow> bool" where
  "saturated ds =
     (let m = directive_kinds ds in length m = 1 \<and> 10 \<le> (case m of (_, n) # _ \<Rightarrow> n | [] \<Rightarrow> 0))"

definition no_directive_line :: string where
  "no_directive_line = ''Directives (0 sent): '' @ warn @ '' '' @ utf8 [0xC815, 0xCC45, 0xC774] @ '' ''
     @ utf8 [0xC5B4, 0xB5A4] @ '' directive'' @ utf8 [0xB3C4] @ '' ''
     @ utf8 [0xBC29, 0xCD9C, 0xD558, 0xC9C0] @ '' '' @ utf8 [0xC54A, 0xC74C]"

definition saturated_line :: string where
  "saturated_line = ''  '' @ warn @ '' '' @ utf8 [0xB2E8, 0xC77C] @ '' action'' @ utf8 [0xC73C, 0xB85C] @ '' ''
     @ utf8 [0xD3EC, 0xD654] @ '' '' @ utf8 [0x2014] @ '' action '' @ utf8 [0xB2E4, 0xC591, 0xC131] @ '' ''
     @ utf8 [0xC5C6, 0xC74C]"

definition sent_lines :: "sent \<Rightarrow> string list" where
  "sent_lines = (\<lambda>(t, g, d).
     [''  t=+'' @ pad_left 6 (fixed 2 t) @ ''s  '' @ join '', '' (dd_commands d),
      ''  '' @ pad_right 10 '''' @ ''  trigger: '' @ sd_kind g @ ''('' @ sd_level g @ '')''])"

definition directive_lines :: "trajectory \<Rightarrow> string list" where
  "directive_lines tr =
     (let ds = sent_records tr in
      if ds = [] then [no_directive_line]
      else (''Directives ('' @ show_nat (length ds) @ '' sent):'')
           # concat (map sent_lines ds) @ (if saturated ds then [saturated_line] else []))"

subsection \<open>Level transitions\<close>

type_synonym transition = "f64 \<times> string \<times> string option \<times> string \<times> physical_state_snapshot"

definition transition_entries :: "trajectory \<Rightarrow> transition list" where
  "transition_entries tr =
     List.map_filter (\<lambda>e. case e of LevelTransition t k f l s \<Rightarrow> Some (t, k, f, l, s) | _ \<Rightarrow> None) tr"

definition from_text :: "string option \<Rightarrow> string" where
  "from_text f = (case f of Some l \<Rightarrow> l | None \<Rightarrow> ''-'')"

definition transition_line :: "nat \<Rightarrow> nat \<Rightarrow> nat \<Rightarrow> transition \<Rightarrow> string" where
  "transition_line kind_w from_w to_w = (\<lambda>(t, kind, from, to, s).
     ''  t='' @ pad_left 8 (fixed_plus 2 t) @ ''s  '' @ pad_right kind_w kind
     @ ''  '' @ pad_right from_w (from_text from) @ ''  '' @ arrow @ '' '' @ pad_right to_w to
     @ ''  mem='' @ pad_left 5 (fixed 1 (mem_pct s)) @ ''%  cpu='' @ pad_left 5 (fixed 1 (sn_engine_cpu_pct s))
     @ ''%  gpu='' @ pad_left 5 (fixed 1 (sn_engine_gpu_pct s))
     @ ''%  therm='' @ pad_left 5 (fixed 1 (sn_thermal_c s)) @ degree @ ''C'')"

definition transition_lines :: "trajectory \<Rightarrow> string list" where
  "transition_lines tr =
     (let ts = transition_entries tr in
      if ts = [] then [''Signal Transitions (0): none'']
      else (''Signal Transitions ('' @ show_nat (length ts) @ ''):'')
           # map (transition_line (max_len 0 (map (\<lambda>(_, k, _). k) ts))
                   (max_len 1 (map (\<lambda>(_, _, f, _). from_text f) ts))
                   (max_len 0 (map (\<lambda>(_, _, _, l, _). l) ts))) ts)"

subsection \<open>The relief table\<close>

record relief_agg =
  rg_count :: u32
  rg_first_before :: "f32 list"
  rg_last_after :: "f32 list"

definition aggregate_relief :: "f32 list \<Rightarrow> f32 list \<Rightarrow> relief_agg option \<Rightarrow> relief_agg" where
  "aggregate_relief earlier later agg =
     (case agg of
        Some a \<Rightarrow> a\<lparr>rg_count := rg_count a + 1, rg_last_after := later\<rparr>
      | None \<Rightarrow> \<lparr> rg_count = 1, rg_first_before = earlier, rg_last_after = later \<rparr>)"

fun relief_of :: "trajectory_entry \<Rightarrow> (string \<times> f32 list \<times> f32 list) option" where
  "relief_of (ReliefUpdate _ action earlier later _ _ _) = Some (action, earlier, later)"
| "relief_of _ = None"

fun relief_aggs :: "trajectory \<Rightarrow> (string \<times> relief_agg) list \<Rightarrow> (string \<times> relief_agg) list" where
  "relief_aggs [] m = m"
| "relief_aggs (e # tr) m =
     relief_aggs tr
       (case relief_of e of
          Some (action, earlier, later) \<Rightarrow> bt_entry action (aggregate_relief earlier later) m
        | None \<Rightarrow> m)"

definition dim_names :: "string list" where
  "dim_names = [''gpu'', ''cpu'', ''mem'', ''therm'', ''lat'', ''app'']"

definition relief_row :: "nat \<Rightarrow> string \<Rightarrow> f32 list \<Rightarrow> string \<Rightarrow> string" where
  "relief_row width name vs obs =
     ''  '' @ pad_right width name @ concat (map (\<lambda>v. ''  '' @ pad_left 6 (fixed 3 v)) vs) @ ''  '' @ obs"

definition relief_total :: "(string \<times> relief_agg) list \<Rightarrow> u32" where
  "relief_total m = sum_list (map (rg_count \<circ> snd) m)"

definition relief_lines :: "trajectory \<Rightarrow> string list" where
  "relief_lines tr =
     (let m = relief_aggs tr [] in
      if m = [] then [''Relief Table (0 actions learned)'']
      else (let width = max (max_len 6 (map fst m)) 6 in
        (''Relief Table ('' @ show_nat (unat (relief_total m)) @ '' action(s) learned):'')
        # (''  '' @ pad_right width ''action'' @ concat (map (\<lambda>dim. ''  '' @ pad_left 6 dim) dim_names) @ ''  obs'')
        # concat (map (\<lambda>(action, agg).
            [relief_row width action (rg_first_before agg) ''(prior)'',
             relief_row width '''' (rg_last_after agg) (''obs#'' @ show_nat (unat (rg_count agg)))]) m)))"

subsection \<open>Overruns, and the whole\<close>

fun overrun_of :: "trajectory_entry \<Rightarrow> u64 option" where
  "overrun_of (ObservationOverrun _ n) = Some n"
| "overrun_of _ = None"

definition overrun_total :: "trajectory \<Rightarrow> u64" where
  "overrun_total tr = (case List.map_filter overrun_of (rev tr) of n # _ \<Rightarrow> n | [] \<Rightarrow> 0)"

definition overrun_lines :: "trajectory \<Rightarrow> string list" where
  "overrun_lines tr =
     (let n = overrun_total tr; total_dirs = length (sent_records tr) in
      if 0 < n then
        (let pct = (if 0 < total_dirs
                    then div64 (mul64 (Fin 100) (f64_of_u64 n)) (to_f64 (of_nat total_dirs)) else Fin 0) in
         ['''',
          warn @ '' observation overruns: '' @ show_nat (unat n) @ '' / '' @ show_nat total_dirs @ '' directives (''
          @ fixed 0 pct @ ''%) '' @ utf8 [0x2014] @ '' 3s '' @ utf8 [0xC9C0, 0xC5F0] @ '' ''
          @ utf8 [0xBBF8, 0xCDA9, 0xC871, 0xC73C, 0xB85C] @ '' '' @ utf8 [0xD559, 0xC2B5] @ '' ''
          @ utf8 [0xB204, 0xB77D]])
      else [])"

definition session_lines :: "trajectory \<Rightarrow> string list" where
  "session_lines tr =
     [bar @ '' Session Summary '' @ bar, ''duration: '' @ fixed 2 (record_duration tr) @ ''s'', '''']
     @ signal_lines tr @ ['''']
     @ directive_lines tr @ ['''']
     @ transition_lines tr @ ['''']
     @ relief_lines tr @ overrun_lines tr"

definition format_session_summary :: "trajectory \<Rightarrow> string" where
  "format_session_summary tr = writeln (session_lines tr)"

text \<open>What \<^verbatim>\<open>print_timeline_if_enabled\<close> writes to the error stream, by the value of \<^verbatim>\<open>SIM_TIMELINE\<close>.\<close>

definition print_timeline_if_enabled :: "detail_text \<Rightarrow> string option \<Rightarrow> trajectory \<Rightarrow> string" where
  "print_timeline_if_enabled D var tr =
     (case var of
        None \<Rightarrow> ''''
      | Some v \<Rightarrow>
          if v = ''1'' \<or> v = ''full'' then format_timeline D tr @ [newline]
          else if v = ''compact'' then format_timeline_compact D tr @ [newline]
          else if v = ''summary'' then format_session_summary tr @ [newline]
          else '''')"

section \<open>Facts\<close>

lemma csv_lines_map: "csv_lines tr = map (\<lambda>x. join '','' (map show_f64 (csv_fields x))) (snapshots tr)"
proof (induction tr)
  case (Cons e tr)
  then show ?case by (cases e) simp_all
qed simp

lemma csv_line_one_line: "newline \<notin> set (join '','' (map show_f64 vs))"
  using show_f64_chars by (auto dest!: join_chars simp: list_ex_iff newline_def)

lemma csv_line_cells: "vs \<noteq> [] \<Longrightarrow> split_on (\<lambda>c. c = CHR '','') (join '','' (map show_f64 vs)) = map show_f64 vs"
  using show_f64_chars by (intro split_join) (auto simp: list_all_iff)

lemma parse_shown: "list_all is_f64 vs \<Longrightarrow> map (parse_f64 \<circ> show_f64) vs = map Some vs"
  by (induction vs) (simp_all add: parse_show_f64)

text \<open>Reading a CSV text back.\<close>

definition csv_read :: "string \<Rightarrow> f64 option list list" where
  "csv_read s = map (map parse_f64 \<circ> split_on (\<lambda>c. c = CHR '','')) (tl (split_on (\<lambda>c. c = newline) s))"

definition snapshots_f64 :: "trajectory \<Rightarrow> bool" where
  "snapshots_f64 tr = list_all (\<lambda>x. list_all is_f64 (csv_fields x)) (snapshots tr)"

text \<open>What each column of the file is to hold, by its name.\<close>

definition csv_columns :: "(string \<times> (f64 \<times> physical_state_snapshot \<Rightarrow> f64)) list" where
  "csv_columns =
     [(''at_s'', fst), (''kv_cache_bytes'', sn_kv_cache_bytes \<circ> snd), (''kv_cache_tokens'', sn_kv_cache_tokens \<circ> snd),
      (''device_memory_used_mb'', sn_device_memory_used_mb \<circ> snd), (''engine_cpu_pct'', sn_engine_cpu_pct \<circ> snd),
      (''engine_gpu_pct'', sn_engine_gpu_pct \<circ> snd), (''cpu_freq_mhz'', sn_cpu_freq_mhz \<circ> snd),
      (''gpu_freq_mhz'', sn_gpu_freq_mhz \<circ> snd), (''thermal_c'', sn_thermal_c \<circ> snd),
      (''throughput_tps'', sn_throughput_tps \<circ> snd), (''tbt_ms'', sn_tbt_ms \<circ> snd)]"

lemma csv_fields_columns: "csv_fields = (\<lambda>x. map (\<lambda>c. snd c x) csv_columns)"
  by (rule ext) (simp add: csv_fields_def csv_columns_def split: prod.split)

lemma csv_header_columns: "split_on (\<lambda>c. c = CHR '','') csv_header = map fst csv_columns"
  by (simp add: csv_header_def csv_columns_def)

text \<open>C19: The CSV of the states loses nothing: split at its line ends and commas and read back, it has,
  after a header with the names of the columns, one line per recorded state, whose column of each
  name is exactly the recorded time or value of that name.\<close>

theorem csv_states_lossless:
  assumes "snapshots_f64 tr"
  shows "csv_read (csv_states tr) = map (\<lambda>x. map (\<lambda>c. Some (snd c x)) csv_columns) (snapshots tr) \<and>
    split_on (\<lambda>c. c = CHR '','') csv_header = map fst csv_columns"
proof -
  have h: "newline \<notin> set csv_header" by (simp add: csv_header_def newline_def)
  have "split_on (\<lambda>c. c = newline) (csv_states tr) = csv_header # csv_lines tr"
    unfolding csv_states_def using h csv_line_one_line
    by (intro split_join) (auto simp: csv_lines_map list_all_iff)
  moreover have "csv_fields x \<noteq> []" for x by (cases x) (simp add: csv_fields_def)
  ultimately have "csv_read (csv_states tr) = map (map Some \<circ> csv_fields) (snapshots tr)" using assms
    by (auto simp: csv_read_def csv_lines_map csv_line_cells snapshots_f64_def list_all_iff parse_shown intro!: map_cong)
  then show ?thesis by (simp add: csv_header_columns) (simp add: csv_fields_columns comp_def)
qed

definition example_snapshot :: physical_state_snapshot where
  "example_snapshot =
     \<lparr> sn_kv_cache_bytes = Fin 4096, sn_kv_cache_tokens = Fin 32, sn_kv_dtype = ''f16'', sn_device_memory_used_mb = Fin 6144,
       sn_device_memory_total_mb = Fin 8192, sn_memory_bw_utilization_pct = Fin 0, sn_engine_cpu_pct = Fin (1 / 2),
       sn_engine_gpu_pct = Fin 0, sn_cpu_freq_mhz = Fin 2000, sn_gpu_freq_mhz = Fin 800, sn_thermal_c = Fin (- 5),
       sn_cpu_cluster_thermal_c = Fin 40, sn_gpu_cluster_thermal_c = Fin 40, sn_throughput_tps = PInf, sn_tbt_ms = NaN \<rparr>"

lemma to_f64_half: "to_f64 (1 / 2) = Fin (1 / 2)"
proof (rule to_fmt_repr)
  show "repr64 (1 / 2)" unfolding repr_fmt_def
    by (intro exI[of _ 1] exI[of _ "-1"]) (simp add: power_int_minus)
qed simp

theorem csv_states_lossless_witness:
  "csv_read (csv_states [CustomEntry (Fin 0) ''start'',
     StateSnapshot (Fin 1) example_snapshot (snapshot_from_engine (example_engine []))]) =
   [map Some [Fin 1, Fin 4096, Fin 32, Fin 6144, Fin (1 / 2), Fin 0, Fin 2000, Fin 800, Fin (- 5), PInf, NaN]]"
proof -
  have "to_f64 (- 5) = Fin (- 5)" using to_f64_int[of "- 5"] by simp
  then have "snapshots_f64 [CustomEntry (Fin 0) ''start'',
     StateSnapshot (Fin 1) example_snapshot (snapshot_from_engine (example_engine []))]"
    by (simp add: snapshots_f64_def csv_fields_def example_snapshot_def to_f64_half to_f64_numeral to_f64_one)
  from csv_states_lossless[OF this] show ?thesis
    by (simp add: csv_columns_def example_snapshot_def)
qed

section \<open>The timeline\<close>

text \<open>
  What the compact timeline keeps, by position: an entry is left out when it is a heartbeat, or a
  state in the same second as the last state recorded before it.
\<close>

definition snapshot_seconds :: "trajectory \<Rightarrow> i64 list" where
  "snapshot_seconds tr = map (\<lambda>(t, _). second_of t) (snapshots tr)"

definition last_second :: "trajectory \<Rightarrow> i64 option" where
  "last_second tr = (if snapshot_seconds tr = [] then None else Some (last (snapshot_seconds tr)))"

definition kept :: "trajectory \<Rightarrow> nat \<Rightarrow> bool" where
  "kept tr i =
     (case tr ! i of
        HeartbeatEntry _ _ \<Rightarrow> False
      | StateSnapshot t _ _ \<Rightarrow> last_second (take i tr) \<noteq> Some (second_of t)
      | _ \<Rightarrow> True)"

lemma timeline_full: "timeline_loop D Full last_sec tr = map (entry_line D) tr"
proof (induction tr arbitrary: last_sec)
  case (Cons e tr)
  then show ?case by (cases e) simp_all
qed simp

lemma last_second_snoc:
  "last_second (tr @ [e]) = (case e of StateSnapshot t _ _ \<Rightarrow> Some (second_of t) | _ \<Rightarrow> last_second tr)"
  by (cases e) (simp_all add: last_second_def snapshot_seconds_def snapshots_def map_filter_def)

lemma timeline_compact:
  "timeline_loop D Compact (last_second pre) tr =
   map (\<lambda>i. entry_line D ((pre @ tr) ! i)) (filter (kept (pre @ tr)) [length pre..<length pre + length tr])"
proof (induction tr arbitrary: pre)
  case (Cons e tr)
  have range: "[length pre..<length pre + length (e # tr)] = length pre # [Suc (length pre)..<Suc (length pre) + length tr]"
    by (simp add: upt_conv_Cons del: upt_Suc)
  have k: "kept (pre @ e # tr) (length pre) \<longleftrightarrow>
      (case e of HeartbeatEntry _ _ \<Rightarrow> False | StateSnapshot t _ _ \<Rightarrow> last_second pre \<noteq> Some (second_of t) | _ \<Rightarrow> True)"
    by (cases e) (simp_all add: kept_def)
  have ih: "timeline_loop D Compact (last_second (pre @ [e])) tr =
      map (\<lambda>i. entry_line D ((pre @ e # tr) ! i)) (filter (kept (pre @ e # tr)) [Suc (length pre)..<Suc (length pre) + length tr])"
    using Cons.IH[of "pre @ [e]"] by simp
  show ?case unfolding range filter.simps k
    using ih by (cases e) (simp_all add: last_second_snoc Let_def del: upt_Suc)
qed simp

text \<open>C21: The full timeline has one line per recorded entry.  The compact one has the lines of the
  entries, in order, but for the heartbeats and for every state in the same second as the state
  recorded before it: so of a run of states within one second it has exactly the first.\<close>

theorem timeline_samples_seconds:
  "format_timeline D tr = writeln (timeline_header tr @ map (entry_line D) tr) \<and>
   format_timeline_compact D tr =
     writeln (timeline_header tr @ map (\<lambda>i. entry_line D (tr ! i)) (filter (kept tr) [0..<length tr]))"
  using timeline_compact[of D "[]" tr]
  by (simp add: format_timeline_def format_timeline_compact_def format_timeline_inner_def timeline_full
      last_second_def snapshot_seconds_def snapshots_def map_filter_def)

section \<open>The tallies of the session summary\<close>

lemma bt_sorted_distinct: "bt_sorted m \<Longrightarrow> distinct (map fst m)"
  by (simp add: strict_sorted_iff)

abbreviation bt_count :: "('k \<times> nat) list \<Rightarrow> 'k \<Rightarrow> nat" where
  "bt_count m k \<equiv> (case map_of m k of Some n \<Rightarrow> n | None \<Rightarrow> 0)"

lemma incr_count: "bt_sorted m \<Longrightarrow> bt_count (bt_entry k incr m) j = bt_count m j + (if j = k then 1 else 0)"
  by (auto simp: bt_lookup incr_def split: option.split)

lemma level_total_incr: "bt_sorted m \<Longrightarrow> level_total (bt_entry k incr m) = level_total m + 1"
  using bt_entry_sum[of m "\<lambda>n. n" k incr] by (simp add: level_total_def incr_def comp_def split: option.splits)

definition levels_sorted :: "(string \<times> level_counts) list \<Rightarrow> bool" where
  "levels_sorted m = (bt_sorted m \<and> list_all (\<lambda>x. bt_sorted (snd x)) m)"

abbreviation levels_of :: "(string \<times> level_counts) list \<Rightarrow> string \<Rightarrow> level_counts" where
  "levels_of m k \<equiv> (case map_of m k of Some lv \<Rightarrow> lv | None \<Rightarrow> [])"

lemma levels_of_sorted: "levels_sorted m \<Longrightarrow> bt_sorted (levels_of m k)"
  by (auto simp: levels_sorted_def list_all_iff split: option.split dest!: map_of_SomeD)

lemma bt_entry_values: "list_all (\<lambda>x. P (snd x)) m \<Longrightarrow> bt_sorted m \<Longrightarrow> P (f (map_of m k)) \<Longrightarrow> list_all (\<lambda>x. P (snd x)) (bt_entry k f m)"
  by (induction k f m rule: bt_entry.induct) (auto simp: bt_lookup_None)

lemma count_level_sorted: "levels_sorted m \<Longrightarrow> levels_sorted (count_level d m)"
  using levels_of_sorted[of m "sd_kind d"]
  by (auto simp: levels_sorted_def count_level_def intro!: bt_entry_sorted bt_entry_values)

lemma count_level_levels:
  "levels_sorted m \<Longrightarrow>
   levels_of (count_level d m) k = (if k = sd_kind d then bt_entry (sd_level d) incr (levels_of m k) else levels_of m k)"
  by (simp add: levels_sorted_def count_level_def bt_lookup)

lemma count_level_total:
  assumes "levels_sorted m"
  shows "sum_list (map (level_total \<circ> snd) (count_level d m)) = sum_list (map (level_total \<circ> snd) m) + 1"
proof -
  have "level_total (levels_of m (sd_kind d)) = (case map_of m (sd_kind d) of Some lv \<Rightarrow> level_total lv | None \<Rightarrow> 0)"
    by (simp add: level_total_def split: option.split)
  then show ?thesis
    using assms bt_entry_sum[of m level_total "sd_kind d" "\<lambda>lv. bt_entry (sd_level d) incr (case lv of Some m \<Rightarrow> m | None \<Rightarrow> [])"]
      level_total_incr[OF levels_of_sorted[OF assms]]
    by (simp add: count_level_def levels_sorted_def)
qed

definition signals_at :: "string \<Rightarrow> string \<Rightarrow> trajectory \<Rightarrow> nat" where
  "signals_at k l tr = length (filter (\<lambda>e. map_option (\<lambda>d. (sd_kind d, sd_level d)) (signal_of e) = Some (k, l)) tr)"

lemma signals_tallied:
  assumes "levels_sorted m"
  shows "levels_sorted (signals_by_kind_level tr m) \<and>
    bt_count (levels_of (signals_by_kind_level tr m) k) l = bt_count (levels_of m k) l + signals_at k l tr \<and>
    level_total (levels_of (signals_by_kind_level tr m) k) = level_total (levels_of m k) + signal_count_by_kind k tr \<and>
    sum_list (map (level_total \<circ> snd) (signals_by_kind_level tr m)) = sum_list (map (level_total \<circ> snd) m) + signal_count tr"
  using assms
proof (induction tr m rule: signals_by_kind_level.induct)
  case (2 e tr m)
  show ?case
  proof (cases "signal_of e")
    case None
    then show ?thesis using 2 by (simp add: signals_at_def signal_count_by_kind_def signal_count_def)
  next
    case (Some d)
    note levels = count_level_levels[OF "2.prems", of d] levels_of_sorted[OF "2.prems", of "sd_kind d"]
    from Some 2 levels show ?thesis
      by (auto simp: count_level_sorted count_level_total incr_count level_total_incr
          signals_at_def signal_count_by_kind_def signal_count_def simp del: comp_apply)
  qed
qed (simp add: signals_at_def signal_count_by_kind_def signal_count_def)

definition sent_kinds :: "sent list \<Rightarrow> string list" where
  "sent_kinds ds = concat (map (\<lambda>(_, _, d). map command_kind (dd_commands d)) ds)"

lemma directive_kinds_fold: "directive_kinds ds = fold (\<lambda>k. bt_entry k incr) (sent_kinds ds) []"
proof -
  have "fold (\<lambda>(_, _, d). fold (\<lambda>c. bt_entry (command_kind c) incr) (dd_commands d)) ds m =
    fold (\<lambda>k. bt_entry k incr) (sent_kinds ds) m" for m
    by (induction ds arbitrary: m) (auto simp: sent_kinds_def fold_map comp_def)
  then show ?thesis by (simp add: directive_kinds_def)
qed

lemma tally_fold:
  assumes "bt_sorted m"
  shows "bt_sorted (fold (\<lambda>k. bt_entry k incr) ks m) \<and>
    fst ` set (fold (\<lambda>k. bt_entry k incr) ks m) = set ks \<union> fst ` set m \<and>
    bt_count (fold (\<lambda>k. bt_entry k incr) ks m) j = bt_count m j + count_list ks j"
  using assms
  by (induction ks arbitrary: m) (auto simp: bt_entry_sorted bt_entry_keys incr_count)

lemma count_list_all: "set ks = {k} \<Longrightarrow> count_list ks k = length ks"
proof -
  assume "set ks = {k}"
  then have "list_all (\<lambda>x. x = k) ks" by (auto simp: list_all_iff)
  then show ?thesis by (induction ks) auto
qed

lemma directive_kinds_spec:
  "bt_sorted (directive_kinds ds) \<and> fst ` set (directive_kinds ds) = set (sent_kinds ds) \<and>
   bt_count (directive_kinds ds) j = count_list (sent_kinds ds) j"
  using tally_fold[of "[]" "sent_kinds ds" j] by (simp add: directive_kinds_fold)

lemma bt_single:
  assumes "bt_sorted ((k, n) # m)"
  shows "m = [] \<longleftrightarrow> fst ` set ((k, n) # m) = {k}"
  using assms by (cases m) auto
lemma singleton_member: "k \<in> A \<Longrightarrow> (\<exists>j. A = {j}) \<longleftrightarrow> A = {k}"
  by auto

lemma saturated_iff:
  "saturated ds \<longleftrightarrow> 10 \<le> length (sent_kinds ds) \<and> (\<exists>k. set (sent_kinds ds) = {k})"
proof (cases "directive_kinds ds")
  case Nil
  then show ?thesis using directive_kinds_spec[of ds] by (auto simp: saturated_def)
next
  case (Cons x m)
  obtain k n where x: "x = (k, n)" by (cases x)
  note d = directive_kinds_spec[of ds k, unfolded Cons x]
  have sorted: "bt_sorted ((k, n) # m)" by (rule d[THEN conjunct1])
  have keys: "fst ` set ((k, n) # m) = set (sent_kinds ds)" by (rule d[THEN conjunct2, THEN conjunct1])
  have n: "count_list (sent_kinds ds) k = n" using d[THEN conjunct2, THEN conjunct2] by simp
  have k: "k \<in> set (sent_kinds ds)" by (rule subst[OF keys, of "\<lambda>A. k \<in> A"]) simp
  have one: "m = [] \<longleftrightarrow> set (sent_kinds ds) = {k}" by (rule subst[OF keys, of "\<lambda>A. m = [] \<longleftrightarrow> A = {k}"]) (rule bt_single[OF sorted])
  have sat: "saturated ds \<longleftrightarrow> m = [] \<and> 10 \<le> n" by (simp add: saturated_def Cons x)
  have "n = length (sent_kinds ds)" if "set (sent_kinds ds) = {k}"
    by (rule trans[OF n [symmetric] count_list_all[OF that]])
  then show ?thesis unfolding sat one singleton_member[OF k] by (safe; simp only:)
qed

section \<open>The relief table\<close>

lemma relief_aggs_fold:
  "relief_aggs tr m =
   fold (\<lambda>(action, earlier, later). bt_entry action (aggregate_relief earlier later)) (List.map_filter relief_of tr) m"
  by (induction tr m rule: relief_aggs.induct) (auto simp: map_filter_simps split: option.split)

definition updates_of :: "string \<Rightarrow> trajectory \<Rightarrow> (f32 list \<times> f32 list) list" where
  "updates_of a tr = map snd (filter (\<lambda>u. fst u = a) (List.map_filter relief_of tr))"

definition agg_of :: "(f32 list \<times> f32 list) list \<Rightarrow> relief_agg option" where
  "agg_of us =
     (if us = [] then None
      else Some \<lparr> rg_count = of_nat (length us), rg_first_before = fst (hd us), rg_last_after = snd (last us) \<rparr>)"

lemma agg_of_snoc: "agg_of (us @ [(b, c)]) = Some (aggregate_relief b c (agg_of us))"
  by (simp add: agg_of_def aggregate_relief_def)

lemma relief_fold:
  defines "step \<equiv> \<lambda>(action, earlier, later). bt_entry action (aggregate_relief earlier later)"
  shows "bt_sorted (fold step us []) \<and> map_of (fold step us []) a = agg_of (map snd (filter (\<lambda>u. fst u = a) us)) \<and>
    relief_total (fold step us []) = of_nat (length us)"
proof (induction us rule: rev_induct)
  case (snoc u us)
  obtain k b c where u: "u = (k, b, c)" by (cases u)
  have s: "bt_sorted (fold step us [])" using snoc by blast
  have "rg_count (aggregate_relief b c v) = (case v of Some g \<Rightarrow> rg_count g | None \<Rightarrow> 0) + 1" for v
    by (simp add: aggregate_relief_def split: option.split)
  then have "relief_total (bt_entry k (aggregate_relief b c) (fold step us [])) = relief_total (fold step us []) + 1"
    using bt_entry_sum[OF s, of rg_count k "aggregate_relief b c"] by (simp add: relief_total_def algebra_simps)
  then show ?case using snoc s unfolding u step_def
    by (cases "a = k") (simp_all add: bt_lookup bt_entry_sorted agg_of_snoc)
qed (simp add: agg_of_def relief_total_def)

lemma sent_records_count: "length (sent_records tr) = directive_count tr"
proof (induction tr)
  case (Cons e tr)
  then show ?case by (cases e) (simp_all add: sent_records_def directive_count_def map_filter_simps)
qed (simp add: sent_records_def directive_count_def map_filter_simps)

text \<open>The relief table has one entry per action that was updated, in the order of their names, with
  the relief before its first update, the relief after its last one, and the number of its updates;
  the number in its title is the number of all updates, not of the actions learned.\<close>

theorem relief_table_aggregates:
  "bt_sorted (relief_aggs tr []) \<and>
   map_of (relief_aggs tr []) a = agg_of (updates_of a tr) \<and>
   relief_total (relief_aggs tr []) = of_nat (length (List.map_filter relief_of tr))"
  using relief_fold[of "List.map_filter relief_of tr" a] by (simp add: relief_aggs_fold updates_of_def)

section \<open>The printed summary\<close>

text \<open>
  What the summary is to print, from counts over the record itself: the kinds and levels of signals
  and the actions in the order of their names, each with its own count.
\<close>

definition recorded_signals :: "trajectory \<Rightarrow> signal_dump list" where
  "recorded_signals tr = List.map_filter signal_of tr"

definition kinds_seen :: "trajectory \<Rightarrow> string list" where
  "kinds_seen tr = sorted_list_of_set (sd_kind ` set (recorded_signals tr))"

definition levels_seen :: "string \<Rightarrow> trajectory \<Rightarrow> string list" where
  "levels_seen k tr = sorted_list_of_set (sd_level ` set (filter (\<lambda>d. sd_kind d = k) (recorded_signals tr)))"

definition widest :: "string list \<Rightarrow> nat" where
  "widest xs = Max (length ` set xs)"

definition kind_line :: "trajectory \<Rightarrow> string \<Rightarrow> string" where
  "kind_line tr k =
     ''  '' @ pad_right (widest (kinds_seen tr)) k @ ''  '' @ pad_left 4 (show_nat (signal_count_by_kind k tr))
     @ ''  ['' @ join ''  '' (map (\<lambda>l. l @ utf8 [0xD7] @ show_nat (signals_at k l tr)) (levels_seen k tr)) @ '']''"

definition summary_signals :: "trajectory \<Rightarrow> string list" where
  "summary_signals tr =
     (if signal_count tr = 0 then [''Signals (0 total): none'']
      else (''Signals ('' @ show_nat (signal_count tr) @ '' total):'') # map (kind_line tr) (kinds_seen tr))"

definition commands_sent :: "trajectory \<Rightarrow> string list" where
  "commands_sent tr = concat (map (\<lambda>(_, _, d). dd_commands d) (sent_records tr))"

definition summary_directives :: "trajectory \<Rightarrow> string list" where
  "summary_directives tr =
     (if directive_count tr = 0 then [no_directive_line]
      else (''Directives ('' @ show_nat (directive_count tr) @ '' sent):'')
        # concat (map sent_lines (sent_records tr))
        @ (if 10 \<le> length (commands_sent tr) \<and>
              list_all (\<lambda>c. command_kind c = command_kind (hd (commands_sent tr))) (commands_sent tr)
           then [saturated_line] else []))"

definition actions_learned :: "trajectory \<Rightarrow> string list" where
  "actions_learned tr = sorted_list_of_set (fst ` set (List.map_filter relief_of tr))"

definition summary_relief :: "trajectory \<Rightarrow> string list" where
  "summary_relief tr =
     (let names = actions_learned tr; width = max (widest names) 6 in
      if names = [] then [''Relief Table (0 actions learned)'']
      else (''Relief Table ('' @ show_nat (unat (of_nat (length (List.map_filter relief_of tr)) :: u32)) @ '' action(s) learned):'')
        # (''  '' @ pad_right width ''action'' @ concat (map (\<lambda>dim. ''  '' @ pad_left 6 dim) dim_names) @ ''  obs'')
        # concat (map (\<lambda>a. let us = updates_of a tr in
            [relief_row width a (fst (hd us)) ''(prior)'',
             relief_row width '''' (snd (last us)) (''obs#'' @ show_nat (unat (of_nat (length us) :: u32)))]) names))"

lemma bt_as_map:
  assumes "bt_sorted m"
  shows "m = map (\<lambda>k. (k, the (map_of m k))) (sorted_list_of_set (fst ` set m))"
proof -
  have "sorted_list_of_set (set (map fst m)) = map fst m"
    using assms by (intro sorted_list_of_set.idem_if_sorted_distinct) (simp_all add: strict_sorted_iff)
  then have keys: "sorted_list_of_set (fst ` set m) = map fst m" by simp
  have "the (map_of m (fst x)) = snd x" if "x \<in> set m" for x
    using map_of_is_SomeI[OF bt_sorted_distinct[OF assms], of "fst x" "snd x"] that by simp
  then show ?thesis unfolding keys by (simp add: map_idI)
qed

lemma max_len_widest: "xs \<noteq> [] \<Longrightarrow> max_len dflt xs = widest xs"
  using Max.set_eq_fold[of "length (hd xs)" "map length (tl xs)"]
  by (cases xs) (simp_all add: max_len_def widest_def)

lemma signal_keys:
  assumes "levels_sorted m"
  shows "fst ` set (signals_by_kind_level tr m) = sd_kind ` set (recorded_signals tr) \<union> fst ` set m"
    and "fst ` set (levels_of (signals_by_kind_level tr m) k) =
      sd_level ` set (filter (\<lambda>d. sd_kind d = k) (recorded_signals tr)) \<union> fst ` set (levels_of m k)"
proof -
  have "fst ` set (signals_by_kind_level tr m) = sd_kind ` set (recorded_signals tr) \<union> fst ` set m \<and>
    fst ` set (levels_of (signals_by_kind_level tr m) k) =
      sd_level ` set (filter (\<lambda>d. sd_kind d = k) (recorded_signals tr)) \<union> fst ` set (levels_of m k)"
    using assms
  proof (induction tr m rule: signals_by_kind_level.induct)
    case (2 e tr m)
    show ?case
    proof (cases "signal_of e")
      case None
      then show ?thesis using 2 by (simp add: recorded_signals_def map_filter_simps)
    next
      case (Some d)
      have kinds: "fst ` set (count_level d m) = insert (sd_kind d) (fst ` set m)"
        by (simp add: count_level_def bt_entry_keys)
      from 2(1)[unfolded Some option.case, OF count_level_sorted[OF "2.prems"]] show ?thesis
        using Some by (auto simp: kinds count_level_levels[OF "2.prems"] bt_entry_keys
            recorded_signals_def map_filter_simps simp del: image_Un)
    qed
  qed (simp add: recorded_signals_def map_filter_simps)
  then show "fst ` set (signals_by_kind_level tr m) = sd_kind ` set (recorded_signals tr) \<union> fst ` set m"
    "fst ` set (levels_of (signals_by_kind_level tr m) k) =
      sd_level ` set (filter (\<lambda>d. sd_kind d = k) (recorded_signals tr)) \<union> fst ` set (levels_of m k)" by blast+
qed

lemma counts_as_map:
  assumes "bt_sorted m" and "sorted_list_of_set (fst ` set m) = ks"
  shows "m = map (\<lambda>k. (k, bt_count m k)) ks"
proof -
  have "m = map (\<lambda>k. (k, the (map_of m k))) (sorted_list_of_set (fst ` set m))" by (rule bt_as_map[OF assms(1)])
  also have "\<dots> = map (\<lambda>k. (k, bt_count m k)) (sorted_list_of_set (fst ` set m))"
    by (rule map_cong) (auto dest!: weak_map_of_SomeI split: option.split)
  finally show ?thesis unfolding assms(2) .
qed

lemma signal_lines_summary: "signal_lines tr = summary_signals tr"
proof -
  let ?m = "signals_by_kind_level tr []"
  have empty: "levels_sorted []" by (simp add: levels_sorted_def)
  note tallied = signals_tallied[OF empty, of tr] and keys = signal_keys[OF empty, of tr, simplified]
  have sorted: "levels_sorted ?m" using tallied by blast
  then have bs: "bt_sorted ?m" by (simp add: levels_sorted_def)
  have names: "sorted_list_of_set (fst ` set ?m) = kinds_seen tr" by (simp add: keys(1) kinds_seen_def)
  have m: "?m = map (\<lambda>k. (k, levels_of ?m k)) (kinds_seen tr)"
  proof -
    have "?m = map (\<lambda>k. (k, the (map_of ?m k))) (sorted_list_of_set (fst ` set ?m))" by (rule bt_as_map[OF bs])
    also have "\<dots> = map (\<lambda>k. (k, levels_of ?m k)) (sorted_list_of_set (fst ` set ?m))"
      by (rule map_cong) (auto dest!: weak_map_of_SomeI split: option.split)
    finally show ?thesis unfolding names .
  qed
  have fsts: "map fst ?m = kinds_seen tr" by (subst m) (simp add: comp_def)
  have line: "signal_kind_line (widest (kinds_seen tr)) (k, levels_of ?m k) = kind_line tr k" for k
  proof -
    have "levels_of ?m k = map (\<lambda>l. (l, bt_count (levels_of ?m k) l)) (levels_seen k tr)"
      by (rule counts_as_map[OF levels_of_sorted[OF sorted]]) (simp add: keys(2) levels_seen_def)
    also have "\<dots> = map (\<lambda>l. (l, signals_at k l tr)) (levels_seen k tr)" using tallied by simp
    finally have lv: "levels_of ?m k = map (\<lambda>l. (l, signals_at k l tr)) (levels_seen k tr)" .
    have "level_total (levels_of ?m k) = signal_count_by_kind k tr" using tallied[of k] by (simp add: level_total_def)
    then show ?thesis
      by (simp only: signal_kind_line_def kind_line_def prod.case) (simp only: lv map_map comp_def prod.case)
  qed
  have total: "sum_list (map (level_total \<circ> snd) ?m) = signal_count tr" using tallied by simp
  show ?thesis
  proof (cases "signal_count tr = 0")
    case True
    then show ?thesis by (simp only: signal_lines_def summary_signals_def total Let_def simp_thms if_True)
  next
    case False
    then have "?m \<noteq> []" using total by auto
    then have ne: "kinds_seen tr \<noteq> []" using fsts by auto
    have "map (signal_kind_line (max_len 0 (map fst ?m))) ?m = map (kind_line tr) (kinds_seen tr)"
      unfolding fsts max_len_widest[OF ne] by (subst m) (simp add: line)
    then show ?thesis using False by (simp only: signal_lines_def summary_signals_def total Let_def if_False)
  qed
qed

lemma one_kind:
  "10 \<le> length cs \<Longrightarrow> (\<exists>k. set (map f cs) = {k}) \<longleftrightarrow> list_all (\<lambda>c. f c = f (hd cs)) cs"
  by (cases cs) (auto simp: list_all_iff)

lemma directive_lines_summary: "directive_lines tr = summary_directives tr"
proof -
  have kinds: "sent_kinds (sent_records tr) = map command_kind (commands_sent tr)"
    by (simp add: sent_kinds_def commands_sent_def map_concat comp_def case_prod_unfold)
  have "saturated (sent_records tr) \<longleftrightarrow> 10 \<le> length (commands_sent tr) \<and>
      list_all (\<lambda>c. command_kind c = command_kind (hd (commands_sent tr))) (commands_sent tr)"
    unfolding saturated_iff kinds using one_kind[of "commands_sent tr" command_kind] by auto
  moreover have "sent_records tr = [] \<longleftrightarrow> directive_count tr = 0" using sent_records_count[of tr] by auto
  ultimately show ?thesis
    by (simp only: directive_lines_def summary_directives_def Let_def sent_records_count)
qed

lemma relief_lines_summary: "relief_lines tr = summary_relief tr"
proof -
  let ?m = "relief_aggs tr []"
  have aggs: "bt_sorted ?m" "map_of ?m a = agg_of (updates_of a tr)"
    "relief_total ?m = of_nat (length (List.map_filter relief_of tr))" for a
    using relief_fold[of "List.map_filter relief_of tr" a] by (simp_all add: relief_aggs_fold updates_of_def)
  have set_m: "fst ` set ?m = fst ` set (List.map_filter relief_of tr)"
  proof -
    have "a \<in> fst ` set ?m \<longleftrightarrow> updates_of a tr \<noteq> []" for a
      using aggs(2)[of a] map_of_eq_None_iff[of ?m a] by (simp add: agg_of_def split: if_splits)
    moreover have "updates_of a tr \<noteq> [] \<longleftrightarrow> a \<in> fst ` set (List.map_filter relief_of tr)" for a
      by (auto simp: updates_of_def filter_empty_conv image_iff)
    ultimately show ?thesis by blast
  qed
  then have names: "sorted_list_of_set (fst ` set ?m) = actions_learned tr" by (simp add: actions_learned_def)
  have m: "?m = map (\<lambda>a. (a, the (map_of ?m a))) (actions_learned tr)"
    using bt_as_map[OF aggs(1)] unfolding names .
  have fsts: "map fst ?m = actions_learned tr" by (subst m) (simp add: comp_def)
  have some: "agg_of (updates_of a tr) = Some \<lparr> rg_count = of_nat (length (updates_of a tr)),
      rg_first_before = fst (hd (updates_of a tr)), rg_last_after = snd (last (updates_of a tr)) \<rparr>"
    if "a \<in> set (actions_learned tr)" for a
  proof -
    have "a \<in> fst ` set ?m" using that fsts by (metis list.set_map)
    then have "map_of ?m a \<noteq> None" by (simp add: map_of_eq_None_iff)
    then show ?thesis using aggs(2)[of a] by (simp add: agg_of_def split: if_splits)
  qed
  show ?thesis
  proof (cases "?m = []")
    case True
    then show ?thesis using fsts by (simp add: relief_lines_def summary_relief_def Let_def)
  next
    case False
    then have ne: "actions_learned tr \<noteq> []" using fsts by auto
    have rows: "concat (map (\<lambda>(action, agg).
        [relief_row w action (rg_first_before agg) ''(prior)'',
         relief_row w '''' (rg_last_after agg) (''obs#'' @ show_nat (unat (rg_count agg)))]) ?m) =
      concat (map (\<lambda>a. let us = updates_of a tr in
        [relief_row w a (fst (hd us)) ''(prior)'',
         relief_row w '''' (snd (last us)) (''obs#'' @ show_nat (unat (of_nat (length us) :: u32)))]) (actions_learned tr))" for w
      by (subst m) (auto simp: aggs(2) some Let_def intro!: arg_cong[where f = concat] map_cong)
    show ?thesis unfolding relief_lines_def summary_relief_def Let_def fsts max_len_widest[OF ne]
      using False ne rows[unfolded Let_def] by (simp add: aggs(3))
  qed
qed

section \<open>Properties of the session summary\<close>

text \<open>C20: What the session summary prints is this: the number of signals and, per kind in the order of
  the names, how many there were and how many at each level; the number of directives, each with its
  commands and trigger, and the warning of a saturated policy exactly when the directives hold at
  least ten commands, all of one kind; the transitions; and per action, in the order of the names,
  the relief before its first update and after its last one with the number of its updates.  The
  number in the title of that table is the number of all updates.\<close>

theorem session_summary_tallies:
  "format_session_summary tr =
   writeln ([bar @ '' Session Summary '' @ bar, ''duration: '' @ fixed 2 (record_duration tr) @ ''s'', '''']
     @ summary_signals tr @ [''''] @ summary_directives tr @ [''''] @ transition_lines tr @ ['''']
     @ summary_relief tr @ overrun_lines tr)"
  by (simp only: format_session_summary_def session_lines_def signal_lines_summary directive_lines_summary
      relief_lines_summary)

end
