(* ===== verification/Sim_Main.thy ===== *)
theory Sim_Main
  imports Sim_Run Sim_Report
begin

text \<open>
  The program that runs a simulation (\<^verbatim>\<open>src/bin/sim_run.rs\<close>): it loads a scenario and a
  configuration, builds a simulator around the scripted policy, runs it for the given time, prints
  the reports of the trajectory, writes it as JSON and confirms that on the error stream.  The
  parsing of arguments is not modelled; decoding the configuration is a parameter.
\<close>

record run_args =
  ra_scenario :: string
  ra_lua :: string
  ra_duration :: f64
  ra_verbose :: bool
  ra_output_json :: "string option"
  ra_config :: "string option"

definition run_args_default :: "string \<Rightarrow> string \<Rightarrow> run_args" where
  "run_args_default scenario script =
     \<lparr> ra_scenario = scenario, ra_lua = script, ra_duration = Fin 30, ra_verbose = False, ra_output_json = None,
       ra_config = None \<rparr>"

datatype run_error =
    RunScenario load_error
  | RunConfig string
  | RunInit harness_error
  | RunFailed harness_error
  | RunPanic string
  | RunOutput string

definition run_adaptation ::
  "file_system \<Rightarrow> (string \<Rightarrow> config res) \<Rightarrow> string option \<Rightarrow> string + adaptation_config" where
  "run_adaptation fs from_toml path =
     (case path of
        None \<Rightarrow> Inr adaptation_config_default
      | Some p \<Rightarrow>
          (case read_to_string fs p of
             None \<Rightarrow> Inl ''cannot read the configuration''
           | Some content \<Rightarrow> (case from_toml content of Inl e \<Rightarrow> Inl e | Inr c \<Rightarrow> Inr (cfg_adaptation c))))"

text \<open>The libraries and the outside world of the program: as it is at the start, and as the script sees it
  at each of its decisions.\<close>

record ('n, 'c, 'r, 'k, 'a, 'vm) run_world =
  rw_expr :: "('n, 'c) evalexpr"
  rw_math :: math_lib
  rw_gen :: "'r generator"
  rw_loader :: "('k, 'a) loader"
  rw_from_value :: "('k, 'a) yaml \<Rightarrow> 'n scenario_config res"
  rw_host :: host_view
  rw_views :: "nat \<Rightarrow> host_view"
  rw_from_toml :: "string \<Rightarrow> config res"
  rw_machine :: "'vm lua_machine"
  rw_debug :: "engine_command \<Rightarrow> string"
  rw_counter :: u64
  rw_detail :: detail_text
  rw_to_json :: "trajectory \<Rightarrow> string res"
  rw_write :: "string \<Rightarrow> string \<Rightarrow> unit res"

definition run_env :: "('n, 'c, 'r, 'k, 'a, 'vm) run_world \<Rightarrow> 'n scenario_config \<Rightarrow> ('n, 'c, 'r, 'vm lua_policy \<times> u64) sim_env" where
  "run_env W cfg =
     \<lparr> se_expr = rw_expr W, se_math = rw_math W, se_gen = rw_gen W, se_policy = lua_ops (rw_machine W),
       se_host = rw_views W,
       se_debug = rw_debug W, se_cfg = cfg \<rparr>"

definition sim_run_with ::
  "('n, 'c, 'r, 'k, 'a, 'vm) run_world \<Rightarrow> run_args \<Rightarrow> 'n scenario_config \<Rightarrow> (run_error + trajectory) option" where
  "sim_run_with W a cfg =
     (case run_adaptation (hv_files (rw_host W)) (rw_from_toml W) (ra_config a) of
        Inl e \<Rightarrow> Some (Inl (RunConfig e))
      | Inr ad \<Rightarrow>
          (case with_lua_policy (run_env W cfg) (rw_machine W) (rw_host W) (ra_lua a) ad (rw_counter W) of
             Inl e \<Rightarrow> Some (Inl (RunInit e))
           | Inr sim \<Rightarrow>
               (case duration_from_secs_f64 (ra_duration a) of
                  None \<Rightarrow> Some (Inl (RunPanic ''can not convert float seconds to Duration''))
                | Some dur \<Rightarrow>
                    (case run_for (run_env W cfg) dur sim of
                       None \<Rightarrow> None
                     | Some (Inl e) \<Rightarrow> Some (Inl (RunFailed e))
                     | Some (Inr sim') \<Rightarrow> Some (Inr (sim_trajectory sim'))))))"

definition sim_run_main ::
  "('n, 'c, 'r, 'k, 'a, 'vm) run_world \<Rightarrow> run_args \<Rightarrow> (run_error + trajectory) option" where
  "sim_run_main W a =
     (case load_scenario (rw_expr W) (rw_loader W) (rw_from_value W) (ra_scenario a) of
        None \<Rightarrow> None
      | Some (Inl e) \<Rightarrow> Some (Inl (RunPanic ''expression context''))
      | Some (Inr (Inl e)) \<Rightarrow> Some (Inl (RunScenario e))
      | Some (Inr (Inr cfg)) \<Rightarrow> sim_run_with W a cfg)"

text \<open>What is printed, and whether the trajectory was saved where that was asked for.\<close>

definition sim_run_print ::
  "('n, 'c, 'r, 'k, 'a, 'vm) run_world \<Rightarrow> run_args \<Rightarrow> trajectory \<Rightarrow> console_line list \<times> (run_error + unit)" where
  "sim_run_print W a tr =
     (let report = (if ra_verbose a then [Stdout (format_timeline_compact (rw_detail W) tr), Stdout []] else [])
                   @ [Stdout (format_session_summary tr)]
      in case ra_output_json a of
           None \<Rightarrow> (report, Inr ())
         | Some out \<Rightarrow>
             (case dump_json (rw_to_json W) (rw_write W) out tr of
                Inl e \<Rightarrow> (report, Inl (RunOutput e))
              | Inr u \<Rightarrow> (report @ [Stderr (''trajectory '' @ utf8 [0xC800, 0xC7A5] @ '': '' @ out)], Inr ())))"

definition sim_run_program ::
  "('n, 'c, 'r, 'k, 'a, 'vm) run_world \<Rightarrow> run_args \<Rightarrow> (console_line list \<times> (run_error + unit)) option" where
  "sim_run_program W a =
     (case sim_run_main W a of
        None \<Rightarrow> None
      | Some (Inl e) \<Rightarrow> Some ([], Inl e)
      | Some (Inr tr) \<Rightarrow> Some (sim_run_print W a tr))"

lemma sim_run_main_cases:
  assumes "sim_run_main W a = Some (Inr tr)"
  obtains cfg ad sim dur sim' where
    "load_scenario (rw_expr W) (rw_loader W) (rw_from_value W) (ra_scenario a) = Some (Inr (Inr cfg))"
    and "with_lua_policy (run_env W cfg) (rw_machine W) (rw_host W) (ra_lua a) ad (rw_counter W) = Inr sim"
    and "run_for (run_env W cfg) dur sim = Some (Inr sim')" and "tr = sim_trajectory sim'"
  using assms
  by (auto simp: sim_run_main_def sim_run_with_def split: option.splits sum.splits)

section \<open>Properties\<close>

text \<open>C18: A trajectory that the program reports comes from a scenario whose device starts within its
  capacities, and the directives on it are directives the engine accepts, of which two consecutive
  ones have different commands or are at least 60 seconds apart.\<close>

theorem sim_run_reports_sound:
  assumes "sim_run_main W a = Some (Inr tr)"
  shows "\<exists>cfg em. load_scenario (rw_expr W) (rw_loader W) (rw_from_value W) (ra_scenario a) = Some (Inr (Inr cfg)) \<and>
    within_capacity (physical_from_config (sc_initial_state cfg)) \<and>
    directive_entries tr = map (\<lambda>(d, t). (t, dump_directive (rw_debug W) d)) em \<and>
    list_all (\<lambda>(d, t). directive_ok d) em \<and> successively (spaced (Fin 60)) em"
proof -
  obtain cfg ad sim dur sim' where
    l: "load_scenario (rw_expr W) (rw_loader W) (rw_from_value W) (ra_scenario a) = Some (Inr (Inr cfg))"
    and p: "with_lua_policy (run_env W cfg) (rw_machine W) (rw_host W) (ra_lua a) ad (rw_counter W) = Inr sim"
    and r: "run_for (run_env W cfg) dur sim = Some (Inr sim')" and tr: "tr = sim_trajectory sim'"
    using assms by (rule sim_run_main_cases)
  obtain q where "simulator_new (run_env W cfg) (q, rw_counter W) = Inr sim"
    using p by (auto simp: with_lua_policy_def split: sum.splits)
  note d = new_defaults[OF this]
  have reach: "sim_reaches (run_env W cfg) (with_tick_dt 50000000 (with_dedup_cooldown (Fin 60) sim)) sim'"
    unfolding d by (rule sim_reaches.ran_for[OF sim_reaches.start r])
  have "se_policy (run_env W cfg) = lua_ops (rw_machine W)" by (simp add: run_env_def)
  note em = scripted_directives[OF p this reach]
  have "within_capacity (physical_from_config (sc_initial_state cfg))"
    using load_scenario_checked[OF l] validated_within_capacity by blast
  then show ?thesis using l em tr by (auto simp: run_env_def)
qed

definition example_world :: "(string, string \<Rightarrow> evalue option, u32, string, string, nat) run_world" where
  "example_world =
     \<lparr> rw_expr = example_lang, rw_math = example_math, rw_gen = counter_generator, rw_loader = plain_loader,
       rw_from_value = (\<lambda>v. Inr example_scenario), rw_host = example_host, rw_views = (\<lambda>n. example_host), rw_from_toml = (\<lambda>s. Inl ''no''),
       rw_machine = example_machine, rw_debug = (\<lambda>c. ''command''), rw_counter = 1, rw_detail = (\<lambda>d. ''detail''),
       rw_to_json = (\<lambda>tr. Inr ''json''), rw_write = (\<lambda>path text. Inr ()) \<rparr>"

definition example_run_args :: run_args where
  "example_run_args = \<lparr> ra_scenario = ''/a'', ra_lua = ''p.lua'', ra_duration = Fin (1 / 20),
     ra_verbose = True, ra_output_json = Some ''/t.json'', ra_config = None \<rparr>"


lemma example_run_env: "run_env example_world example_scenario = example_env (lua_ops example_machine)"
  by (simp add: run_env_def example_world_def example_env_def)

lemma example_main: "\<exists>tr. sim_run_main example_world example_run_args = Some (Inr tr)"
proof -
  let ?V = "example_env (lua_ops example_machine)"
  obtain q where q: "lua_policy_new example_machine example_host ''p.lua'' adaptation_config_default VirtualClockHandle = Inr q"
    using example_policy_loads by blast
  obtain sim where n: "simulator_new ?V (q, 1) = Inr sim" using example_new[of "lua_ops example_machine" "(q, 1)"] by blast
  have w: "with_lua_policy ?V example_machine example_host ''p.lua'' adaptation_config_default 1 = Inr sim"
    by (simp add: with_lua_policy_def q n)
  have f: "sim_clock sim = virtual_clock_new" "sim_rng sim = None" "sim_tick_dt sim = 50000000"
      "sim_state sim = physical_from_config example_initial" "sim_engine sim = engine_from_config example_initial"
    using n by (auto simp: simulator_new_def example_env_def maybe_create_def example_scenario_def split: sum.splits)
  obtain sim' where r: "run_for ?V 50000000 sim = Some (Inr sim')"
    using example_one_tick[of sim 50000000 "lua_ops example_machine"] f by (auto simp: virtual_clock_new_def)
  have d: "duration_from_secs_f64 (Fin (1 / 20)) = Some 50000000"
    using rne_int[of 50000000] by (simp add: duration_from_secs_f64_def DURATION_MAX_def NANOS_PER_SEC_def)
  have l: "load_scenario (rw_expr example_world) (rw_loader example_world) (rw_from_value example_world) ''/a'' = Some (Inr (Inr example_scenario))"
    using example_loads by (simp add: example_world_def)
  have "sim_run_with example_world example_run_args example_scenario = Some (Inr (sim_trajectory sim'))"
    unfolding sim_run_with_def example_run_env
    by (simp add: run_adaptation_def example_run_args_def example_world_def w d r)
  moreover have "ra_scenario example_run_args = ''/a''" by (simp add: example_run_args_def)
  ultimately show ?thesis using l by (simp add: sim_run_main_def)
qed

theorem sim_run_reports_sound_witness:
  "\<exists>tr em. sim_run_main example_world example_run_args = Some (Inr tr) \<and>
     directive_entries tr = map (\<lambda>(d, t). (t, dump_directive (\<lambda>c. ''command'') d)) em \<and>
     list_all (\<lambda>(d, t). directive_ok d) em \<and> successively (spaced (Fin 60)) em"
proof -
  obtain tr where tr: "sim_run_main example_world example_run_args = Some (Inr tr)" using example_main by blast
  have "rw_debug example_world = (\<lambda>c. ''command'')" by (simp add: example_world_def)
  then show ?thesis using sim_run_reports_sound[OF tr] tr by auto
qed

end
