(* ===== verification/Mock_Wire.thy ===== *)
theory Mock_Wire
  imports Channel Clock Rust_Fmt
begin

text \<open>
  What the stand-ins for the two ends of the wire share (\<^verbatim>\<open>src/bin/mock_engine.rs\<close>,
  \<^verbatim>\<open>src/bin/mock_manager.rs\<close>): the framing over a socket with a read timeout, the outcome of a write, and
  the console.  The socket delivers bytes and read timeouts in any order; JSON, the outcome of each
  write and the debug text of the types of the protocol crate are parameters.
\<close>

section \<open>The console\<close>

text \<open>The derived debug text of the types of the protocol crate.\<close>

record wire_debug =
  wd_command :: "engine_command \<Rightarrow> string"
  wd_result :: "command_result \<Rightarrow> string"
  wd_state :: "engine_state \<Rightarrow> string"
  wd_phase :: "phase \<Rightarrow> string"
  wd_discriminant :: "engine_message \<Rightarrow> string"

definition show_word :: "'w::len word \<Rightarrow> string" where
  "show_word w = show_nat (unat w)"

definition debug_vec :: "('a \<Rightarrow> string) \<Rightarrow> 'a list \<Rightarrow> string" where
  "debug_vec debug xs = ''['' @ join '', '' (map debug xs) @ '']''"

definition em_dash :: string where
  "em_dash = utf8 [0x2014]"

definition box_rule :: "nat \<Rightarrow> string" where
  "box_rule n = concat (replicate n (utf8_char 0x2500))"

section \<open>The wire\<close>

text \<open>What the peer sends: bytes, and quiet periods as long as the read timeout; then it closes.\<close>

datatype sock_event = Byte u8 | Quiet

datatype read_error = TimedOut | Eof

text \<open>The framing is the same in the stand-ins for both ends, up to the type of the message, named in
  the errors.  Filling a buffer: on an error the bytes read so far are gone.\<close>

fun sock_read_exact :: "nat \<Rightarrow> sock_event list \<Rightarrow> sock_event list \<times> (read_error + u8 list)" where
  "sock_read_exact 0 s = (s, Inr [])"
| "sock_read_exact (Suc n) [] = ([], Inl Eof)"
| "sock_read_exact (Suc n) (Quiet # s) = (s, Inl TimedOut)"
| "sock_read_exact (Suc n) (Byte b # s) = apsnd (map_sum id ((#) b)) (sock_read_exact n s)"

definition recv_message ::
  "string \<Rightarrow> (u8 list \<Rightarrow> 'm res) \<Rightarrow> sock_event list \<Rightarrow> sock_event list \<times> 'm option res" where
  "recv_message what from_json s =
     (case sock_read_exact 4 s of
        (s1, Inl TimedOut) \<Rightarrow> (s1, Inr None)
      | (s1, Inl Eof) \<Rightarrow> (s1, Inl ''read length prefix'')
      | (s1, Inr len_buf) \<Rightarrow>
          (case sock_read_exact (unat (from_be_bytes len_buf)) s1 of
             (s2, Inl e) \<Rightarrow> (s2, Inl ''read JSON payload'')
           | (s2, Inr json_buf) \<Rightarrow>
               (case from_json json_buf of
                  Inl e \<Rightarrow> (s2, Inl (''deserialise '' @ what))
                | Inr msg \<Rightarrow> (s2, Inr (Some msg)))))"

text \<open>A write goes through, or the socket takes that many of its bytes and then reports an error: in the
  length prefix, in the payload, or when it is flushed.\<close>

datatype write_outcome = WriteOk | WriteFails nat

definition send_message ::
  "string \<Rightarrow> ('m \<Rightarrow> u8 list res) \<Rightarrow> write_outcome \<Rightarrow> 'm \<Rightarrow> u8 list \<Rightarrow> u8 list \<times> unit res" where
  "send_message what to_json w msg out =
     (case to_json msg of
        Inl e \<Rightarrow> (out, Inl (''serialise '' @ what))
      | Inr json \<Rightarrow>
          (case w of
             WriteOk \<Rightarrow> (out @ frame json, Inr ())
           | WriteFails n \<Rightarrow>
               (out @ take n (frame json),
                Inl (if n < 4 then ''write length prefix''
                     else if n < 4 + length json then ''write JSON payload''
                     else ''flush stream''))))"

section \<open>Framing\<close>

lemma sock_read_exact_bytes: "sock_read_exact (length bs) (map Byte bs @ s) = (s, Inr bs)"
  by (induction bs) simp_all

lemma recv_frame:
  assumes "length json < 2 ^ 32" and "from_json json = Inr m"
  shows "recv_message what from_json (map Byte (frame json) @ s) = (s, Inr (Some m))"
proof -
  have u: "unat (of_nat (length json) :: u32) = length json"
    using assms(1) by (simp add: unsigned_of_nat take_bit_nat_eq_self)
  have "sock_read_exact 4 (map Byte (to_be_bytes (of_nat (length json))) @ map Byte json @ s) =
      (map Byte json @ s, Inr (to_be_bytes (of_nat (length json))))"
    using sock_read_exact_bytes[of "to_be_bytes (of_nat (length json))" "map Byte json @ s"] by simp
  then show ?thesis using assms(2)
    by (simp add: recv_message_def frame_def be_bytes_roundtrip u sock_read_exact_bytes)
qed

lemma recv_quiet: "recv_message what from_json (Quiet # s) = (s, Inr None)"
  by (simp add: recv_message_def eval_nat_numeral)

section \<open>What the manager's reader makes of the bytes\<close>

definition encodes :: "('m \<Rightarrow> u8 list res) \<Rightarrow> (u8 list \<Rightarrow> 'm res) \<Rightarrow> 'm \<Rightarrow> bool" where
  "encodes to_json from_json m =
     (\<exists>json. to_json m = Inr json \<and> length json \<le> unat MAX_PAYLOAD_SIZE \<and> from_json json = Inr m)"

text \<open>What the manager's reader makes of the bytes written.\<close>

definition reads_as :: "(u8 list \<Rightarrow> engine_message res) \<Rightarrow> u8 list \<Rightarrow> engine_message list \<Rightarrow> bool" where
  "reads_as from_json out ms = (\<forall>rest. reader_loop from_json (out @ rest) = ms @ reader_loop from_json rest)"

lemma reads_as_send:
  fixes what :: string
  assumes "reads_as from_json out ms" and "encodes to_json from_json m"
  shows "snd (send_message what to_json WriteOk m out) = Inr () \<and>
    reads_as from_json (fst (send_message what to_json WriteOk m out)) (ms @ [m])"
proof -
  obtain json where json: "to_json m = Inr json" "length json \<le> unat MAX_PAYLOAD_SIZE" "from_json json = Inr m"
    using assms(2) by (auto simp: encodes_def)
  have "reader_loop from_json (frame json @ rest) = m # reader_loop from_json rest" for rest
    using read_frame[of json from_json m rest] json(2,3) by (simp add: reader_loop.simps[of from_json "frame json @ rest"])
  then show ?thesis using assms(1) by (simp add: send_message_def json reads_as_def)
qed

lemma reads_as_empty: "reads_as from_json [] []"
  by (simp add: reads_as_def)

lemma send_message_Inr:
  "send_message what to_json w m out = (out', Inr u) \<longleftrightarrow>
     (\<exists>json. to_json m = Inr json \<and> w = WriteOk \<and> out' = out @ frame json)"
  by (auto simp: send_message_def split: sum.splits write_outcome.splits)

text \<open>Whatever the outcome, what is written is a prefix of the frame, and all of it exactly on success or
  when only the flush fails.\<close>

lemma send_message_prefix:
  assumes "to_json m = Inr json"
  shows "\<exists>k. fst (send_message what to_json w m out) = out @ take k (frame json) \<and>
    (snd (send_message what to_json w m out) = Inr () \<longrightarrow> length (frame json) \<le> k)"
proof (cases w)
  case WriteOk
  then show ?thesis using assms by (intro exI[of _ "length (frame json)"]) (simp add: send_message_def)
next
  case (WriteFails n)
  then show ?thesis using assms by (intro exI[of _ n]) (simp add: send_message_def)
qed

end
