(* ===== verification/Mock_Engine.thy ===== *)
theory Mock_Engine
  imports Mock_Wire
begin

text \<open>
  The stand-in for the engine (\<^verbatim>\<open>src/bin/mock_engine.rs\<close>): its answer to each command, its protocol
  loop and what it prints.  The times of an iteration and the outcome of its writes are parameters.
\<close>

section \<open>The state of the engine\<close>

record mock_engine =
  me_kv_occupancy :: f32
  me_active_device :: string
  me_throttle_delay_ms :: u64
  me_eviction_policy :: string
  me_skip_ratio :: f32
  me_state :: engine_state
  me_tokens_generated :: u64
  me_active_actions :: "string list"

definition MIN_COMPRESSION :: f32 where
  "MIN_COMPRESSION = to_f32 (3 / 100)"

definition mock_engine_new :: "f32 \<Rightarrow> string \<Rightarrow> mock_engine" where
  "mock_engine_new occupancy device =
     \<lparr> me_kv_occupancy = occupancy, me_active_device = device, me_throttle_delay_ms = 0,
       me_eviction_policy = ''none'', me_skip_ratio = Fin 0, me_state = EngineRunning,
       me_tokens_generated = 0, me_active_actions = [] \<rparr>"

definition mock_apply :: "engine_command \<Rightarrow> mock_engine \<Rightarrow> mock_engine \<times> command_result" where
  "mock_apply cmd e =
     (case cmd of
        KvCompress b \<Rightarrow>
          (let before = me_kv_occupancy e;
               target = fp_clamp (mul32 before b) (to_f32 (1 / 100)) (Fin 1)
           in if fp_lt (sub32 before target) MIN_COMPRESSION
              then (e, Partial (Fin 1) ''compression declined: too little would be reclaimed'')
              else (e\<lparr>me_kv_occupancy := target\<rparr>, ResultOk))
      | RestoreDefaults \<Rightarrow>
          (e\<lparr>me_active_actions := [], me_skip_ratio := Fin 0, me_state := EngineRunning\<rparr>, ResultOk)
      | Suspend \<Rightarrow> (e\<lparr>me_state := EngineSuspended\<rparr>, ResultOk)
      | Resume \<Rightarrow> (e\<lparr>me_state := EngineRunning\<rparr>, ResultOk)
      | GpuYield _ \<Rightarrow> (e, ResultOk)
      | GpuOffload _ \<Rightarrow> (e, ResultOk))"

definition mock_status :: "mock_engine \<Rightarrow> engine_status" where
  "mock_status e =
     \<lparr> kv_cache_bytes = 1024, kv_cache_budget_bytes = 4096, kv_cache_tokens = 32,
       tbt_ms = Fin (25 / 2), status_phase = PhaseDecode, status_state = EngineRunning \<rparr>"

section \<open>The protocol\<close>

fun apply_all :: "engine_command list \<Rightarrow> mock_engine \<Rightarrow> mock_engine \<times> command_result list" where
  "apply_all [] e = (e, [])"
| "apply_all (c # cs) e =
     (case mock_apply c e of (e1, r) \<Rightarrow> apsnd ((#) r) (apply_all cs e1))"

record protocol =
  pr_engine :: mock_engine
  pr_in :: "sock_event list"
  pr_out :: "u8 list"
  pr_directives :: u32
  pr_heartbeats :: u32
  pr_last_heartbeat :: duration
  pr_console :: "console_line list"

text \<open>What is printed about a directive before it is answered.\<close>

definition announce_lines :: "wire_debug \<Rightarrow> u32 \<Rightarrow> engine_directive \<Rightarrow> console_line list" where
  "announce_lines D n d =
     Stdout ([newline] @ ''[MockEngine] Directive #'' @ show_word n @ '' seq='' @ show_word (seq_id d) @ '' (''
       @ show_nat (length (commands d)) @ '' commands)'')
     # map (\<lambda>(i, c). Stdout (''  ['' @ show_nat i @ ''] '' @ wd_command D c)) (enumerate 0 (commands d))"

definition answer_line :: "engine_directive \<Rightarrow> unit res \<Rightarrow> console_line" where
  "answer_line d r =
     (case r of
        Inl e \<Rightarrow> Stderr (''[MockEngine] Failed to send Response for seq='' @ show_word (seq_id d) @ '': '' @ e)
      | Inr _ \<Rightarrow> Stdout (''[MockEngine] Response sent for seq='' @ show_word (seq_id d)))"

definition handle_directive ::
  "wire_debug \<Rightarrow> (engine_message \<Rightarrow> u8 list res) \<Rightarrow> write_outcome \<Rightarrow> engine_directive \<Rightarrow> protocol \<Rightarrow> protocol" where
  "handle_directive D to_json w d p =
     (case apply_all (commands d) (pr_engine p) of
        (e, rs) \<Rightarrow>
          (let n = pr_directives p + 1;
               (out, r) = send_message ''EngineMessage'' to_json w (Response \<lparr> resp_seq_id = seq_id d, results = rs \<rparr>) (pr_out p)
           in p\<lparr>pr_directives := n, pr_engine := e, pr_out := out,
                pr_console := pr_console p @ announce_lines D n d @ [answer_line d r]\<rparr>))"

text \<open>One iteration: the times at the check of the loop, at the check of the heartbeat and after
  sending it, all since the start, and the outcome of the writes of the iteration.\<close>

record iteration =
  it_elapsed :: duration
  it_heartbeat_check :: duration
  it_heartbeat_sent :: duration
  it_heartbeat_write :: write_outcome
  it_response_write :: write_outcome

record protocol_args =
  pa_duration_secs :: u64
  pa_heartbeat_ms :: u64
  pa_kv_occupancy :: f32
  pa_device :: string

text \<open>The heartbeat of an iteration, and whether the loop goes on: a failed write ends it.\<close>

definition heartbeat_turn ::
  "(engine_message \<Rightarrow> u8 list res) \<Rightarrow> protocol_args \<Rightarrow> iteration \<Rightarrow> protocol \<Rightarrow> protocol \<times> bool" where
  "heartbeat_turn to_json a it p =
     (if unat (pa_heartbeat_ms a) * 1000000 \<le> it_heartbeat_check it - pr_last_heartbeat p
      then (let e = (pr_engine p)\<lparr>me_tokens_generated := me_tokens_generated (pr_engine p) + 1\<rparr> in
            case send_message ''EngineMessage'' to_json (it_heartbeat_write it) (Heartbeat (mock_status e)) (pr_out p) of
              (out, Inl err) \<Rightarrow>
                (p\<lparr>pr_engine := e, pr_out := out,
                   pr_console := pr_console p @ [Stderr (''[MockEngine] Heartbeat send error: '' @ err @ '' '' @ em_dash @ '' exiting'')]\<rparr>,
                 False)
            | (out, Inr _) \<Rightarrow>
                (p\<lparr>pr_engine := e, pr_out := out, pr_heartbeats := pr_heartbeats p + 1,
                   pr_last_heartbeat := it_heartbeat_sent it\<rparr>, True))
      else (p, True))"

text \<open>The read of an iteration, and whether the loop goes on: a read error ends it.\<close>

definition directive_turn ::
  "wire_debug \<Rightarrow> (engine_message \<Rightarrow> u8 list res) \<Rightarrow> (u8 list \<Rightarrow> manager_message res) \<Rightarrow> iteration \<Rightarrow> protocol \<Rightarrow> protocol \<times> bool" where
  "directive_turn D to_json from_json it p =
     (case recv_message ''ManagerMessage'' from_json (pr_in p) of
        (s, Inr (Some (Directive d))) \<Rightarrow> (handle_directive D to_json (it_response_write it) d (p\<lparr>pr_in := s\<rparr>), True)
      | (s, Inr None) \<Rightarrow> (p\<lparr>pr_in := s\<rparr>, True)
      | (s, Inl e) \<Rightarrow>
          (p\<lparr>pr_in := s, pr_console := pr_console p @ [Stderr (''[MockEngine] Read error: '' @ e @ '' '' @ em_dash @ '' exiting'')]\<rparr>,
           False))"

text \<open>The loop over a list of iterations, and whether it has been left at the end of the list.\<close>

fun protocol_loop ::
  "wire_debug \<Rightarrow> (engine_message \<Rightarrow> u8 list res) \<Rightarrow> (u8 list \<Rightarrow> manager_message res) \<Rightarrow> protocol_args \<Rightarrow> iteration list \<Rightarrow>
   protocol \<Rightarrow> protocol \<times> bool" where
  "protocol_loop D to_json from_json a [] p = (p, False)"
| "protocol_loop D to_json from_json a (it # its) p =
     (if it_elapsed it < unat (pa_duration_secs a) * NANOS_PER_SEC
      then (case heartbeat_turn to_json a it p of
              (p1, False) \<Rightarrow> (p1, True)
            | (p1, True) \<Rightarrow>
                (case directive_turn D to_json from_json it p1 of
                   (p2, False) \<Rightarrow> (p2, True)
                 | (p2, True) \<Rightarrow> protocol_loop D to_json from_json a its p2))
      else (p, True))"

definition running_line :: "protocol_args \<Rightarrow> console_line" where
  "running_line a =
     Stdout (''[MockEngine] Running for '' @ show_word (pa_duration_secs a) @ ''s (heartbeat='' @ show_word (pa_heartbeat_ms a)
       @ ''ms, kv_occupancy='' @ fixed 2 (pa_kv_occupancy a) @ '')'')"

text \<open>The summary, printed that long after the start.\<close>

definition summary_lines :: "wire_debug \<Rightarrow> duration \<Rightarrow> protocol \<Rightarrow> console_line list" where
  "summary_lines D elapsed p =
     (let e = pr_engine p in
      map Stdout
       [[newline] @ ''[MockEngine] '' @ box_rule 2 @ '' Summary '' @ box_rule 28,
        ''  Elapsed:             '' @ fixed 1 (as_secs_f32 elapsed) @ ''s'',
        ''  Heartbeats sent:     '' @ show_word (pr_heartbeats p),
        ''  Directives received: '' @ show_word (pr_directives p),
        ''  Final kv_occupancy:  '' @ fixed 3 (me_kv_occupancy e),
        ''  Final device:        '' @ me_active_device e,
        ''  Final throttle_ms:   '' @ show_word (me_throttle_delay_ms e),
        ''  Final eviction:      '' @ me_eviction_policy e,
        ''  Final skip_ratio:    '' @ fixed 2 (me_skip_ratio e),
        ''  Final state:         '' @ wd_state D (me_state e),
        box_rule 52])"

definition protocol_start :: "protocol_args \<Rightarrow> sock_event list \<Rightarrow> protocol" where
  "protocol_start a s =
     \<lparr> pr_engine = mock_engine_new (pa_kv_occupancy a) (pa_device a), pr_in = s, pr_out = [],
       pr_directives = 0, pr_heartbeats = 0, pr_last_heartbeat = 0, pr_console = [running_line a] \<rparr>"

definition run_protocol ::
  "wire_debug \<Rightarrow> (engine_message \<Rightarrow> u8 list res) \<Rightarrow> (u8 list \<Rightarrow> manager_message res) \<Rightarrow> protocol_args \<Rightarrow> iteration list \<Rightarrow>
   duration \<Rightarrow> sock_event list \<Rightarrow> protocol" where
  "run_protocol D to_json from_json a its elapsed s =
     (case protocol_loop D to_json from_json a its (protocol_start a s) of
        (p, False) \<Rightarrow> p
      | (p, True) \<Rightarrow> p\<lparr>pr_console := pr_console p @ summary_lines D elapsed p\<rparr>)"

lemma run_protocol_ends [simp]:
  "pr_out (run_protocol D to_json from_json a its t s) = pr_out (fst (protocol_loop D to_json from_json a its (protocol_start a s)))"
  "pr_directives (run_protocol D to_json from_json a its t s) =
     pr_directives (fst (protocol_loop D to_json from_json a its (protocol_start a s)))"
  "pr_heartbeats (run_protocol D to_json from_json a its t s) =
     pr_heartbeats (fst (protocol_loop D to_json from_json a its (protocol_start a s)))"
  by (simp_all add: run_protocol_def split: prod.split bool.split)

section \<open>Answers\<close>

lemma apply_all_Cons:
  "snd (apply_all (c # cs) e) = snd (mock_apply c e) # snd (apply_all cs (fst (mock_apply c e)))"
  by (simp split: prod.splits)

text \<open>The answers the engine can give to a command.\<close>

definition mock_results :: "command_result set" where
  "mock_results = {ResultOk, Partial (Fin 1) ''compression declined: too little would be reclaimed''}"

lemma mock_apply_result: "snd (mock_apply c e) \<in> mock_results"
  by (simp add: mock_apply_def mock_results_def Let_def split: engine_command.splits)

lemma apply_all_results:
  "length (snd (apply_all cs e)) = length cs \<and> set (snd (apply_all cs e)) \<subseteq> mock_results"
proof (induction cs arbitrary: e)
  case (Cons c cs)
  then show ?case using mock_apply_result[of c e] unfolding apply_all_Cons by simp
qed simp

section \<open>The two ends of the wire\<close>

text \<open>What arrives when the manager sends whole frames: directives with their JSON, and silences.\<close>

datatype piece = Silence | Sent engine_directive "u8 list"

fun piece_events :: "piece \<Rightarrow> sock_event list" where
  "piece_events Silence = [Quiet]"
| "piece_events (Sent d json) = map Byte (frame json)"

fun sent_directives :: "piece list \<Rightarrow> engine_directive list" where
  "sent_directives [] = []"
| "sent_directives (Silence # ps) = sent_directives ps"
| "sent_directives (Sent d json # ps) = d # sent_directives ps"

fun responses :: "engine_message list \<Rightarrow> command_response list" where
  "responses [] = []"
| "responses (Response r # ms) = r # responses ms"
| "responses (Heartbeat s # ms) = responses ms"

lemma responses_append [simp]: "responses (ms @ ns) = responses ms @ responses ns"
  by (induction ms rule: responses.induct) simp_all

text \<open>The responses match the directives: the numbers, and one result for each command.\<close>

definition answers :: "engine_message list \<Rightarrow> engine_directive list \<Rightarrow> bool" where
  "answers ms ds =
     (map (\<lambda>r. (resp_seq_id r, length (results r))) (responses ms) = map (\<lambda>d. (seq_id d, length (commands d))) ds)"

lemma heartbeat_turn_ok:
  assumes "it_heartbeat_write it = WriteOk" and "\<And>e. encodes to_json from_json (Heartbeat (mock_status e))"
    and "reads_as from_json (pr_out p) ms"
  obtains p1 ms1 where "heartbeat_turn to_json a it p = (p1, True)" and "reads_as from_json (pr_out p1) (ms @ ms1)"
    and "responses ms1 = []" and "pr_in p1 = pr_in p" and "pr_directives p1 = pr_directives p"
    and "pr_heartbeats p1 = pr_heartbeats p + of_nat (length ms1)"
proof (cases "unat (pa_heartbeat_ms a) * 1000000 \<le> it_heartbeat_check it - pr_last_heartbeat p")
  case True
  let ?e = "(pr_engine p)\<lparr>me_tokens_generated := me_tokens_generated (pr_engine p) + 1\<rparr>"
  obtain out where out: "send_message ''EngineMessage'' to_json WriteOk (Heartbeat (mock_status ?e)) (pr_out p) = (out, Inr ())"
    "reads_as from_json out (ms @ [Heartbeat (mock_status ?e)])"
    using reads_as_send[OF assms(3,2), of "''EngineMessage''" ?e] by (metis prod.collapse)
  show ?thesis using True assms(1) out
    by (intro that[of "p\<lparr>pr_engine := ?e, pr_out := out, pr_heartbeats := pr_heartbeats p + 1,
        pr_last_heartbeat := it_heartbeat_sent it\<rparr>" "[Heartbeat (mock_status ?e)]"]) (simp_all add: heartbeat_turn_def)
next
  case False
  then show ?thesis using assms(3) by (intro that[of p "[]"]) (auto simp: heartbeat_turn_def)
qed

lemma directive_turn_silence:
  "pr_in p = Quiet # s \<Longrightarrow> directive_turn D to_json from_json it p = (p\<lparr>pr_in := s\<rparr>, True)"
  by (simp add: directive_turn_def recv_quiet)

text \<open>Every answer the engine can give to a directive is a message the manager can read.\<close>

definition answerable ::
  "(engine_message \<Rightarrow> u8 list res) \<Rightarrow> (u8 list \<Rightarrow> engine_message res) \<Rightarrow> engine_directive \<Rightarrow> bool" where
  "answerable to_json from_json d =
     (\<forall>rs. length rs = length (commands d) \<longrightarrow> set rs \<subseteq> mock_results \<longrightarrow>
        encodes to_json from_json (Response \<lparr> resp_seq_id = seq_id d, results = rs \<rparr>))"

lemma directive_turn_sent:
  assumes "pr_in p = map Byte (frame json) @ s" and "length json < 2 ^ 32" and "from_wire json = Inr (Directive d)"
    and "it_response_write it = WriteOk" and "answerable to_json from_json d" and "reads_as from_json (pr_out p) ms"
  obtains p1 r where "directive_turn D to_json from_wire it p = (p1, True)"
    and "reads_as from_json (pr_out p1) (ms @ [Response r])" and "resp_seq_id r = seq_id d"
    and "length (results r) = length (commands d)" and "pr_in p1 = s" and "pr_directives p1 = pr_directives p + 1"
    and "pr_heartbeats p1 = pr_heartbeats p"
proof -
  obtain e rs where a: "apply_all (commands d) (pr_engine p) = (e, rs)" by (cases "apply_all (commands d) (pr_engine p)")
  then have rs: "length rs = length (commands d)" "set rs \<subseteq> mock_results"
    using apply_all_results[of "commands d" "pr_engine p"] by auto
  let ?r = "\<lparr> resp_seq_id = seq_id d, results = rs \<rparr>"
  have enc: "encodes to_json from_json (Response ?r)" using assms(5) rs by (simp add: answerable_def)
  note s = reads_as_send[OF assms(6) enc, of "''EngineMessage''"]
  have rm: "recv_message ''ManagerMessage'' from_wire (pr_in p) = (s, Inr (Some (Directive d)))"
    unfolding assms(1) using assms(2,3) by (rule recv_frame)
  show ?thesis
    by (rule that[of "fst (directive_turn D to_json from_wire it p)" ?r])
      (use s assms(4) rs in \<open>simp_all add: directive_turn_def rm handle_directive_def a Let_def case_prod_unfold\<close>)
qed

definition iteration_fine :: "protocol_args \<Rightarrow> iteration \<Rightarrow> bool" where
  "iteration_fine a it =
     (it_elapsed it < unat (pa_duration_secs a) * NANOS_PER_SEC \<and>
      it_heartbeat_write it = WriteOk \<and> it_response_write it = WriteOk)"

definition piece_fine ::
  "(engine_message \<Rightarrow> u8 list res) \<Rightarrow> (u8 list \<Rightarrow> engine_message res) \<Rightarrow> (u8 list \<Rightarrow> manager_message res) \<Rightarrow> piece \<Rightarrow> bool" where
  "piece_fine to_json from_json from_wire q =
     (case q of Silence \<Rightarrow> True
      | Sent d json \<Rightarrow> length json < 2 ^ 32 \<and> from_wire json = Inr (Directive d) \<and> answerable to_json from_json d)"

lemma sent_directives_Cons: "sent_directives (q # ps) = sent_directives [q] @ sent_directives ps"
  by (cases q) simp_all

lemma answers_append: "answers ms ds \<Longrightarrow> answers ns es \<Longrightarrow> answers (ms @ ns) (ds @ es)"
  by (simp add: answers_def)

text \<open>One iteration of the loop takes one piece from the wire.\<close>

lemma protocol_turn:
  assumes "\<And>e. encodes to_json from_json (Heartbeat (mock_status e))" and "iteration_fine a it"
    and "piece_fine to_json from_json from_wire q" and "pr_in p = piece_events q @ s" and "reads_as from_json (pr_out p) ms"
  obtains p' ns where "\<And>its. protocol_loop D to_json from_wire a (it # its) p = protocol_loop D to_json from_wire a its p'"
    and "reads_as from_json (pr_out p') (ms @ ns)" and "answers ns (sent_directives [q])" and "pr_in p' = s"
    and "pr_directives p' = pr_directives p + of_nat (length (sent_directives [q]))"
    and "pr_heartbeats p' + of_nat (length (sent_directives [q])) = pr_heartbeats p + of_nat (length ns)"
proof -
  have it: "it_heartbeat_write it = WriteOk" "it_response_write it = WriteOk" "it_elapsed it < unat (pa_duration_secs a) * NANOS_PER_SEC"
    using assms(2) by (simp_all add: iteration_fine_def)
  obtain p1 ms1 where h: "heartbeat_turn to_json a it p = (p1, True)" "reads_as from_json (pr_out p1) (ms @ ms1)"
    "responses ms1 = []" "pr_in p1 = pr_in p" "pr_directives p1 = pr_directives p"
    "pr_heartbeats p1 = pr_heartbeats p + of_nat (length ms1)"
    using heartbeat_turn_ok[OF it(1) assms(1,5)] by blast
  show ?thesis
  proof (cases q)
    case Silence
    then have "directive_turn D to_json from_wire it p1 = (p1\<lparr>pr_in := s\<rparr>, True)"
      using assms(4) h(4) by (intro directive_turn_silence) simp
    then show ?thesis using it(3) h Silence by (intro that[of "p1\<lparr>pr_in := s\<rparr>" ms1]) (simp_all add: answers_def)
  next
    case (Sent dd json)
    then have f: "length json < 2 ^ 32" "from_wire json = Inr (Directive dd)" "answerable to_json from_json dd"
      "pr_in p1 = map Byte (frame json) @ s"
      using assms(3,4) h(4) by (simp_all add: piece_fine_def)
    obtain p2 r where d: "directive_turn D to_json from_wire it p1 = (p2, True)"
      "reads_as from_json (pr_out p2) ((ms @ ms1) @ [Response r])" "resp_seq_id r = seq_id dd"
      "length (results r) = length (commands dd)" "pr_in p2 = s" "pr_directives p2 = pr_directives p1 + 1"
      "pr_heartbeats p2 = pr_heartbeats p1"
      using directive_turn_sent[where from_wire = from_wire, OF f(4,1,2) it(2) f(3) h(2)] by blast
    show ?thesis using it(3) h d Sent by (intro that[of p2 "ms1 @ [Response r]"]) (simp_all add: answers_def)
  qed
qed

lemma protocol_loop_answers:
  assumes "\<And>e. encodes to_json from_json (Heartbeat (mock_status e))"
    and "list_all (iteration_fine a) its" and "list_all (piece_fine to_json from_json from_wire) ps"
    and "length its = length ps" and "pr_in p = concat (map piece_events ps)" and "reads_as from_json (pr_out p) ms"
  shows "\<exists>ns. reads_as from_json (pr_out (fst (protocol_loop D to_json from_wire a its p))) (ms @ ns) \<and>
    answers ns (sent_directives ps) \<and>
    pr_directives (fst (protocol_loop D to_json from_wire a its p)) = pr_directives p + of_nat (length (sent_directives ps)) \<and>
    pr_heartbeats (fst (protocol_loop D to_json from_wire a its p)) + of_nat (length (sent_directives ps)) =
      pr_heartbeats p + of_nat (length ns)"
  using assms(2-)
proof (induction its arbitrary: ps p ms)
  case Nil
  then show ?case by (intro exI[of _ "[]"]) (simp add: answers_def)
next
  case (Cons it its)
  then obtain q ps' where ps: "ps = q # ps'" by (cases ps) auto
  obtain p' ms' where t: "\<And>its. protocol_loop D to_json from_wire a (it # its) p = protocol_loop D to_json from_wire a its p'"
    "reads_as from_json (pr_out p') (ms @ ms')" "answers ms' (sent_directives [q])" "pr_in p' = concat (map piece_events ps')"
    "pr_directives p' = pr_directives p + of_nat (length (sent_directives [q]))"
    "pr_heartbeats p' + of_nat (length (sent_directives [q])) = pr_heartbeats p + of_nat (length ms')"
  proof -
    have "iteration_fine a it" "piece_fine to_json from_json from_wire q" "pr_in p = piece_events q @ concat (map piece_events ps')"
      using Cons.prems ps by simp_all
    from protocol_turn[where D = D, OF assms(1) this Cons.prems(5)] that show thesis by blast
  qed
  obtain ns where ns: "reads_as from_json (pr_out (fst (protocol_loop D to_json from_wire a its p'))) ((ms @ ms') @ ns)"
    "answers ns (sent_directives ps')"
    "pr_directives (fst (protocol_loop D to_json from_wire a its p')) = pr_directives p' + of_nat (length (sent_directives ps'))"
    "pr_heartbeats (fst (protocol_loop D to_json from_wire a its p')) + of_nat (length (sent_directives ps')) =
      pr_heartbeats p' + of_nat (length ns)"
    using Cons.IH[OF _ _ _ t(4,2)] Cons.prems(1-3) ps by auto
  have "answers (ms' @ ns) (sent_directives ps)"
    using answers_append[OF t(3) ns(2)] by (simp add: ps sent_directives_Cons[of q ps'])
  then show ?case using ns(1,3) t(5) arg_cong2[OF t(6) ns(4), where f = plus]
    by (intro exI[of _ "ms' @ ns"]) (simp add: t(1) ps sent_directives_Cons[of q ps'] algebra_simps del: protocol_loop.simps)
qed

lemma run_protocol_answers:
  fixes D :: wire_debug and elapsed :: duration
  assumes "\<And>e. encodes to_json from_json (Heartbeat (mock_status e))"
    and "list_all (iteration_fine a) its" and "list_all (piece_fine to_json from_json from_wire) ps"
    and "length its = length ps"
  defines "p \<equiv> run_protocol D to_json from_wire a its elapsed (concat (map piece_events ps))"
  shows "answers (reader_loop from_json (pr_out p)) (sent_directives ps) \<and>
    pr_directives p = of_nat (length (sent_directives ps)) \<and>
    pr_heartbeats p + pr_directives p = of_nat (length (reader_loop from_json (pr_out p)))"
proof -
  let ?s = "protocol_start a (concat (map piece_events ps))"
  obtain ns where ns: "reads_as from_json (pr_out (fst (protocol_loop D to_json from_wire a its ?s))) ns"
    "answers ns (sent_directives ps)"
    "pr_directives (fst (protocol_loop D to_json from_wire a its ?s)) = of_nat (length (sent_directives ps))"
    "pr_heartbeats (fst (protocol_loop D to_json from_wire a its ?s)) + of_nat (length (sent_directives ps)) = of_nat (length ns)"
    using protocol_loop_answers[where D = D, OF assms(1-4), of ?s "[]"] reads_as_empty by (auto simp: protocol_start_def)
  have "reader_loop from_json [] = []"
    by (simp add: reader_loop.simps read_engine_message_def read_exact_def)
  then have "reader_loop from_json (pr_out (fst (protocol_loop D to_json from_wire a its ?s))) = ns"
    using ns(1) unfolding reads_as_def by (metis append_Nil2)
  then show ?thesis using ns(2-) by (simp add: p_def)
qed

section \<open>Properties\<close>

text \<open>C12: The engine answers every directive: when the manager sends whole frames with any silences
  between them, the writes succeed and there is time for one turn each, what the reader thread of
  the manager makes of the bytes the engine has written contains, in order, exactly one response for
  each directive, with its number and one result for each of its commands, and the counts of the
  engine's summary add up to the messages the reader has got.\<close>

theorem engine_answers_every_directive:
  assumes "\<And>e. encodes to_json from_json (Heartbeat (mock_status e))"
    and "list_all (iteration_fine a) its" and "list_all (piece_fine to_json from_json from_wire) ps"
    and "length its = length ps"
    and "p = run_protocol D to_json from_wire a its elapsed (concat (map piece_events ps))"
  shows "answers (reader_loop from_json (pr_out p)) (sent_directives ps) \<and>
    pr_directives p = of_nat (length (sent_directives ps)) \<and>
    pr_heartbeats p + pr_directives p = of_nat (length (reader_loop from_json (pr_out p)))"
  unfolding assms(5) by (rule run_protocol_answers[OF assms(1-4)])

definition tiny_encode :: "engine_message \<Rightarrow> u8 list res" where
  "tiny_encode m = (case m of Heartbeat s \<Rightarrow> Inr [0] | Response r \<Rightarrow> Inr [if results r = [ResultOk] then 1 else 2])"

definition tiny_decode :: "u8 list \<Rightarrow> engine_message res" where
  "tiny_decode bs =
     (if bs = [0] then Inr (Heartbeat (mock_status (mock_engine_new (Fin 1) [])))
      else if bs = [1] then Inr (Response \<lparr> resp_seq_id = 7, results = [ResultOk] \<rparr>)
      else if bs = [2] then Inr (Response \<lparr> resp_seq_id = 7,
        results = [Partial (Fin 1) ''compression declined: too little would be reclaimed''] \<rparr>)
      else Inl ''unknown'')"

definition plain_debug :: wire_debug where
  "plain_debug = \<lparr> wd_command = (\<lambda>c. []), wd_result = (\<lambda>r. []), wd_state = (\<lambda>s. []), wd_phase = (\<lambda>p. []),
     wd_discriminant = (\<lambda>m. []) \<rparr>"

definition example_turn :: iteration where
  "example_turn = \<lparr> it_elapsed = 0, it_heartbeat_check = 0, it_heartbeat_sent = 0, it_heartbeat_write = WriteOk,
     it_response_write = WriteOk \<rparr>"

theorem engine_answers_every_directive_witness:
  "answers (reader_loop tiny_decode (pr_out (run_protocol plain_debug tiny_encode (\<lambda>bs. Inr (Directive \<lparr> seq_id = 7, commands = [Suspend] \<rparr>))
       \<lparr> pa_duration_secs = 1, pa_heartbeat_ms = 0, pa_kv_occupancy = Fin (1/2), pa_device = ''cpu'' \<rparr>
       [example_turn, example_turn] 0 (Quiet # map Byte (frame [123, 125])))))
     [\<lparr> seq_id = 7, commands = [Suspend] \<rparr>]"
proof -
  let ?d = "\<lparr> seq_id = 7, commands = [Suspend] \<rparr>" and ?w = "\<lambda>bs :: u8 list. Inr (Directive \<lparr> seq_id = 7, commands = [Suspend] \<rparr>) :: manager_message res"
    and ?a = "\<lparr> pa_duration_secs = 1, pa_heartbeat_ms = 0, pa_kv_occupancy = Fin (1/2), pa_device = ''cpu'' \<rparr>"
  have "encodes tiny_encode tiny_decode (Heartbeat (mock_status e))" for e
    by (simp add: encodes_def tiny_encode_def tiny_decode_def mock_status_def MAX_PAYLOAD_SIZE_def)
  moreover have "list_all (iteration_fine ?a) [example_turn, example_turn]"
    by (simp add: iteration_fine_def example_turn_def NANOS_PER_SEC_def)
  moreover have "answerable tiny_encode tiny_decode ?d"
    by (auto simp: answerable_def encodes_def tiny_encode_def tiny_decode_def mock_results_def MAX_PAYLOAD_SIZE_def length_Suc_conv)
  then have "list_all (piece_fine tiny_encode tiny_decode ?w) [Silence, Sent ?d [123, 125]]"
    by (simp add: piece_fine_def)
  ultimately show ?thesis
    using engine_answers_every_directive[of tiny_encode tiny_decode ?a "[example_turn, example_turn]" ?w
        "[Silence, Sent ?d [123, 125]]", OF _ _ _ _ refl] by simp
qed

text \<open>A timeout inside a length prefix loses the bytes read before it: the two halves of a frame with a
  quiet period between them are first reported as silence, and then the rest of the frame is read
  as the prefix of another, which ends the engine.\<close>

lemma timeout_in_prefix_desynchronises:
  "\<exists>s s'. recv_message what f (map Byte (take 2 (frame [123, 125])) @ Quiet # map Byte (drop 2 (frame [123, 125]))) = (s, Inr None) \<and>
     recv_message what f s = (s', Inl ''read JSON payload'')"
proof -
  have fr: "frame [123, 125] = [0, 0, 0, 2, 123, 125]"
    by (simp add: frame_def to_be_bytes_def unsigned_of_nat take_bit_nat_eq_self)
  have first: "recv_message what f (Byte 0 # Byte 0 # Quiet # s) = (s, Inr None)" for s
    by (simp add: recv_message_def eval_nat_numeral)
  have len: "sock_read_exact 4 [Byte 0, Byte 2, Byte 123, Byte 125] = ([], Inr [0, 2, 123, 125])"
    by (simp add: eval_nat_numeral)
  have "0 < unat (from_be_bytes [0, 2, 123, 125])"
    by (simp add: from_be_bytes_def)
  then obtain n where n: "unat (from_be_bytes [0, 2, 123, 125]) = Suc n" using gr0_implies_Suc by blast
  have second: "recv_message what f [Byte 0, Byte 2, Byte 123, Byte 125] = ([], Inl ''read JSON payload'')"
    unfolding recv_message_def len by (simp add: n)
  show ?thesis using first[of "[Byte 0, Byte 2, Byte 123, Byte 125]"] second by (simp add: fr)
qed

end
