(* ===== verification/Mock_Manager.thy ===== *)
theory Mock_Manager
  imports Mock_Engine Monitor_Base
begin

text \<open>
  The stand-in for the manager (\<^verbatim>\<open>src/bin/mock_manager.rs\<close>): commands from arguments and scenario
  files, sending them one at a time and waiting for the answer of each, the signals of its D-Bus
  mode, and what it prints.  How many turns a wait has before its deadline is a parameter, and so
  are JSON, the files and the outcome of each write.
\<close>

section \<open>Commands\<close>

record command_params =
  cp_name :: string
  cp_keep_ratio :: "f32 option"
  cp_every :: "u32 option"
  cp_on :: "bool option"

definition build_command :: "command_params \<Rightarrow> engine_command res" where
  "build_command ps =
     (if cp_name ps = ''KvCompress'' then
        (case cp_keep_ratio ps of
           None \<Rightarrow> Inl ''--keep-ratio required for KvCompress''
         | Some b \<Rightarrow> Inr (KvCompress b))
      else if cp_name ps = ''RestoreDefaults'' then Inr RestoreDefaults
      else if cp_name ps = ''Suspend'' then Inr Suspend
      else if cp_name ps = ''Resume'' then Inr Resume
      else if cp_name ps = ''GpuYield'' then
        (case cp_every ps of
           None \<Rightarrow> Inl ''--every required for GpuYield''
         | Some n \<Rightarrow> Inr (GpuYield n))
      else if cp_name ps = ''GpuOffload'' then
        (case cp_on ps of
           None \<Rightarrow> Inl ''--on <true|false> required for GpuOffload''
         | Some b \<Rightarrow> Inr (GpuOffload b))
      else Inl (''unknown command '' @ [CHR 0x27] @ cp_name ps @ [CHR 0x27] @ '' '' @ em_dash
        @ '' the contract carries KvCompress, RestoreDefaults, Suspend, Resume, GpuYield and GpuOffload''))"

text \<open>What is printed about a response, and the verdict on it.\<close>

definition validate_response :: "u64 \<Rightarrow> command_response \<Rightarrow> nat \<Rightarrow> console_line list \<times> bool" where
  "validate_response i r num_commands =
     (let seq_ok = (resp_seq_id r = i); count_ok = (length (results r) = num_commands) in
      ((if seq_ok then []
        else [Stderr (''[PROTOCOL VIOLATION] INV-023: seq_id mismatch: sent '' @ show_word i @ '' but received ''
                @ show_word (resp_seq_id r))])
       @ (if count_ok then []
          else [Stderr (''[PROTOCOL VIOLATION] INV-024: results count mismatch: sent '' @ show_nat num_commands
                  @ '' commands but received '' @ show_nat (length (results r)) @ '' results'')]),
       seq_ok \<and> count_ok))"

lemma validate_response_verdict: "snd (validate_response i r n) \<longleftrightarrow> fst (validate_response i r n) = []"
  by (simp add: validate_response_def Let_def)

section \<open>Scenarios\<close>

record scenario_command =
  sm_delay_ms :: u64
  sm_command :: string
  sm_keep_ratio :: "f32 option"

record command_scenario =
  cs_name :: string
  cs_description :: "string option"
  cs_commands :: "scenario_command list"

section \<open>The wire\<close>

text \<open>The two programs frame and read alike, each with its own copy of the code.\<close>

definition manager_send_message ::
  "(manager_message \<Rightarrow> u8 list res) \<Rightarrow> write_outcome \<Rightarrow> manager_message \<Rightarrow> u8 list \<Rightarrow> u8 list \<times> unit res" where
  "manager_send_message to_json w msg out =
     (case to_json msg of
        Inl e \<Rightarrow> (out, Inl ''serialise ManagerMessage'')
      | Inr json \<Rightarrow>
          (let bytes = to_be_bytes (of_nat (length json)) @ json in
           case w of
             WriteOk \<Rightarrow> (out @ bytes, Inr ())
           | WriteFails n \<Rightarrow>
               (out @ take n bytes,
                Inl (if n < 4 then ''write length prefix''
                     else if n < 4 + length json then ''write JSON payload''
                     else ''flush stream''))))"

definition manager_recv_message ::
  "(u8 list \<Rightarrow> engine_message res) \<Rightarrow> sock_event list \<Rightarrow> sock_event list \<times> engine_message option res" where
  "manager_recv_message from_json s =
     (case sock_read_exact 4 s of
        (s1, Inl TimedOut) \<Rightarrow> (s1, Inr None)
      | (s1, Inl Eof) \<Rightarrow> (s1, Inl ''read length prefix'')
      | (s1, Inr len_buf) \<Rightarrow>
          (case sock_read_exact (unat (from_be_bytes len_buf)) s1 of
             (s2, Inl e) \<Rightarrow> (s2, Inl ''read JSON payload'')
           | (s2, Inr json_buf) \<Rightarrow>
               (case from_json json_buf of
                  Inl e \<Rightarrow> (s2, Inl ''deserialise EngineMessage'')
                | Inr msg \<Rightarrow> (s2, Inr (Some msg)))))"

lemma manager_wire_is_engine_wire:
  "manager_send_message = send_message ''ManagerMessage''"
  "manager_recv_message = recv_message ''EngineMessage''"
  by (auto simp: fun_eq_iff manager_send_message_def send_message_def frame_def manager_recv_message_def recv_message_def
      Let_def split: sum.split prod.split read_error.split write_outcome.split)

text \<open>What is reported about a directive: its response with the verdict on it, or that none came.\<close>

datatype report = Answered u64 command_response bool | TimedOutFor u64

text \<open>The program while it is connected: the socket, what it has reported and what it has printed.\<close>

record manager_end =
  mm_in :: "sock_event list"
  mm_out :: "u8 list"
  mm_reports :: "report list"
  mm_console :: "console_line list"

definition manager_connected :: "sock_event list \<Rightarrow> manager_end" where
  "manager_connected s = \<lparr> mm_in = s, mm_out = [], mm_reports = [], mm_console = [] \<rparr>"

definition mm_print :: "string \<Rightarrow> manager_end \<Rightarrow> manager_end" where
  "mm_print l m = m\<lparr>mm_console := mm_console m @ [Stdout l]\<rparr>"

definition mm_recv ::
  "(u8 list \<Rightarrow> engine_message res) \<Rightarrow> manager_end \<Rightarrow> manager_end \<times> engine_message option res" where
  "mm_recv from_json m =
     (case manager_recv_message from_json (mm_in m) of (s, r) \<Rightarrow> (m\<lparr>mm_in := s\<rparr>, r))"

section \<open>Waiting for messages\<close>

datatype 'v selected = Match 'v | Skip engine_message

text \<open>The occupancy as all lines about a heartbeat show it.\<close>

definition kv_text :: "engine_status \<Rightarrow> string" where
  "kv_text st =
     ''kv='' @ show_word (kv_cache_bytes st) @ ''/'' @ show_word (kv_cache_budget_bytes st) @ ''B, tokens=''
     @ show_word (kv_cache_tokens st)"

definition log_skipped :: "string \<Rightarrow> engine_message \<Rightarrow> string" where
  "log_skipped waiting_for msg =
     (case msg of
        Heartbeat st \<Rightarrow>
          ''[MockManager] (skipping heartbeat while waiting for '' @ waiting_for @ '': '' @ kv_text st @ '')''
      | Response r \<Rightarrow>
          ''[MockManager] (unexpected Response seq_id='' @ show_word (resp_seq_id r) @ '' while waiting for ''
          @ waiting_for @ '', skipping)'')"

fun recv_until ::
  "(u8 list \<Rightarrow> engine_message res) \<Rightarrow> string \<Rightarrow> (engine_message \<Rightarrow> 'v selected) \<Rightarrow> nat \<Rightarrow> manager_end \<Rightarrow>
   manager_end \<times> 'v option res" where
  "recv_until from_json waiting_for select 0 m = (m, Inr None)"
| "recv_until from_json waiting_for select (Suc n) m =
     (case mm_recv from_json m of
        (m1, Inl e) \<Rightarrow> (m1, Inl e)
      | (m1, Inr None) \<Rightarrow> recv_until from_json waiting_for select n m1
      | (m1, Inr (Some msg)) \<Rightarrow>
          (case select msg of
             Match v \<Rightarrow> (m1, Inr (Some v))
           | Skip skipped \<Rightarrow> recv_until from_json waiting_for select n (mm_print (log_skipped waiting_for skipped) m1)))"

definition recv_response_skip_heartbeats ::
  "(u8 list \<Rightarrow> engine_message res) \<Rightarrow> nat \<Rightarrow> manager_end \<Rightarrow> manager_end \<times> command_response option res" where
  "recv_response_skip_heartbeats from_json =
     recv_until from_json ''Response'' (\<lambda>msg. case msg of Response r \<Rightarrow> Match r | Heartbeat st \<Rightarrow> Skip msg)"

text \<open>The wait before a command of a scenario drops every message and every error.\<close>

fun drain_delay :: "(u8 list \<Rightarrow> engine_message res) \<Rightarrow> nat \<Rightarrow> manager_end \<Rightarrow> manager_end" where
  "drain_delay from_json 0 m = m"
| "drain_delay from_json (Suc n) m =
     (case mm_recv from_json m of
        (m1, Inr (Some (Heartbeat st))) \<Rightarrow> drain_delay from_json n (mm_print (''  (heartbeat: '' @ kv_text st @ '')'') m1)
      | (m1, r) \<Rightarrow> drain_delay from_json n m1)"

text \<open>The waits at the start and at the end count heartbeats and print each; the first prints other
  messages too.  An error ends the program.\<close>

definition heartbeat_line :: "u32 \<Rightarrow> engine_status \<Rightarrow> string" where
  "heartbeat_line k st =
     ''[MockManager] Heartbeat #'' @ show_word k @ '': '' @ kv_text st @ '', tbt='' @ fixed 1 (tbt_ms st) @ ''ms''"

definition wait_line :: "wire_debug \<Rightarrow> u32 \<Rightarrow> engine_status \<Rightarrow> string" where
  "wait_line D k st =
     heartbeat_line k st @ '', phase='' @ wd_phase D (status_phase st) @ '', state='' @ wd_state D (status_state st)"

definition unexpected_line :: "wire_debug \<Rightarrow> engine_message \<Rightarrow> string" where
  "unexpected_line D msg = ''[MockManager] Unexpected message during wait: '' @ wd_discriminant D msg"

fun count_heartbeats ::
  "(u8 list \<Rightarrow> engine_message res) \<Rightarrow> (u32 \<Rightarrow> engine_status \<Rightarrow> string) \<Rightarrow> (engine_message \<Rightarrow> string option) \<Rightarrow> nat \<Rightarrow>
   u32 \<Rightarrow> manager_end \<Rightarrow> manager_end \<times> u32 res" where
  "count_heartbeats from_json line other 0 k m = (m, Inr k)"
| "count_heartbeats from_json line other (Suc n) k m =
     (case mm_recv from_json m of
        (m1, Inl e) \<Rightarrow> (m1, Inl e)
      | (m1, Inr None) \<Rightarrow> count_heartbeats from_json line other n k m1
      | (m1, Inr (Some (Heartbeat st))) \<Rightarrow>
          count_heartbeats from_json line other n (k + 1) (mm_print (line (k + 1) st) m1)
      | (m1, Inr (Some msg)) \<Rightarrow>
          count_heartbeats from_json line other n k (case other msg of Some l \<Rightarrow> mm_print l m1 | None \<Rightarrow> m1))"

section \<open>Sending\<close>

text \<open>The turns of the waits around the command with a given number, and the outcome of its write.\<close>

record exchange =
  ex_delay_turns :: nat
  ex_write :: write_outcome
  ex_response_turns :: nat

text \<open>A single command and a command of a scenario are exchanged alike, with different texts.\<close>

record exchange_text =
  xt_sent :: string
  xt_response :: "command_response \<Rightarrow> string"
  xt_timed_out :: string

definition send_and_wait ::
  "exchange_text \<Rightarrow> (manager_message \<Rightarrow> u8 list res) \<Rightarrow> (u8 list \<Rightarrow> engine_message res) \<Rightarrow> exchange \<Rightarrow> u64 \<Rightarrow>
   engine_command \<Rightarrow> manager_end \<Rightarrow> manager_end \<times> unit res" where
  "send_and_wait T to_json from_json x i cmd m =
     (case manager_send_message to_json (ex_write x) (Directive \<lparr> seq_id = i, commands = [cmd] \<rparr>) (mm_out m) of
        (out, Inl e) \<Rightarrow> (m\<lparr>mm_out := out\<rparr>, Inl e)
      | (out, Inr _) \<Rightarrow>
          (case recv_response_skip_heartbeats from_json (ex_response_turns x) (mm_print (xt_sent T) (m\<lparr>mm_out := out\<rparr>)) of
             (m1, Inl e) \<Rightarrow> (m1, Inl e)
           | (m1, Inr (Some r)) \<Rightarrow>
               (let (violations, ok) = validate_response i r 1;
                    m2 = m1\<lparr>mm_console := mm_console m1 @ violations, mm_reports := mm_reports m1 @ [Answered i r ok]\<rparr>
                in (mm_print (xt_response T r) m2, Inr ()))
           | (m1, Inr None) \<Rightarrow>
               (mm_print (xt_timed_out T) (m1\<lparr>mm_reports := mm_reports m1 @ [TimedOutFor i]\<rparr>), Inr ())))"

definition single_text :: "wire_debug \<Rightarrow> string \<Rightarrow> exchange_text" where
  "single_text D name =
     \<lparr> xt_sent = ''[MockManager] Sent: Directive seq_id=1 ['' @ name @ '']'',
       xt_response = (\<lambda>r. ''[MockManager] Response seq_id='' @ show_word (resp_seq_id r) @ '': '' @ debug_vec (wd_result D) (results r)),
       xt_timed_out = ''[MockManager] Timed out waiting for Response (seq_id=1)'' \<rparr>"

definition run_single_command ::
  "wire_debug \<Rightarrow> (manager_message \<Rightarrow> u8 list res) \<Rightarrow> (u8 list \<Rightarrow> engine_message res) \<Rightarrow> exchange \<Rightarrow> command_params \<Rightarrow>
   manager_end \<Rightarrow> manager_end \<times> unit res" where
  "run_single_command D to_json from_json x ps m =
     (case build_command ps of
        Inl e \<Rightarrow> (m, Inl e)
      | Inr cmd \<Rightarrow> send_and_wait (single_text D (cp_name ps)) to_json from_json x 1 cmd m)"

text \<open>The commands of a scenario, from a given position and a given number on.\<close>

definition entry_params :: "scenario_command \<Rightarrow> command_params" where
  "entry_params c = \<lparr> cp_name = sm_command c, cp_keep_ratio = sm_keep_ratio c, cp_every = None, cp_on = None \<rparr>"

definition entry_text :: "wire_debug \<Rightarrow> nat \<Rightarrow> nat \<Rightarrow> u64 \<Rightarrow> string \<Rightarrow> exchange_text" where
  "entry_text D n k i name =
     \<lparr> xt_sent = ''  ['' @ show_nat (k + 1) @ ''/'' @ show_nat n @ ''] Sent: '' @ name @ '' (seq_id='' @ show_word i @ '')'',
       xt_response = (\<lambda>r. ''  Response: '' @ debug_vec (wd_result D) (results r)),
       xt_timed_out = ''  Timed out waiting for Response (seq_id='' @ show_word i @ '')'' \<rparr>"

fun scenario_loop ::
  "wire_debug \<Rightarrow> (manager_message \<Rightarrow> u8 list res) \<Rightarrow> (u8 list \<Rightarrow> engine_message res) \<Rightarrow> (u64 \<Rightarrow> exchange) \<Rightarrow> nat \<Rightarrow> nat \<Rightarrow>
   scenario_command list \<Rightarrow> u64 \<Rightarrow> manager_end \<Rightarrow> manager_end \<times> unit res" where
  "scenario_loop D to_json from_json xs n k [] i m = (m, Inr ())"
| "scenario_loop D to_json from_json xs n k (c # cs) i m =
     (let x = xs (i + 1);
          m1 = (if 0 < sm_delay_ms c
                then drain_delay from_json (ex_delay_turns x) (mm_print (''  Waiting '' @ show_word (sm_delay_ms c) @ ''ms...'') m)
                else m) in
      case build_command (entry_params c) of
        Inl e \<Rightarrow> (m1, Inl e)
      | Inr cmd \<Rightarrow>
          (case send_and_wait (entry_text D n k (i + 1) (sm_command c)) to_json from_json x (i + 1) cmd m1 of
             (m2, Inl e) \<Rightarrow> (m2, Inl e)
           | (m2, Inr _) \<Rightarrow> scenario_loop D to_json from_json xs n (k + 1) cs (i + 1) m2))"

definition run_scenario ::
  "wire_debug \<Rightarrow> file_system \<Rightarrow> (string \<Rightarrow> command_scenario res) \<Rightarrow> (manager_message \<Rightarrow> u8 list res) \<Rightarrow>
   (u8 list \<Rightarrow> engine_message res) \<Rightarrow> (u64 \<Rightarrow> exchange) \<Rightarrow> string \<Rightarrow> manager_end \<Rightarrow> manager_end \<times> unit res" where
  "run_scenario D fs parse to_json from_json xs path m =
     (case read_to_string fs path of
        None \<Rightarrow> (m, Inl (''read scenario file: '' @ debug_str path))
      | Some content \<Rightarrow>
          (case parse content of
             Inl e \<Rightarrow> (m, Inl ''parse scenario JSON'')
           | Inr sc \<Rightarrow>
               (let n = length (cs_commands sc);
                    m1 = mm_print (''[MockManager] Playing scenario: '' @ cs_name sc @ '' ('' @ show_nat n @ '' commands)'') m;
                    m2 = (case cs_description sc of Some desc \<Rightarrow> mm_print (''  '' @ desc) m1 | None \<Rightarrow> m1)
                in case scenario_loop D to_json from_json xs n 0 (cs_commands sc) 0 m2 of
                     (m3, Inl e) \<Rightarrow> (m3, Inl e)
                   | (m3, Inr _) \<Rightarrow> (mm_print ''[MockManager] Scenario complete.'' m3, Inr ()))))"

record manager_args =
  ma_scenario :: "string option"
  ma_command :: "string option"
  ma_wait_secs :: u64
  ma_keep_ratio :: "f32 option"
  ma_every :: "u32 option"
  ma_on :: "bool option"

text \<open>The directives the arguments ask for.\<close>

definition run_directives ::
  "wire_debug \<Rightarrow> file_system \<Rightarrow> (string \<Rightarrow> command_scenario res) \<Rightarrow> (manager_message \<Rightarrow> u8 list res) \<Rightarrow>
   (u8 list \<Rightarrow> engine_message res) \<Rightarrow> manager_args \<Rightarrow> (u64 \<Rightarrow> exchange) \<Rightarrow> manager_end \<Rightarrow> manager_end \<times> unit res" where
  "run_directives D fs parse to_json from_json a xs m =
     (case ma_scenario a of
        Some path \<Rightarrow> run_scenario D fs parse to_json from_json xs path m
      | None \<Rightarrow>
          (case ma_command a of
             Some name \<Rightarrow>
               run_single_command D to_json from_json (xs 1)
                 \<lparr> cp_name = name, cp_keep_ratio = ma_keep_ratio a, cp_every = ma_every a, cp_on = ma_on a \<rparr> m
           | None \<Rightarrow> (m, Inl ''Either --command or --scenario must be specified for socket mode'')))"

definition mock_run_protocol ::
  "wire_debug \<Rightarrow> file_system \<Rightarrow> (string \<Rightarrow> command_scenario res) \<Rightarrow> (manager_message \<Rightarrow> u8 list res) \<Rightarrow>
   (u8 list \<Rightarrow> engine_message res) \<Rightarrow> manager_args \<Rightarrow> nat \<Rightarrow> (u64 \<Rightarrow> exchange) \<Rightarrow> nat \<Rightarrow> manager_end \<Rightarrow> manager_end \<times> u32 res" where
  "mock_run_protocol D fs parse to_json from_json a wait_turns xs observe_turns m =
     (case count_heartbeats from_json (wait_line D) (\<lambda>msg. Some (unexpected_line D msg)) wait_turns 0
             (mm_print ''[MockManager] Engine connected, waiting for heartbeats...'' m) of
        (m1, Inl e) \<Rightarrow> (m1, Inl e)
      | (m1, Inr k) \<Rightarrow>
          (case run_directives D fs parse to_json from_json a xs
                  (mm_print (''[MockManager] Received '' @ show_word k @ '' heartbeats during '' @ show_word (ma_wait_secs a)
                     @ ''s wait'') m1) of
             (m2, Inl e) \<Rightarrow> (m2, Inl e)
           | (m2, Inr _) \<Rightarrow>
               (case count_heartbeats from_json heartbeat_line (\<lambda>msg. None) observe_turns k
                       (mm_print ''[MockManager] Observing post-directive heartbeats...'' m2) of
                  (m3, Inl e) \<Rightarrow> (m3, Inl e)
                | (m3, Inr k') \<Rightarrow> (mm_print ''[MockManager] Done.'' m3, Inr k'))))"

section \<open>The D-Bus mode\<close>

record dbus_scenario_signal =
  ds_delay_ms :: u64
  ds_signal :: string
  ds_level :: string
  ds_available_bytes :: "u64 option"
  ds_reclaim_target_bytes :: "u64 option"
  ds_recommended_backend :: "string option"
  ds_reason :: "string option"
  ds_cpu_usage_pct :: "f64 option"
  ds_gpu_usage_pct :: "f64 option"
  ds_temperature_mc :: "i32 option"
  ds_throttling_active :: "bool option"
  ds_throttle_ratio :: "f64 option"
  ds_power_budget_mw :: "u32 option"

definition unwrap_or :: "'a option \<Rightarrow> 'a \<Rightarrow> 'a" where
  "unwrap_or x d = (case x of Some a \<Rightarrow> a | None \<Rightarrow> d)"

definition emit_scenario_signal :: "dbus_scenario_signal \<Rightarrow> dbus_message res" where
  "emit_scenario_signal e =
     (if ds_signal e = ''MemoryPressure'' then
        Inr (''MemoryPressure'', [DStr (ds_level e), DU64 (unwrap_or (ds_available_bytes e) 0),
               DU64 (unwrap_or (ds_reclaim_target_bytes e) 0)])
      else if ds_signal e = ''ComputeGuidance'' then
        Inr (''ComputeGuidance'', [DStr (ds_level e), DStr (unwrap_or (ds_recommended_backend e) ''any''),
               DStr (unwrap_or (ds_reason e) ''balanced''), DF64 (unwrap_or (ds_cpu_usage_pct e) (Fin 0)),
               DF64 (unwrap_or (ds_gpu_usage_pct e) (Fin 0))])
      else if ds_signal e = ''ThermalAlert'' then
        Inr (''ThermalAlert'', [DStr (ds_level e), DI32 (unwrap_or (ds_temperature_mc e) 25000),
               DBool (unwrap_or (ds_throttling_active e) False), DF64 (unwrap_or (ds_throttle_ratio e) (Fin 1))])
      else if ds_signal e = ''EnergyConstraint'' then
        Inr (''EnergyConstraint'', [DStr (ds_level e), DStr (unwrap_or (ds_reason e) ''none''),
               DU32 (unwrap_or (ds_power_budget_mw e) 0)])
      else Inl (''Unknown signal type: '' @ ds_signal e))"

text \<open>The signal of the arguments: like an entry of a scenario with the level defaulting to normal.\<close>

definition emit_single :: "string option \<Rightarrow> dbus_scenario_signal \<Rightarrow> dbus_message res" where
  "emit_single level e =
     (case emit_scenario_signal (e\<lparr>ds_level := unwrap_or level ''normal''\<rparr>) of
        Inl err \<Rightarrow> Inl (''Unknown signal: '' @ ds_signal e)
      | Inr msg \<Rightarrow> Inr msg)"

text \<open>The signals of a scenario from a given position on, with what is printed.\<close>

definition emitted_text :: "nat \<Rightarrow> nat \<Rightarrow> dbus_scenario_signal \<Rightarrow> string" where
  "emitted_text n k e =
     ''  ['' @ show_nat (k + 1) @ ''/'' @ show_nat n @ ''] Emitted '' @ ds_signal e @ '' (level='' @ ds_level e @ '')''"

fun run_dbus_scenario ::
  "('c \<Rightarrow> dbus_message \<Rightarrow> 'c \<times> unit res) \<Rightarrow> nat \<Rightarrow> nat \<Rightarrow> dbus_scenario_signal list \<Rightarrow> 'c \<times> string list \<Rightarrow>
   ('c \<times> string list) \<times> unit res" where
  "run_dbus_scenario bus n k [] (c, printed) = ((c, printed), Inr ())"
| "run_dbus_scenario bus n k (e # es) (c, printed) =
     (let printed1 = printed @ (if 0 < ds_delay_ms e then [''  Waiting '' @ show_word (ds_delay_ms e) @ ''ms...''] else []) in
      case emit_scenario_signal e of
        Inl err \<Rightarrow> ((c, printed1), Inl err)
      | Inr msg \<Rightarrow>
          (case bus c msg of
             (c1, Inl err) \<Rightarrow> ((c1, printed1), Inl err)
           | (c1, Inr _) \<Rightarrow> run_dbus_scenario bus n (k + 1) es (c1, printed1 @ [emitted_text n k e])))"

section \<open>What a scenario sends\<close>

fun numbered :: "u64 \<Rightarrow> engine_command list \<Rightarrow> engine_directive list" where
  "numbered i [] = []"
| "numbered i (c # cs) = \<lparr> seq_id = i + 1, commands = [c] \<rparr> # numbered (i + 1) cs"

fun report_number :: "report \<Rightarrow> u64" where
  "report_number (Answered i r ok) = i"
| "report_number (TimedOutFor i) = i"

text \<open>The bytes of a list of directives.\<close>

definition directive_bytes :: "(manager_message \<Rightarrow> u8 list res) \<Rightarrow> engine_directive list \<Rightarrow> u8 list" where
  "directive_bytes to_json ds =
     concat (map (\<lambda>d. case to_json (Directive d) of Inr json \<Rightarrow> frame json | Inl e \<Rightarrow> []) ds)"

text \<open>Waiting reads and prints, and neither writes nor reports.\<close>

definition same_sent :: "manager_end \<Rightarrow> manager_end \<Rightarrow> bool" where
  "same_sent m m' = (mm_out m' = mm_out m \<and> mm_reports m' = mm_reports m)"

lemma same_sent_refl [simp]: "same_sent m m"
  by (simp add: same_sent_def)

lemma same_sent_trans: "same_sent m m1 \<Longrightarrow> same_sent m1 m2 \<Longrightarrow> same_sent m m2"
  by (simp add: same_sent_def)

lemma same_sent_print [simp]: "same_sent m (mm_print l m1) = same_sent m m1"
  by (simp add: same_sent_def mm_print_def)

lemma same_sent_recv: "mm_recv from_json m = (m1, r) \<Longrightarrow> same_sent m m1"
  by (auto simp: same_sent_def mm_recv_def split: prod.splits)

lemma same_sent_until: "same_sent m (fst (recv_until from_json w select n m))"
proof (induction n arbitrary: m)
  case (Suc n)
  obtain m1 r where r: "mm_recv from_json m = (m1, r)" by (cases "mm_recv from_json m")
  have step: "same_sent m (fst (recv_until from_json w select n m2))" if "same_sent m m2" for m2
    by (rule same_sent_trans[OF that Suc])
  show ?case using same_sent_recv[OF r]
    by (simp add: r step split: sum.split option.split selected.split engine_message.split)
qed simp

lemma same_sent_response:
  assumes "recv_response_skip_heartbeats from_json n m = (m1, r)"
  shows "same_sent m m1"
proof -
  have "m1 = fst (recv_response_skip_heartbeats from_json n m)" using assms by simp
  then show ?thesis by (simp only: recv_response_skip_heartbeats_def same_sent_until)
qed

lemma same_sent_drain: "same_sent m (drain_delay from_json n m)"
proof (induction n arbitrary: m)
  case (Suc n)
  obtain m1 r where r: "mm_recv from_json m = (m1, r)" by (cases "mm_recv from_json m")
  have step: "same_sent m (drain_delay from_json n m2)" if "same_sent m m2" for m2
    by (rule same_sent_trans[OF that Suc])
  note s = same_sent_recv[OF r]
  show ?case
  proof (cases r)
    case (Inl e)
    then show ?thesis using s by (simp add: r step)
  next
    case (Inr x)
    then show ?thesis using s by (cases x rule: option.exhaust) (simp_all add: r step split: engine_message.split)
  qed
qed simp

lemma same_sent_count: "same_sent m (fst (count_heartbeats from_json line other n k m))"
proof (induction n arbitrary: k m)
  case (Suc n)
  obtain m1 r where r: "mm_recv from_json m = (m1, r)" by (cases "mm_recv from_json m")
  have step: "same_sent m (fst (count_heartbeats from_json line other n j m2))" if "same_sent m m2" for j m2
    by (rule same_sent_trans[OF that Suc])
  show ?case using same_sent_recv[OF r]
    by (simp add: r step split: sum.split option.split selected.split engine_message.split)
qed simp

lemma send_and_wait_ok:
  assumes "send_and_wait T to_json from_json x i cmd m = (m', Inr ())"
  shows "mm_out m' = mm_out m @ directive_bytes to_json [\<lparr> seq_id = i, commands = [cmd] \<rparr>] \<and>
    map report_number (mm_reports m') = map report_number (mm_reports m) @ [i] \<and>
    \<not> isl (to_json (Directive \<lparr> seq_id = i, commands = [cmd] \<rparr>))"
proof -
  let ?d = "Directive \<lparr> seq_id = i, commands = [cmd] \<rparr>"
  obtain out where w: "send_message ''ManagerMessage'' to_json (ex_write x) ?d (mm_out m) = (out, Inr ())"
    using assms unfolding send_and_wait_def manager_wire_is_engine_wire by (auto split: prod.splits sum.splits)
  then obtain json where j: "to_json ?d = Inr json" "out = mm_out m @ frame json"
    by (auto simp: send_message_Inr)
  let ?m = "mm_print (xt_sent T) (m\<lparr>mm_out := out\<rparr>)"
  obtain m1 r where r: "recv_response_skip_heartbeats from_json (ex_response_turns x) ?m = (m1, r)" by fastforce
  have k: "mm_out m1 = out" "mm_reports m1 = mm_reports m"
    using same_sent_response[OF r] by (simp_all add: same_sent_def mm_print_def)
  have "(case r of Inl e \<Rightarrow> (m1, Inl e)
      | Inr (Some a) \<Rightarrow> (mm_print (xt_response T a) (m1\<lparr>mm_console := mm_console m1 @ fst (validate_response i a 1),
          mm_reports := mm_reports m1 @ [Answered i a (snd (validate_response i a 1))]\<rparr>), Inr ())
      | Inr None \<Rightarrow> (mm_print (xt_timed_out T) (m1\<lparr>mm_reports := mm_reports m1 @ [TimedOutFor i]\<rparr>), Inr ())) = (m', Inr ())"
    using assms unfolding send_and_wait_def manager_wire_is_engine_wire w
    by (simp add: r Let_def case_prod_unfold split: sum.splits option.splits)
  then show ?thesis using j k
    by (auto simp: directive_bytes_def mm_print_def split: sum.splits option.splits)
qed

lemma scenario_loop_ok:
  assumes "scenario_loop D to_json from_json xs n k cs i m = (m', Inr ())"
  shows "\<exists>cmds. map (\<lambda>c. build_command (entry_params c)) cs = map Inr cmds \<and>
    mm_out m' = mm_out m @ directive_bytes to_json (numbered i cmds) \<and>
    map report_number (mm_reports m') = map report_number (mm_reports m) @ map seq_id (numbered i cmds) \<and>
    list_all (\<lambda>d. \<not> isl (to_json (Directive d))) (numbered i cmds)"
  using assms
proof (induction cs arbitrary: k i m)
  case Nil
  then show ?case by (simp add: directive_bytes_def)
next
  case (Cons c cs)
  let ?x = "xs (i + 1)"
  let ?m1 = "if 0 < sm_delay_ms c
     then drain_delay from_json (ex_delay_turns ?x) (mm_print (''  Waiting '' @ show_word (sm_delay_ms c) @ ''ms...'') m) else m"
  have "same_sent m ?m1"
    using same_sent_trans[OF _ same_sent_drain, of m] by simp
  then have fr: "mm_out ?m1 = mm_out m" "mm_reports ?m1 = mm_reports m" by (simp_all only: same_sent_def)
  obtain cmd where cmd: "build_command (entry_params c) = Inr cmd"
    using Cons.prems by (auto simp: Let_def split: sum.splits)
  obtain m2 where m2: "send_and_wait (entry_text D n k (i + 1) (sm_command c)) to_json from_json ?x (i + 1) cmd ?m1 = (m2, Inr ())"
    "scenario_loop D to_json from_json xs n (k + 1) cs (i + 1) m2 = (m', Inr ())"
    using Cons.prems cmd by (auto simp: Let_def split: sum.splits prod.splits)
  note sw = send_and_wait_ok[OF m2(1), unfolded fr]
  obtain cmds where ih: "map (\<lambda>c. build_command (entry_params c)) cs = map Inr cmds"
    "mm_out m' = mm_out m2 @ directive_bytes to_json (numbered (i + 1) cmds)"
    "map report_number (mm_reports m') = map report_number (mm_reports m2) @ map seq_id (numbered (i + 1) cmds)"
    "list_all (\<lambda>d. \<not> isl (to_json (Directive d))) (numbered (i + 1) cmds)"
    using Cons.IH[OF m2(2)] by blast
  show ?case
    by (rule exI[of _ "cmd # cmds"]) (use ih sw cmd in \<open>simp add: directive_bytes_def\<close>)
qed

lemma run_scenario_ok:
  assumes "run_scenario D fs parse to_json from_json xs path m = (m', Inr ())"
  shows "\<exists>sc content cmds. read_to_string fs path = Some content \<and> parse content = Inr sc \<and>
    map (\<lambda>c. build_command (entry_params c)) (cs_commands sc) = map Inr cmds \<and>
    mm_out m' = mm_out m @ directive_bytes to_json (numbered 0 cmds) \<and>
    map report_number (mm_reports m') = map report_number (mm_reports m) @ map seq_id (numbered 0 cmds) \<and>
    list_all (\<lambda>d. \<not> isl (to_json (Directive d))) (numbered 0 cmds)"
proof -
  obtain content sc m2 m3 where f: "read_to_string fs path = Some content" "parse content = Inr sc"
    and l: "scenario_loop D to_json from_json xs (length (cs_commands sc)) 0 (cs_commands sc) 0 m2 = (m3, Inr ())"
    and m: "same_sent m m2" "same_sent m3 m'"
    using assms by (auto simp: run_scenario_def Let_def split: option.splits sum.splits prod.splits)
  then show ?thesis using scenario_loop_ok[OF l] by (auto simp: same_sent_def)
qed

text \<open>What the engine reads when the frames of a list of directives arrive.\<close>

definition directive_pieces :: "(manager_message \<Rightarrow> u8 list res) \<Rightarrow> engine_directive list \<Rightarrow> piece list" where
  "directive_pieces to_json ds =
     map (\<lambda>d. Sent d (case to_json (Directive d) of Inr json \<Rightarrow> json | Inl e \<Rightarrow> [])) ds"

lemma pieces_bytes:
  assumes "list_all (\<lambda>d. \<not> isl (to_json (Directive d))) ds"
  shows "concat (map piece_events (directive_pieces to_json ds)) = map Byte (directive_bytes to_json ds)"
  using assms by (induction ds) (auto simp: directive_pieces_def directive_bytes_def split: sum.splits)

lemma pieces_directives: "sent_directives (directive_pieces to_json ds) = ds"
  by (induction ds) (simp_all add: directive_pieces_def)

text \<open>A directive whose JSON fits a frame and is read back by the engine, and whose answers fit.\<close>

definition understood ::
  "(manager_message \<Rightarrow> u8 list res) \<Rightarrow> (u8 list \<Rightarrow> manager_message res) \<Rightarrow> (engine_message \<Rightarrow> u8 list res) \<Rightarrow>
   (u8 list \<Rightarrow> engine_message res) \<Rightarrow> engine_directive \<Rightarrow> bool" where
  "understood to_json from_wire answer_json from_json d =
     ((\<forall>json. to_json (Directive d) = Inr json \<longrightarrow> length json < 2 ^ 32 \<and> from_wire json = Inr (Directive d)) \<and>
      answerable answer_json from_json d)"

lemma pieces_fine:
  assumes "list_all (\<lambda>d. \<not> isl (to_json (Directive d))) ds"
    and "list_all (understood to_json from_wire answer_json from_json) ds"
  shows "list_all (piece_fine answer_json from_json from_wire) (directive_pieces to_json ds)"
  using assms
  by (induction ds) (auto simp: directive_pieces_def piece_fine_def understood_def split: sum.splits)

section \<open>Properties\<close>

text \<open>C13: A scenario that runs to its end has sent one directive for each entry, with the numbers 1, 2,
  and so on, and has reported on each of them in that order; the engine that receives these bytes and
  has a turn for each answers exactly these directives.  What is asked of the JSON library concerns
  the directives of this scenario only: what is written of them is read back.\<close>

theorem scenario_reaches_engine:
  assumes "run_scenario D fs parse to_json from_json xs path (manager_connected s) = (m, Inr ())"
    and "\<And>e. encodes answer_json from_json (Heartbeat (mock_status e))"
    and "\<And>content sc cmds d. read_to_string fs path = Some content \<Longrightarrow> parse content = Inr sc \<Longrightarrow>
      map (\<lambda>c. build_command (entry_params c)) (cs_commands sc) = map Inr cmds \<Longrightarrow>
      d \<in> set (numbered 0 cmds) \<Longrightarrow> understood to_json from_wire answer_json from_json d"
    and "list_all (iteration_fine a) its" and "length its = length (mm_reports m)"
  shows "\<exists>sc content cmds. read_to_string fs path = Some content \<and> parse content = Inr sc \<and>
    map (\<lambda>c. build_command (entry_params c)) (cs_commands sc) = map Inr cmds \<and>
    map report_number (mm_reports m) = map seq_id (numbered 0 cmds) \<and>
    answers (reader_loop from_json (pr_out (run_protocol E answer_json from_wire a its t (map Byte (mm_out m))))) (numbered 0 cmds)"
proof -
  obtain content sc cmds where c: "read_to_string fs path = Some content" "parse content = Inr sc"
    "map (\<lambda>c. build_command (entry_params c)) (cs_commands sc) = map Inr cmds"
    "mm_out m = directive_bytes to_json (numbered 0 cmds)" "map report_number (mm_reports m) = map seq_id (numbered 0 cmds)"
    "list_all (\<lambda>d. \<not> isl (to_json (Directive d))) (numbered 0 cmds)"
    using run_scenario_ok[OF assms(1)] by (auto simp: manager_connected_def)
  have "list_all (understood to_json from_wire answer_json from_json) (numbered 0 cmds)"
    using assms(3)[OF c(1-3)] by (simp add: list_all_iff)
  note pf = pieces_fine[OF c(6) this]
  have "length its = length (directive_pieces to_json (numbered 0 cmds))"
    using assms(5) arg_cong[OF c(5), of length] by (simp add: directive_pieces_def)
  from run_protocol_answers[OF assms(2,4) pf this] show ?thesis
    using c by (auto simp: pieces_bytes pieces_directives)
qed

text \<open>An example: a JSON stand-in of two bytes for every directive of one command without a number, and
  for every answer with one result, that gives back what it wrote.\<close>

definition plain_commands :: "engine_command list" where
  "plain_commands = [Suspend, Resume, RestoreDefaults, GpuOffload False, GpuOffload True]"

definition plain_encode :: "manager_message \<Rightarrow> u8 list res" where
  "plain_encode m =
     (case m of
        Directive d \<Rightarrow>
          (case find (\<lambda>k. commands d = [plain_commands ! k]) [0..<length plain_commands] of
             Some k \<Rightarrow> if seq_id d < 256 then Inr [ucast (seq_id d), of_nat k] else Inl ''not serialisable''
           | None \<Rightarrow> Inl ''not serialisable''))"

definition plain_decode :: "u8 list \<Rightarrow> manager_message res" where
  "plain_decode bs =
     (case bs of
        [i, k] \<Rightarrow>
          if unat k < length plain_commands
          then Inr (Directive \<lparr> seq_id = ucast i, commands = [plain_commands ! unat k] \<rparr>)
          else Inl ''unknown''
      | _ \<Rightarrow> Inl ''unknown'')"

definition answer_encode :: "engine_message \<Rightarrow> u8 list res" where
  "answer_encode m =
     (case m of
        Heartbeat st \<Rightarrow> Inr [0]
      | Response r \<Rightarrow> Inr [ucast (resp_seq_id r), if results r = [ResultOk] then 1 else 2])"

definition answer_decode :: "u8 list \<Rightarrow> engine_message res" where
  "answer_decode bs =
     (case bs of
        [n] \<Rightarrow> Inr (Heartbeat (mock_status (mock_engine_new (Fin 1) [])))
      | [i, k] \<Rightarrow> Inr (Response \<lparr> resp_seq_id = ucast i, results =
          [if k = 1 then ResultOk
           else Partial (Fin 1) ''compression declined: too little would be reclaimed''] \<rparr>)
      | _ \<Rightarrow> Inl ''unknown'')"

definition two_scenario :: command_scenario where
  "two_scenario = \<lparr> cs_name = ''two'', cs_description = None,
     cs_commands = [\<lparr> sm_delay_ms = 0, sm_command = ''Suspend'', sm_keep_ratio = None \<rparr>,
       \<lparr> sm_delay_ms = 0, sm_command = ''Resume'', sm_keep_ratio = None \<rparr>] \<rparr>"

definition one_file :: file_system where
  "one_file = \<lparr> read_to_string = (\<lambda>p. Some []), path_exists = (\<lambda>p. True), read_dir = (\<lambda>p. None) \<rparr>"

definition no_wait :: "u64 \<Rightarrow> exchange" where
  "no_wait i = \<lparr> ex_delay_turns = 0, ex_write = WriteOk, ex_response_turns = 0 \<rparr>"

definition quick_args :: protocol_args where
  "quick_args = \<lparr> pa_duration_secs = 1, pa_heartbeat_ms = 0, pa_kv_occupancy = Fin (1/2), pa_device = ''cpu'' \<rparr>"

lemma two_commands:
  "map (\<lambda>c. build_command (entry_params c)) (cs_commands two_scenario) = map Inr cmds \<longleftrightarrow> cmds = [Suspend, Resume]"
proof -
  have "map (\<lambda>c. build_command (entry_params c)) (cs_commands two_scenario) = map Inr [Suspend, Resume]"
    by (simp add: two_scenario_def build_command_def entry_params_def)
  moreover have "inj (Inr :: engine_command \<Rightarrow> string + engine_command)" by (rule injI) simp
  ultimately show ?thesis using map_injective by metis
qed

lemma plain_numbered: "numbered 0 [Suspend, Resume] = [\<lparr> seq_id = 1, commands = [Suspend] \<rparr>, \<lparr> seq_id = 2, commands = [Resume] \<rparr>]"
  by simp

lemma plain_encode_two:
  "plain_encode (Directive \<lparr> seq_id = 1, commands = [Suspend] \<rparr>) = Inr [1, 0]"
  "plain_encode (Directive \<lparr> seq_id = 2, commands = [Resume] \<rparr>) = Inr [2, 1]"
  by (simp_all add: plain_encode_def plain_commands_def upt_rec)

lemma plain_decode_two:
  "plain_decode [1, 0] = Inr (Directive \<lparr> seq_id = 1, commands = [Suspend] \<rparr>)"
  "plain_decode [2, 1] = Inr (Directive \<lparr> seq_id = 2, commands = [Resume] \<rparr>)"
  by (simp_all add: plain_decode_def plain_commands_def)

lemma plain_answerable:
  assumes "seq_id d < 256" and "length (commands d) = 1"
  shows "answerable answer_encode answer_decode d"
proof -
  have "unat (ucast (ucast (seq_id d) :: u8) :: u64) = unat (seq_id d)"
    using assms(1) by (simp add: unsigned_ucast_eq unsigned_take_bit_eq take_bit_nat_def word_less_nat_alt)
  then have u: "ucast (ucast (seq_id d) :: u8) = seq_id d" by (rule unsigned_word_eqI)
  show ?thesis unfolding answerable_def
  proof (intro allI impI)
    fix rs assume "length rs = length (commands d)" and "set rs \<subseteq> mock_results"
    then obtain r where "rs = [r]" "r \<in> mock_results" using assms(2) by (auto simp: length_Suc_conv)
    then show "encodes answer_encode answer_decode (Response \<lparr> resp_seq_id = seq_id d, results = rs \<rparr>)"
      by (auto simp: encodes_def answer_encode_def answer_decode_def mock_results_def MAX_PAYLOAD_SIZE_def u)
  qed
qed

lemma two_understood:
  assumes "d \<in> set (numbered 0 [Suspend, Resume])"
  shows "understood plain_encode plain_decode answer_encode answer_decode d"
proof -
  have "d = \<lparr> seq_id = 1, commands = [Suspend] \<rparr> \<or> d = \<lparr> seq_id = 2, commands = [Resume] \<rparr>"
    using assms unfolding plain_numbered by simp
  then show ?thesis
    by (elim disjE) (simp_all add: understood_def plain_encode_two plain_decode_two plain_answerable)
qed

theorem scenario_reaches_engine_witness:
  "\<exists>m. run_scenario plain_debug one_file (\<lambda>c. Inr two_scenario) plain_encode answer_decode no_wait ''s.json''
       (manager_connected []) = (m, Inr ()) \<and>
     answers (reader_loop answer_decode (pr_out (run_protocol plain_debug answer_encode plain_decode quick_args
       [example_turn, example_turn] 0 (map Byte (mm_out m)))))
       [\<lparr> seq_id = 1, commands = [Suspend] \<rparr>, \<lparr> seq_id = 2, commands = [Resume] \<rparr>]"
proof -
  obtain m where r: "run_scenario plain_debug one_file (\<lambda>c. Inr two_scenario) plain_encode answer_decode no_wait ''s.json''
       (manager_connected []) = (m, Inr ())" and rep: "mm_reports m = [TimedOutFor 1, TimedOutFor 2]"
    by (simp add: run_scenario_def one_file_def two_scenario_def build_command_def entry_params_def send_and_wait_def
        manager_wire_is_engine_wire send_message_def plain_encode_two no_wait_def
        recv_response_skip_heartbeats_def mm_print_def manager_connected_def Let_def)
  have h: "encodes answer_encode answer_decode (Heartbeat (mock_status e))" for e
    by (simp add: encodes_def answer_encode_def answer_decode_def mock_status_def MAX_PAYLOAD_SIZE_def)
  have u: "understood plain_encode plain_decode answer_encode answer_decode d"
    if "(Inr two_scenario :: command_scenario res) = Inr sc" "d \<in> set (numbered 0 cmds)"
      "map (\<lambda>c. build_command (entry_params c)) (cs_commands sc) = map Inr cmds" for sc cmds d
    using that two_understood two_commands by auto
  have t: "list_all (iteration_fine quick_args) [example_turn, example_turn]"
    by (simp add: iteration_fine_def example_turn_def quick_args_def NANOS_PER_SEC_def)
  have "\<exists>sc content cmds. read_to_string one_file ''s.json'' = Some content \<and> (Inr two_scenario :: command_scenario res) = Inr sc \<and>
      map (\<lambda>c. build_command (entry_params c)) (cs_commands sc) = map Inr cmds \<and>
      map report_number (mm_reports m) = map seq_id (numbered 0 cmds) \<and>
      answers (reader_loop answer_decode (pr_out (run_protocol plain_debug answer_encode plain_decode quick_args
        [example_turn, example_turn] 0 (map Byte (mm_out m))))) (numbered 0 cmds)"
    by (rule scenario_reaches_engine[OF r h _ t]) (simp_all add: u rep)
  then show ?thesis using r two_commands by auto
qed

text \<open>The first response that arrives is taken for the answer, whatever its number: when the answer to
  the first directive comes after the wait for it has ended, it is reported as the invalid answer
  to the second.\<close>

lemma late_response_misattributed:
  assumes "to_json (Directive \<lparr> seq_id = 1, commands = [c] \<rparr>) = Inr j" and "to_json (Directive \<lparr> seq_id = 2, commands = [d] \<rparr>) = Inr k"
    and "length json < 2 ^ 32" and "from_json json = Inr (Response r)" and "resp_seq_id r = 1"
  shows "mm_reports (fst (send_and_wait T to_json from_json \<lparr> ex_delay_turns = 0, ex_write = WriteOk, ex_response_turns = Suc n \<rparr> 2 d
      (fst (send_and_wait T' to_json from_json \<lparr> ex_delay_turns = 0, ex_write = WriteOk, ex_response_turns = 0 \<rparr> 1 c
        (manager_connected (map Byte (frame json) @ s)))))) =
    [TimedOutFor 1, Answered 2 r False]"
  using assms(1,2,5) recv_frame[OF assms(3), where from_json = from_json and m = "Response r" and s = s, OF assms(4)]
  by (simp add: send_and_wait_def manager_wire_is_engine_wire send_message_def recv_response_skip_heartbeats_def
      validate_response_def Let_def mm_recv_def mm_print_def manager_connected_def)

text \<open>The entry of a scenario that gives a signal field by field.\<close>

definition blank_entry :: "string \<Rightarrow> level \<Rightarrow> dbus_scenario_signal" where
  "blank_entry name l =
     \<lparr> ds_delay_ms = 0, ds_signal = name, ds_level = level_to_str l, ds_available_bytes = None,
       ds_reclaim_target_bytes = None, ds_recommended_backend = None, ds_reason = None,
       ds_cpu_usage_pct = None, ds_gpu_usage_pct = None, ds_temperature_mc = None,
       ds_throttling_active = None, ds_throttle_ratio = None, ds_power_budget_mw = None \<rparr>"

fun entry_of :: "system_signal \<Rightarrow> dbus_scenario_signal" where
  "entry_of (MemoryPressure l a t r) = (blank_entry ''MemoryPressure'' l)
     \<lparr> ds_available_bytes := Some a, ds_reclaim_target_bytes := Some r \<rparr>"
| "entry_of (ComputeGuidance l b r c g) = (blank_entry ''ComputeGuidance'' l)
     \<lparr> ds_recommended_backend := Some (backend_to_str b), ds_reason := Some (compute_reason_to_str r),
       ds_cpu_usage_pct := Some c, ds_gpu_usage_pct := Some g \<rparr>"
| "entry_of (ThermalAlert l t th r) = (blank_entry ''ThermalAlert'' l)
     \<lparr> ds_temperature_mc := Some t, ds_throttling_active := Some th, ds_throttle_ratio := Some r \<rparr>"
| "entry_of (EnergyConstraint l r p) = (blank_entry ''EnergyConstraint'' l)
     \<lparr> ds_reason := Some (energy_reason_to_str r), ds_power_budget_mw := Some p \<rparr>"

fun is_memory :: "system_signal \<Rightarrow> bool" where
  "is_memory (MemoryPressure l a t r) = True"
| "is_memory sg = False"

text \<open>A bus that keeps what is put on it.\<close>

definition recording_bus :: "dbus_message list \<Rightarrow> dbus_message \<Rightarrow> dbus_message list \<times> unit res" where
  "recording_bus c msg = (c @ [msg], Inr ())"

lemma emit_entry_of:
  "\<exists>msg. emit_scenario_signal (entry_of sg) = Inr msg \<and> (msg = dbus_body sg \<longleftrightarrow> \<not> is_memory sg)"
  by (cases sg) (simp_all add: emit_scenario_signal_def blank_entry_def unwrap_or_def)

lemma replay_bus:
  "\<exists>body printed. run_dbus_scenario recording_bus n k (map entry_of sgs) (c, p) = ((c @ body, printed), Inr ()) \<and>
     (body = map dbus_body sgs \<longleftrightarrow> \<not> list_ex is_memory sgs)"
proof (induction sgs arbitrary: k c p)
  case (Cons sg sgs)
  obtain msg where msg: "emit_scenario_signal (entry_of sg) = Inr msg" "msg = dbus_body sg \<longleftrightarrow> \<not> is_memory sg"
    using emit_entry_of by blast
  let ?p = "p @ (if 0 < ds_delay_ms (entry_of sg) then [''  Waiting '' @ show_word (ds_delay_ms (entry_of sg)) @ ''ms...''] else [])
    @ [emitted_text n k (entry_of sg)]"
  obtain body printed where
    "run_dbus_scenario recording_bus n (k + 1) (map entry_of sgs) (c @ [msg], ?p) = ((c @ msg # body, printed), Inr ())"
    "body = map dbus_body sgs \<longleftrightarrow> \<not> list_ex is_memory sgs"
    using Cons.IH[of "k + 1" "c @ [msg]" ?p] by auto
  moreover have "recording_bus c msg = (c @ [msg], Inr ())" by (simp add: recording_bus_def)
  ultimately have "run_dbus_scenario recording_bus n k (map entry_of (sg # sgs)) (c, p) = ((c @ msg # body, printed), Inr ())"
    using msg(1) by (simp add: Let_def)
  then show ?case using msg(2) \<open>(body = map dbus_body sgs) = (\<not> list_ex is_memory sgs)\<close>
    by (intro exI[of _ "msg # body"] exI[of _ printed]) auto
qed simp

text \<open>C32: In its D-Bus mode the stand-in replays a list of signals, each written as an entry field by
  field, with the very messages of the production emitter exactly when no memory signal is among
  them; and whatever an entry says, it does not give the message of a memory signal, which has the
  total memory between the available and the reclaimed bytes.  Fields that an entry leaves out are
  those of a device at rest.\<close>

theorem mock_dbus_reproduces:
  "((\<exists>printed. run_dbus_scenario recording_bus n 0 (map entry_of sgs) ([], p) = ((map dbus_body sgs, printed), Inr ()))
     \<longleftrightarrow> \<not> list_ex is_memory sgs) \<and>
   emit_scenario_signal e \<noteq> Inr (dbus_body (MemoryPressure l a t r)) \<and>
   emit_scenario_signal (blank_entry ''ComputeGuidance'' l) = Inr (dbus_body (ComputeGuidance l Any Balanced (Fin 0) (Fin 0))) \<and>
   emit_scenario_signal (blank_entry ''ThermalAlert'' l) = Inr (dbus_body (ThermalAlert l 25000 False (Fin 1))) \<and>
   emit_scenario_signal (blank_entry ''EnergyConstraint'' l) = Inr (dbus_body (EnergyConstraint l NoReason 0))"
proof -
  obtain body printed where
    "run_dbus_scenario recording_bus n 0 (map entry_of sgs) ([], p) = ((body, printed), Inr ())"
    "body = map dbus_body sgs \<longleftrightarrow> \<not> list_ex is_memory sgs"
    using replay_bus[of n 0 sgs "[]" p] by auto
  then have "(\<exists>printed. run_dbus_scenario recording_bus n 0 (map entry_of sgs) ([], p) = ((map dbus_body sgs, printed), Inr ()))
     \<longleftrightarrow> \<not> list_ex is_memory sgs" by auto
  then show ?thesis by (auto simp: emit_scenario_signal_def blank_entry_def unwrap_or_def)
qed

end
