(* ===== verification/Mock_Programs.thy ===== *)
theory Mock_Programs
  imports Mock_Manager
begin

text \<open>
  The two stand-in programs from their entry points on (\<^verbatim>\<open>main\<close> of \<^verbatim>\<open>src/bin/mock_engine.rs\<close> and
  \<^verbatim>\<open>src/bin/mock_manager.rs\<close>): connecting and accepting, the choice between the transports, the D-Bus
  mode, all with what they print.  Whether a call of the operating system or of the bus succeeds is
  a parameter.
\<close>

section \<open>The engine\<close>

record engine_args =
  ea_socket :: string
  ea_tcp :: "string option"
  ea_protocol :: protocol_args

text \<open>The arguments of a command line that gives none.\<close>

definition engine_args_default :: engine_args where
  "engine_args_default =
     \<lparr> ea_socket = ''/tmp/argus_manager.sock'', ea_tcp = None,
       ea_protocol = \<lparr> pa_duration_secs = 30, pa_heartbeat_ms = 100, pa_kv_occupancy = Fin (1 / 2), pa_device = ''opencl'' \<rparr> \<rparr>"

record connect_outcome =
  co_connects :: bool
  co_read_timeout :: bool

definition connect_stream :: "string \<Rightarrow> connect_outcome \<Rightarrow> unit res" where
  "connect_stream what oc =
     (if \<not> co_connects oc then Inl what
      else if \<not> co_read_timeout oc then Inl ''set_read_timeout''
      else Inr ())"

text \<open>What is printed, and the end of the run or the error of the connection.\<close>

definition mock_engine_main ::
  "wire_debug \<Rightarrow> (engine_message \<Rightarrow> u8 list res) \<Rightarrow> (u8 list \<Rightarrow> manager_message res) \<Rightarrow> engine_args \<Rightarrow> connect_outcome \<Rightarrow>
   iteration list \<Rightarrow> duration \<Rightarrow> sock_event list \<Rightarrow> console_line list \<times> (string + protocol)" where
  "mock_engine_main D to_json from_json a oc its elapsed s =
     (case ea_tcp a of
        Some peer \<Rightarrow>
          (let l = Stdout (''[MockEngine] Connecting via TCP to '' @ peer) in
           case connect_stream (''TCP connect to '' @ peer) oc of
             Inl e \<Rightarrow> ([l], Inl e)
           | Inr _ \<Rightarrow>
               (let p = run_protocol D to_json from_json (ea_protocol a) its elapsed s in (l # pr_console p, Inr p)))
      | None \<Rightarrow>
          (let l = Stdout (''[MockEngine] Connecting to '' @ ea_socket a) in
           case connect_stream (''connect to '' @ ea_socket a) oc of
             Inl e \<Rightarrow> ([l], Inl e)
           | Inr _ \<Rightarrow>
               (let p = run_protocol D to_json from_json (ea_protocol a) its elapsed s in (l # pr_console p, Inr p))))"

section \<open>The manager: transports\<close>

text \<open>Whether each call succeeds, and the address of the peer as it is printed.\<close>

record accept_env =
  ae_bind :: bool
  ae_accept :: bool
  ae_peer :: string
  ae_read_timeout :: bool

definition accept_tcp :: "string \<Rightarrow> accept_env \<Rightarrow> string list \<times> unit res" where
  "accept_tcp host oc =
     (if \<not> ae_bind oc then ([], Inl (''TCP bind to '' @ host))
      else
        (let l = ''[MockManager] Listening on TCP '' @ host @ ''...'' in
         if \<not> ae_accept oc then ([l], Inl ''TCP accept'')
         else
           (let ls = [l, ''[MockManager] Engine connected from '' @ ae_peer oc] in
            if \<not> ae_read_timeout oc then (ls, Inl ''set_read_timeout'') else (ls, Inr ()))))"

definition accept_unix :: "string \<Rightarrow> accept_env \<Rightarrow> string list \<times> unit res" where
  "accept_unix path oc =
     (if \<not> ae_bind oc then ([], Inl (''Unix bind to '' @ path))
      else
        (let ls = [''[MockManager] Listening on '' @ path @ ''...''] in
         if \<not> ae_accept oc then (ls, Inl ''Unix accept'')
         else if \<not> ae_read_timeout oc then (ls, Inl ''set_read_timeout'')
         else (ls, Inr ())))"

record dbus_scenario =
  dsc_name :: string
  dsc_description :: "string option"
  dsc_signals :: "dbus_scenario_signal list"

record socket_args =
  sa_socket :: string
  sa_tcp :: "string option"
  sa_dbus :: bool
  sa_signal :: "string option"
  sa_level :: "string option"
  sa_single :: dbus_scenario_signal
  sa_manager :: manager_args

definition socket_args_default :: socket_args where
  "socket_args_default =
     \<lparr> sa_socket = ''/tmp/argus_manager.sock'', sa_tcp = None, sa_dbus = False, sa_signal = None, sa_level = None,
       sa_single = \<lparr> ds_delay_ms = 0, ds_signal = [], ds_level = [], ds_available_bytes = None, ds_reclaim_target_bytes = None,
         ds_recommended_backend = None, ds_reason = None, ds_cpu_usage_pct = None, ds_gpu_usage_pct = None,
         ds_temperature_mc = None, ds_throttling_active = None, ds_throttle_ratio = None, ds_power_budget_mw = None \<rparr>,
       sa_manager = \<lparr> ma_scenario = None, ma_command = None, ma_wait_secs = 2, ma_keep_ratio = None, ma_every = None,
         ma_on = None \<rparr> \<rparr>"

text \<open>What the program reads and decodes, and the turns of its waits.\<close>

record mock_world =
  mw_debug :: wire_debug
  mw_files :: file_system
  mw_parse :: "string \<Rightarrow> command_scenario res"
  mw_parse_dbus :: "string \<Rightarrow> dbus_scenario res"
  mw_to_json :: "manager_message \<Rightarrow> u8 list res"
  mw_from_json :: "u8 list \<Rightarrow> engine_message res"
  mw_accept :: accept_env
  mw_wait_turns :: nat
  mw_exchange :: "u64 \<Rightarrow> exchange"
  mw_observe_turns :: nat

definition run_socket_mode ::
  "mock_world \<Rightarrow> socket_args \<Rightarrow> sock_event list \<Rightarrow> console_line list \<times> (string + (manager_end \<times> u32 res))" where
  "run_socket_mode W a s =
     (case (case sa_tcp a of Some host \<Rightarrow> accept_tcp host (mw_accept W) | None \<Rightarrow> accept_unix (sa_socket a) (mw_accept W)) of
        (ls, Inl e) \<Rightarrow> (map Stdout ls, Inl e)
      | (ls, Inr _) \<Rightarrow>
          (let r = mock_run_protocol (mw_debug W) (mw_files W) (mw_parse W) (mw_to_json W) (mw_from_json W) (sa_manager a)
                     (mw_wait_turns W) (mw_exchange W) (mw_observe_turns W) (manager_connected s)
           in (map Stdout ls @ mm_console (fst r), Inr r)))"

definition play_dbus_scenario ::
  "mock_world \<Rightarrow> ('c \<Rightarrow> dbus_message \<Rightarrow> 'c \<times> unit res) \<Rightarrow> string \<Rightarrow> 'c \<times> string list \<Rightarrow> ('c \<times> string list) \<times> unit res" where
  "play_dbus_scenario W bus path c =
     (case read_to_string (mw_files W) path of
        None \<Rightarrow> (c, Inl ''read'')
      | Some content \<Rightarrow>
          (case mw_parse_dbus W content of
             Inl e \<Rightarrow> (c, Inl e)
           | Inr sc \<Rightarrow>
               (let n = length (dsc_signals sc);
                    ls = (''Playing scenario: '' @ dsc_name sc @ '' ('' @ show_nat n @ '' signals)'')
                         # (case dsc_description sc of Some desc \<Rightarrow> [''  '' @ desc] | None \<Rightarrow> [])
                in case run_dbus_scenario bus n 0 (dsc_signals sc) (apsnd (\<lambda>printed. printed @ ls) c) of
                     (c1, Inl e) \<Rightarrow> (c1, Inl e)
                   | (c1, Inr _) \<Rightarrow> (apsnd (\<lambda>printed. printed @ [''Scenario complete.'']) c1, Inr ()))))"

definition send_single ::
  "('c \<Rightarrow> dbus_message \<Rightarrow> 'c \<times> unit res) \<Rightarrow> socket_args \<Rightarrow> string \<Rightarrow> 'c \<times> string list \<Rightarrow> ('c \<times> string list) \<times> unit res" where
  "send_single bus a name c =
     (case emit_single (sa_level a) ((sa_single a)\<lparr>ds_signal := name\<rparr>) of
        Inl e \<Rightarrow> (c, Inl e)
      | Inr msg \<Rightarrow>
          (case bus (fst c) msg of
             (c1, Inl e) \<Rightarrow> ((c1, snd c), Inl e)
           | (c1, Inr _) \<Rightarrow>
               ((c1, snd c @ [''Emitted '' @ name @ '' (level='' @ unwrap_or (sa_level a) ''normal'' @ '')'']), Inr ())))"

definition mock_manager_name :: string where
  "mock_manager_name = ''org.llm.Manager1''"

text \<open>A system bus that refuses the connection or the name ends the program before anything is sent.\<close>

definition run_dbus_mode ::
  "mock_world \<Rightarrow> ('c \<Rightarrow> dbus_message \<Rightarrow> 'c \<times> unit res) \<Rightarrow> bool \<Rightarrow> bool \<Rightarrow> socket_args \<Rightarrow> 'c \<Rightarrow> ('c \<times> string list) \<times> unit res" where
  "run_dbus_mode W bus connects named a c =
     (if \<not> connects then ((c, []), Inl ''system bus'')
      else if \<not> named then ((c, []), Inl ''request_name'')
      else
        (let c1 = (c, [''Registered as '' @ mock_manager_name @ '' on System Bus'']) in
         case ma_scenario (sa_manager a) of
           Some path \<Rightarrow> play_dbus_scenario W bus path c1
         | None \<Rightarrow>
             (case sa_signal a of
                Some name \<Rightarrow> send_single bus a name c1
              | None \<Rightarrow> (c1, Inl ''D-Bus mode requires --signal or --scenario''))))"

datatype 'c mock_result =
    OverDbus "('c \<times> string list) \<times> unit res"
  | OverSocket "console_line list \<times> (string + (manager_end \<times> u32 res))"

definition mock_manager_main ::
  "mock_world \<Rightarrow> ('c \<Rightarrow> dbus_message \<Rightarrow> 'c \<times> unit res) \<Rightarrow> bool \<Rightarrow> bool \<Rightarrow> socket_args \<Rightarrow> 'c \<Rightarrow> sock_event list \<Rightarrow> 'c mock_result" where
  "mock_manager_main W bus connects named a c s =
     (if sa_dbus a then OverDbus (run_dbus_mode W bus connects named a c)
      else OverSocket (run_socket_mode W a s))"

section \<open>Facts\<close>

text \<open>A manager that needs a command and has none sends nothing.\<close>

lemma no_command_nothing_sent:
  assumes "ma_scenario (sa_manager a) = None" and "ma_command (sa_manager a) = None"
    and "run_socket_mode W a s = (ls, Inr (m, r))"
  shows "mm_out m = [] \<and> mm_reports m = [] \<and> isl r"
proof -
  have p: "(m, r) = mock_run_protocol (mw_debug W) (mw_files W) (mw_parse W) (mw_to_json W) (mw_from_json W) (sa_manager a)
      (mw_wait_turns W) (mw_exchange W) (mw_observe_turns W) (manager_connected s)"
    using assms(3) by (auto simp: run_socket_mode_def Let_def split: sum.splits prod.splits option.splits)
  obtain m1 r1 where c: "count_heartbeats (mw_from_json W) (wait_line (mw_debug W)) (\<lambda>msg. Some (unexpected_line (mw_debug W) msg))
      (mw_wait_turns W) 0 (mm_print ''[MockManager] Engine connected, waiting for heartbeats...'' (manager_connected s)) = (m1, r1)"
    by fastforce
  have "same_sent (mm_print ''[MockManager] Engine connected, waiting for heartbeats...'' (manager_connected s)) m1"
    using same_sent_count c by (metis fst_conv)
  then have sent: "mm_out m1 = []" "mm_reports m1 = []" by (simp_all add: same_sent_def mm_print_def manager_connected_def)
  show ?thesis using p[unfolded mock_run_protocol_def c] assms(1,2) sent
    by (cases r1) (auto simp: run_directives_def mm_print_def)
qed

text \<open>Without arguments the manager binds its socket, counts heartbeats and gives up with nothing sent.\<close>

lemma default_manager_sends_nothing:
  assumes "run_socket_mode W socket_args_default s = (ls, Inr (m, r))"
  shows "mm_out m = [] \<and> mm_reports m = [] \<and> isl r"
  by (rule no_command_nothing_sent[OF _ _ assms]) (simp_all add: socket_args_default_def)

text \<open>The engine says first where it connects to, and a run that is over ends with the summary.\<close>

lemma engine_prints_summary:
  assumes "protocol_loop D to_json from_json (ea_protocol a) its (protocol_start (ea_protocol a) s) = (p, True)"
    and "co_connects oc" and "co_read_timeout oc"
  shows "\<exists>l. fst (mock_engine_main D to_json from_json a oc its elapsed s) =
    l # pr_console p @ summary_lines D elapsed p"
  using assms by (simp add: mock_engine_main_def connect_stream_def run_protocol_def Let_def split: option.split)

end
