(* ===== verification/Spec2Isabelle.thy ===== *)
theory Spec2Isabelle
  imports Manager_Process Emitters Sim_Main Mock_Programs
begin

text \<open>
  A verification development of the Argus manager: the process that watches the memory, the
  temperature, the load and the battery of a device, lets a Lua script decide what the inference
  engine on that device should do, and sends the engine its directives.  Paths below are relative
  to the crate (\<^verbatim>\<open>src/\<close> of the repository).

  \<^bold>\<open>How the program works.\<close>  Each monitor (\<^verbatim>\<open>src/monitor/\<close>) polls one sensor in its own thread, runs
  the reading through a threshold evaluator with hysteresis (\<^verbatim>\<open>src/evaluator.rs\<close>) and sends a signal
  over one channel when the level changes.  The main loop (\<^verbatim>\<open>src/main.rs\<close>) takes the engine's messages
  from the transport (\<^verbatim>\<open>src/channel/\<close>), feeds them and the signals to the policy
  (\<^verbatim>\<open>src/lua_policy.rs\<close>), passes the directives of the policy through a deduplicator
  (\<^verbatim>\<open>src/pipeline.rs\<close>) and hands what is left to the transport.  A simulator (\<^verbatim>\<open>src/sim/\<close>) runs the
  same policy against a modelled device on a virtual clock.

  \<^bold>\<open>Theories, in the order of their imports.\<close>
  \<^item> \<^verbatim>\<open>Prelude\<close>: the fact collections, byte strings and characters as Rust's \<^verbatim>\<open>str\<close> functions see
    them, unsigned integers of 8 to 64 bits with wrap-around and parsing, lookups in association
    lists, results as sums.
  \<^item> \<^verbatim>\<open>Rust_Float\<close>: the part of IEEE 754 arithmetic the program uses, at both widths: values with
    infinities and NaN, rounding to nearest even, comparison, \<^verbatim>\<open>min\<close>, \<^verbatim>\<open>max\<close>, \<^verbatim>\<open>clamp\<close>, the saturating
    casts and parsing.  Monotonicity and exactness of rounding are proved once here.
  \<^item> \<^verbatim>\<open>Rust_Fmt\<close>, \<^verbatim>\<open>Ordered_Map\<close>: what the program uses of \<^verbatim>\<open>format!\<close> (padding, fixed precision, the
    shortest decimal of a float, derived debug text) and of \<^verbatim>\<open>BTreeMap\<close>.  A printed float parses back to
    itself; a fixed-precision one is within half a unit of the last digit.
  \<^item> \<^verbatim>\<open>Signal\<close> (\<^verbatim>\<open>src/signal.rs\<close>, \<^verbatim>\<open>src/types.rs\<close>, \<^verbatim>\<open>src/emitter/dbus.rs\<close>): levels, signals, the D-Bus
    names and argument lists of a signal.
  \<^item> \<^verbatim>\<open>Evaluator\<close> (\<^verbatim>\<open>src/evaluator.rs\<close>): the threshold evaluator, both directions.  The level after a
    reading is the old level clamped between the level that reading enters and the level it can
    recover to; a repeated reading changes nothing; a run inside the dead band never changes level.
  \<^item> \<^verbatim>\<open>Config\<close> (\<^verbatim>\<open>src/config.rs\<close>): the configuration with its defaults.
  \<^item> \<^verbatim>\<open>Monitor_Base\<close> (\<^verbatim>\<open>src/monitor.rs\<close>): the polling loop, and the locale \<^verbatim>\<open>sensor_monitor\<close> that gives
    the invariants of every monitor; interpreted by the sensor monitors.
  \<^item> \<^verbatim>\<open>Memory_Monitor\<close>, \<^verbatim>\<open>Thermal_Monitor\<close>, \<^verbatim>\<open>Energy_Monitor\<close>, \<^verbatim>\<open>Compute_Monitor\<close>, \<^verbatim>\<open>External_Monitor\<close>,
    \<^verbatim>\<open>Gpu_Provider\<close> (the files of \<^verbatim>\<open>src/monitor/\<close>): reading and parsing of each sensor, evaluation,
    signal building and whole runs.  Shown: parsing recovers what the kernel prints, levels agree
    with the readings of the signals that carry them, charging forces Normal, recommendations prefer
    the idle device, the tegrastats reader thread publishes only samples it has read, under every
    order in which its relaxed stores become visible.
  \<^item> \<^verbatim>\<open>Policy_State\<close> (\<^verbatim>\<open>src/policy/common/state.rs\<close>): pressures, the tracker of the time between tokens,
    the triggers; the locale \<^verbatim>\<open>latch\<close> for values with two thresholds.
  \<^item> \<^verbatim>\<open>Pipeline\<close> (\<^verbatim>\<open>src/pipeline.rs\<close>): the policy interface as the locale \<^verbatim>\<open>policy_strategy\<close>, and the
    deduplicator: repetitions are spaced by the cooldown, and the last decision is never lost.
  \<^item> \<^verbatim>\<open>Controller\<close>: the abstract specification of what drives a policy, the loop of \<^verbatim>\<open>src/main.rs\<close> without
    its threads and sockets: a sequence of reloads, engine messages and signals, and the directives that
    leave the deduplicator.  Locales \<^verbatim>\<open>reloadable_policy\<close> and \<^verbatim>\<open>numbered_policy\<close> extend \<^verbatim>\<open>policy_strategy\<close> and
    give validity, spacing and numbering of a run; locale \<^verbatim>\<open>controlled\<close> lifts the refinement of one step
    of a concrete system to all its runs.
  \<^item> \<^verbatim>\<open>Clock\<close> (\<^verbatim>\<open>src/clock.rs\<close>): durations, logical instants, the locale \<^verbatim>\<open>monotone_clock\<close>.
  \<^item> \<^verbatim>\<open>Lua_Host\<close> (\<^verbatim>\<open>src/lua/\<close>, the host functions and parsers of \<^verbatim>\<open>src/lua_policy.rs\<close>): the context table
    handed to the script, the parsing of its answer, and the view of the world (files, GPU provider,
    clock) that the \<^verbatim>\<open>sys\<close> helpers give a script while it runs.
  \<^item> \<^verbatim>\<open>Lua_Policy\<close> (\<^verbatim>\<open>src/lua_policy.rs\<close>): the policy, with its clock and GPU handles, its error counter, its
    fallback after three errors in a row, and its reload.  Every call of the script takes the view of the
    world at that call; policies that differ in their handles decide alike on views the script cannot
    tell apart.
  \<^item> \<^verbatim>\<open>Channel\<close> (\<^verbatim>\<open>src/channel/\<close>, \<^verbatim>\<open>src/emitter/unix_socket.rs\<close>): length-prefixed frames, the connection
    state machine, the reader thread and its bounded inbox as a step relation over every
    interleaving, the locale \<^verbatim>\<open>engine_channel\<close> interpreted by both transports.
  \<^item> \<^verbatim>\<open>Emitters\<close> (\<^verbatim>\<open>src/emitter/\<close>, \<^verbatim>\<open>src/channel/\<close>): the socket files under a path, binding and dropping of
    the emitter and of the channel, the write path of each transport, taking the D-Bus name.
  \<^item> \<^verbatim>\<open>Manager\<close> (\<^verbatim>\<open>src/main.rs\<close>): creation of transport, monitors and policy, start-up, the hot reload, one
    pass and any run of the main loop, which refine the controller; the properties that span the whole
    path from signal to wire.
  \<^item> \<^verbatim>\<open>Manager_Process\<close> (\<^verbatim>\<open>src/main.rs\<close>): the command line, the interrupt handlers, the monitor threads with
    the channel they share, and the main thread from its loop to the last join, as a step relation.
    Shown over every interleaving: the process refines the controller (interpretation \<^verbatim>\<open>manager\<close> of
    \<^verbatim>\<open>controlled\<close>), no signal is lost or reordered, the loop is left only for a reason, the process ends
    only after its monitors, and does end once they have.
  \<^item> \<^verbatim>\<open>Sim_Clock\<close> (\<^verbatim>\<open>src/sim/clock.rs\<close>, \<^verbatim>\<open>src/sim/clock_adapter.rs\<close>, \<^verbatim>\<open>src/sim/mock_policy.rs\<close>): the event queue
    (locale \<^verbatim>\<open>event_queue\<close>), the virtual clock and the recording policy.
  \<^item> \<^verbatim>\<open>Sim_Expr\<close> (\<^verbatim>\<open>src/sim/expr.rs\<close>): the functions scenarios may call and the contexts expressions are
    evaluated in.
  \<^item> \<^verbatim>\<open>Sim_Config\<close>, \<^verbatim>\<open>Sim_Load\<close> (\<^verbatim>\<open>src/sim/config.rs\<close>): the types of a scenario, sizes with units, validation;
    inheritance between scenario files.  At every path, the merge of two files holds the child's value
    unless the child says nothing there, and then the parent's; loading returns even on a cycle of
    files, and reports it.
  \<^item> \<^verbatim>\<open>Sim_State\<close> (\<^verbatim>\<open>src/sim/state.rs\<close>): the simulated device and engine; the locale \<^verbatim>\<open>named_fields\<close> for the
    access to fields by name.  A scenario that loads starts a device within its capacities.
  \<^item> \<^verbatim>\<open>Sim_Compose\<close> (\<^verbatim>\<open>src/sim/compose.rs\<close>): the effects of active actions.  The collection in hash maps
    refines a specification that treats each field alone, so its order does not matter.
  \<^item> \<^verbatim>\<open>Sim_Physics\<close> (\<^verbatim>\<open>src/sim/physics.rs\<close>, \<^verbatim>\<open>src/sim/derived.rs\<close>): a step of the device; the cache stays
    within its capacity while no injection, action, interaction or derived field active at that step
    writes it or its capacity.
  \<^item> \<^verbatim>\<open>Sim_Noise\<close> (\<^verbatim>\<open>src/sim/noise.rs\<close>): the streams of noise, independent of each other.
  \<^item> \<^verbatim>\<open>Sim_Signal\<close> (\<^verbatim>\<open>src/sim/signal.rs\<close>): the signals of the simulated device; its memory signal is the one
    the memory monitor sends.
  \<^item> \<^verbatim>\<open>Sim_Trajectory\<close> (\<^verbatim>\<open>src/sim/trajectory.rs\<close>): the record of a run, its queries and its summary.
  \<^item> \<^verbatim>\<open>Sim_Report\<close> (\<^verbatim>\<open>src/sim/trajectory.rs\<close>): the reports of a record, to the character: the CSV of its
    states, which reads back to exactly the values recorded, the timelines, full and sampled to the
    first state of each second, and the session summary, whose text is given line by line from the
    tallies of the record.
  \<^item> \<^verbatim>\<open>Sim_Harness\<close>, \<^verbatim>\<open>Sim_Replay\<close>, \<^verbatim>\<open>Sim_Run\<close> (\<^verbatim>\<open>src/sim/harness.rs\<close>): the simulator, its tick and its runs, for
    any policy.  \<^verbatim>\<open>Sim_Replay\<close> reads the record of a run back as inputs and directives of the controller
    (interpretation \<^verbatim>\<open>simulation\<close> of \<^verbatim>\<open>controlled\<close>) and gives locale \<^verbatim>\<open>simulated_policy\<close>, a sublocale of
    \<^verbatim>\<open>reloadable_policy\<close>, interpreted by the scripted and the recording policy.  A run without noise
    returns after exactly the ticks it needs, records exactly the heartbeats of its interval, and its
    directives are valid and spaced by the cooldown.
  \<^item> \<^verbatim>\<open>Sim_Main\<close> (\<^verbatim>\<open>src/bin/sim_run.rs\<close>): loader, policy and harness put together, with what the
    program prints and writes; what holds of every trajectory it reports.
  \<^item> \<^verbatim>\<open>Mock_Wire\<close>, \<^verbatim>\<open>Mock_Engine\<close>, \<^verbatim>\<open>Mock_Manager\<close> (\<^verbatim>\<open>src/bin/mock_engine.rs\<close>, \<^verbatim>\<open>src/bin/mock_manager.rs\<close>): the
    stand-ins for the two ends of the wire: the framing over a socket with timeouts and failing
    writes, the exchanges, and every line they print.  The engine answers every directive that arrives
    in whole frames, as the reader of the manager decodes it; a scenario reaches the engine with its
    numbers in order; a scenario in D-Bus mode replays any sequence of production signals without a
    memory signal, and can build no memory signal.
  \<^item> \<^verbatim>\<open>Mock_Programs\<close> (the same files): the two programs from their entry point: connecting and accepting
    over both transports, the modes, and the exit of each.
  \<^item> \<^verbatim>\<open>Spec2Isabelle\<close>: what holds of the simulator and the manager together.  Both refine the controller, so
    a simulation predicts the manager: fed what the record of a simulation shows, in whatever
    interleaving of its threads, and as long as its script cannot tell what it sees of the world from
    what it saw in the simulation, the manager sends exactly the directives on that record.

  \<^bold>\<open>State and effects.\<close>  Every struct is a record of the same fields, every \<^verbatim>\<open>&mut self\<close> method a
  function that returns the updated record, every error a left value.  A thread that polls is a
  function of the list of what it sees at each poll; where two threads share state (the Jetson
  reader, the channel reader) the model is an inductive step relation and the properties hold in
  every reachable state.  Integers keep their width: arithmetic wraps as in a release build.
  Floats are rationals rounded at each operation, with infinities and one NaN; the two zeros are
  identified, which no operation the program performs can tell apart except a printed sign.

  \<^bold>\<open>Parameters.\<close>  Code outside the crate is an argument of the definitions that use it: JSON
  encoding and decoding, the outcome of each socket call, the contents of \<^verbatim>\<open>/proc\<close> and \<^verbatim>\<open>/sys\<close>, the lines
  of tegrastats, the Lua machine (a record of the calls the policy makes on it; each call that runs
  the script takes what the script sees of the world, so it may read files, clocks and devices), the
  current time;
  for the simulator the evalexpr library (a record of its calls), the random generator, the
  transcendental functions of the mathematics library, the file and YAML layer under the scenario
  loader, and the debug text of the types of the protocol crate.
  What is relied on of them (a decoder inverts its encoder on the message at hand) is a hypothesis
  of the lemma that needs it, and a witness instantiates it.  The messages of the protocol crate
  are modelled as far as these sources build and match them.

  \<^bold>\<open>Loops and fuel.\<close>  Loops over input are structural.  Loops that need not end are partial
  functions with the value nothing: the periodic preload of the simulator (which does not return
  for a zero period and whose value is nothing on overflow too), the chain of scenario files, the
  draw of a random number until it is not zero, and the loops of a run.  Their properties say when
  they return: the preload for every positive period, the chain of files whenever finitely many
  files can be read, a run without noise for every positive tick.  No fuel is used.

  \<^bold>\<open>Simplifications.\<close>  An iteration of the main loop takes the messages of the engine in one step: what
  the reader thread pushes while the loop drains the inbox counts as pushed before the drain, when the
  drain still meets it, or before the next one.  The directives a policy may send are those with a
  command and with budgets of \<^verbatim>\<open>kv.compress\<close> in their range; that the
  parser of the program also keeps \<^verbatim>\<open>gpu.yield\<close> below a constant of the protocol crate is in its model,
  but not in this condition.  Hash maps that the simulator walks through are association lists in order
  of insertion; the main result of \<^verbatim>\<open>Sim_Compose\<close> does not depend on that order.  An error in a step of the
  simulated device ends the run, and what it leaves of the device is not modelled.  The paths of
  scenario files are compared as text.

  \<^bold>\<open>Not modelled.\<close>  The splitting of a command line into arguments (clap; the arguments and their
  defaults are records) and the log lines (the log crate drops them unless it is configured).  The
  registration of the interrupt handlers and the creation of threads: the handlers themselves and
  the threads are steps of \<^verbatim>\<open>Manager_Process\<close>.  Decoding of TOML, YAML and JSON, derived by serde, the
  D-Bus connection and the Lua machine: libraries, hence parameters.  The module declarations, the
  derived debug text of the policies, and code nothing calls (\<^verbatim>\<open>CollectedEffect\<close> of
  \<^verbatim>\<open>src/sim/compose.rs\<close>).  What is left is the join handle a channel keeps of its reader thread, whose
  end the reader relation of \<^verbatim>\<open>Channel\<close> already shows as a step.
\<close>

section \<open>The simulator and the manager\<close>

text \<open>
  The simulator gives its policy the virtual clock and a GPU provider without a device, the manager the
  system clock and the real provider (\<^verbatim>\<open>with_lua_policy\<close> of \<^verbatim>\<open>src/sim/harness.rs\<close>, \<^verbatim>\<open>create_policy\<close> of
  \<^verbatim>\<open>src/main.rs\<close>), and scripts can read files, clocks and the provider while they decide.  A manager
  process is fed like a simulation when it starts from the same policy with its own handles and takes in
  the same messages and signals at the same times, and when at each signal the script cannot tell what
  it sees of the world there from what it saw in the simulation.
\<close>

definition as_manager_policy :: "'vm lua_policy \<times> u64 \<Rightarrow> 'vm lua_policy \<times> u64" where
  "as_manager_policy pc = with_handles SystemClock SharedProvider pc"

definition rehearsed_feed :: "'vm lua_machine \<Rightarrow> (unit, host_view) control_input \<Rightarrow> (host_view, host_view) control_input \<Rightarrow> bool" where
  "rehearsed_feed M = same_feed (\<lambda>h h'. looks_same M (seen_through SharedNull h) (seen_through SharedProvider h'))"

definition fed_alike ::
  "'vm lua_machine \<Rightarrow> (outgoing \<Rightarrow> u8 list res) \<Rightarrow> monitor list \<Rightarrow> 'vm main_state \<Rightarrow> 'vm lua_policy \<times> u64 \<Rightarrow>
   directive_deduplicator \<Rightarrow> (unit, host_view) control_input list \<Rightarrow> 'vm process \<Rightarrow> bool" where
  "fed_alike M to_json ms s pc d ins p =
     (process_reaches M to_json (process_start ms s) p \<and> ms_policy s = as_manager_policy pc \<and> ms_dedup s = d \<and>
      list_all2 (rehearsed_feed M) ins (pr_inputs p))"

text \<open>Such a process goes through the run of the simulation.\<close>

lemma fed_alike_run:
  fixes M :: "'vm lua_machine"
  assumes "fed_alike M to_json ms s pc d ins p" and "gpu_provider (fst pc) = SharedNull"
    and "control_run (process_signal M) update_engine_state no_reload (pc, d) ins = ((pc', d'), out)"
  shows "process.pr_directives p = out \<and> ms_policy (pr_main p) = as_manager_policy pc'"
proof -
  let ?R = "\<lambda>a b. b = as_manager_policy a \<and> gpu_provider (fst a) = SharedNull"
  have "list_all2 (rehearsed_feed M) ins (pr_inputs p)" using assms(1) by (simp add: fed_alike_def)
  note alike = control_run_alike[OF this [unfolded rehearsed_feed_def], of ?R pc "as_manager_policy pc"
      "process_signal M" "process_signal M" update_engine_state update_engine_state no_reload d pc' d' out "hot_reload M"]
  have "\<exists>q'. lua_control M (as_manager_policy pc, d) (pr_inputs p) = ((q', d'), out) \<and> ?R pc' q'"
  proof (rule alike)
    fix h h' sg and a b :: "'vm lua_policy \<times> u64"
    assume "looks_same M (seen_through SharedNull h) (seen_through SharedProvider h')" and r: "?R a b"
    then have "process_signal M h' sg b = apfst as_manager_policy (process_signal M h sg a)"
      using process_signal_handles[of M a h SharedProvider h' sg SystemClock] by (simp add: as_manager_policy_def)
    then show "?R (fst (process_signal M h sg a)) (fst (process_signal M h' sg b)) \<and>
        snd (process_signal M h sg a) = snd (process_signal M h' sg b)"
      using r by (simp add: process_signal_keeps_provider)
  qed (use assms(2,3) in \<open>auto simp: as_manager_policy_def update_engine_state_handles\<close>)
  then show ?thesis using process_reaches_refines(1)[of M to_json ms s p] assms(1)
    by (auto simp: fed_alike_def main_control_def)
qed

text \<open>Every sequence without reloads can be fed to some process: a host without a GPU looks the same.\<close>

definition without_gpu :: "host_view \<Rightarrow> host_view" where
  "without_gpu h = h\<lparr>hv_gpu := Some NullGpu\<rparr>"

fun to_manager :: "(unit, host_view) control_input \<Rightarrow> (host_view, host_view) control_input" where
  "to_manager (Reload x) = Reload example_host"
| "to_manager (Message m) = Message m"
| "to_manager (Signal h s t) = Signal (without_gpu h) s t"

lemma to_manager_feed:
  assumes "list_all (\<lambda>i. \<forall>x. i \<noteq> Reload x) ins"
  shows "list_all2 (rehearsed_feed M) ins (map to_manager ins)" and "list_all (\<lambda>i. \<forall>x. i \<noteq> Reload x) (map to_manager ins)"
proof -
  have "(\<forall>x. i \<noteq> Reload x) \<Longrightarrow> rehearsed_feed M i (to_manager i) \<and> (\<forall>x. to_manager i \<noteq> Reload x)" for i
    by (cases i) (simp_all add: rehearsed_feed_def seen_through_def without_gpu_def)
  with assms show "list_all2 (rehearsed_feed M) ins (map to_manager ins)" "list_all (\<lambda>i. \<forall>x. i \<noteq> Reload x) (map to_manager ins)"
    by (induction ins) simp_all
qed

lemma can_be_fed_alike:
  assumes "list_all (\<lambda>i. \<forall>x. i \<noteq> Reload x) ins" and "\<And>m. \<not> isl (to_json m)"
  shows "\<exists>ms s p. fed_alike M to_json ms s pc d ins p"
proof -
  obtain ms s p where "process_reaches M to_json (process_start ms s) p" "ms_policy s = as_manager_policy pc"
    "ms_dedup s = d" "pr_inputs p = map to_manager ins"
    using process_can_be_fed[OF to_manager_feed(2)[OF assms(1)], of to_json M "as_manager_policy pc" d, OF assms(2)] by blast
  then have "fed_alike M to_json ms s pc d ins p"
    using to_manager_feed(1)[OF assms(1), of M] by (simp add: fed_alike_def)
  then show ?thesis by blast
qed

text \<open>C5: A simulation rehearses the manager: for every script, scenario and run, the record shows what the
  policy was fed, in order, and every manager process that is fed alike, in whatever interleaving of
  its threads, hands exactly the directives on the record to its transport, and ends with the policy in
  the same state, its own handles apart.  There is such a process for every simulation, whenever
  messages can be encoded.\<close>

theorem simulation_agrees_with_manager:
  assumes "with_lua_policy V M h path acfg n = Inr sim" and "se_policy V = lua_ops M"
    and "sim_reaches V (with_tick_dt dt (with_dedup_cooldown c sim)) sim'"
  shows "\<exists>ins. list_all2 shows_input ins (filter is_input_entry (sim_trajectory sim')) \<and>
    views_in ins = map (se_host V) [0..<signal_count (sim_trajectory sim')] \<and>
    (\<forall>to_json ms s p. fed_alike M to_json ms s (sim_policy sim) (dedup_with_cooldown c) ins p \<longrightarrow>
       directive_entries (sim_trajectory sim') = map (\<lambda>(d, t). (t, dump_directive (se_debug V) d)) (process.pr_directives p) \<and>
       ms_policy (pr_main p) = as_manager_policy (sim_policy sim')) \<and>
    (\<forall>to_json. (\<forall>m. \<not> isl (to_json m)) \<longrightarrow>
       (\<exists>ms s p. fed_alike M to_json ms s (sim_policy sim) (dedup_with_cooldown c) ins p))"
proof -
  obtain ins out where i: "record_shows (se_debug V) (se_host V) (sim_trajectory sim') ins out"
    "control_run (process_signal M) update_engine_state no_reload (sim_policy sim, dedup_with_cooldown c) ins =
      ((sim_policy sim', sim_dedup sim'), out)"
    using scripted_record_replays[OF assms] by blast
  have shown: "list_all2 shows_input ins (filter is_input_entry (sim_trajectory sim'))"
    "views_in ins = map (se_host V) [0..<signal_count (sim_trajectory sim')]"
    "directive_entries (sim_trajectory sim') = map (\<lambda>(d, t). (t, dump_directive (se_debug V) d)) out"
    using i(1) by (simp_all add: record_shows_def)
  have "gpu_provider (fst (sim_policy sim)) = SharedNull" using assms(1) by (rule with_lua_policy_provider)
  note same = fed_alike_run[OF _ this i(2)]
  show ?thesis
    using shown same can_be_fed_alike[OF shown_no_reload[OF shown(1)], where M = M and pc = "sim_policy sim"]
    by (intro exI[of _ ins]) auto
qed

theorem simulation_agrees_with_manager_witness:
  "\<exists>sim sim' ins ms s p.
     run_for (example_env (lua_ops example_machine)) 1000000000 (with_tick_dt 1000000000 (with_dedup_cooldown (Fin 60) sim)) =
       Some (Inr sim') \<and>
     list_all2 shows_input ins (filter is_input_entry (sim_trajectory sim')) \<and>
     fed_alike example_machine example_encoder ms s (sim_policy sim) dedup_new ins p \<and>
     length (directive_entries (sim_trajectory sim')) = length (process.pr_directives p) \<and>
     ms_policy (pr_main p) = as_manager_policy (sim_policy sim')"
proof (rule example_scripted_run)
  fix sim sim'
  let ?V = "example_env (lua_ops example_machine)"
  assume w: "with_lua_policy ?V example_machine example_host ''p.lua'' adaptation_config_default 1 = Inr sim"
    and r: "run_for ?V 1000000000 (with_tick_dt 1000000000 (with_dedup_cooldown (Fin 60) sim)) = Some (Inr sim')"
  have "se_policy ?V = lua_ops example_machine" by (simp add: example_env_def)
  from simulation_agrees_with_manager[OF w this sim_reaches.ran_for[OF sim_reaches.start r]]
  obtain ins where i: "list_all2 shows_input ins (filter is_input_entry (sim_trajectory sim'))"
    "\<And>to_json ms s p. fed_alike example_machine to_json ms s (sim_policy sim) dedup_new ins p \<Longrightarrow>
       directive_entries (sim_trajectory sim') = map (\<lambda>(d, t). (t, dump_directive (se_debug ?V) d)) (process.pr_directives p) \<and>
       ms_policy (pr_main p) = as_manager_policy (sim_policy sim')"
    "\<And>to_json. \<forall>m. \<not> isl (to_json m) \<Longrightarrow> \<exists>ms s p. fed_alike example_machine to_json ms s (sim_policy sim) dedup_new ins p"
    unfolding dedup_new_def by blast
  have "\<forall>m. \<not> isl (example_encoder m)" by (simp add: example_encoder_def)
  with i(3) obtain ms s p where p: "fed_alike example_machine example_encoder ms s (sim_policy sim) dedup_new ins p"
    by blast
  have "length (directive_entries (sim_trajectory sim')) = length (process.pr_directives p)"
    using i(2)[OF p] by simp
  then show ?thesis using r i(1) p i(2)[OF p] by blast
qed

end
